(* ===== verification/Prelude.thy ===== *)
theory Prelude
  imports Complex_Main "HOL-Library.Word" "HOL-Library.Multiset" "HOL-Library.Sublist"
    "HOL-Library.Char_ord" "HOL-Library.List_Lexorder"
begin

text \<open>
  What every component shares: Go's control outcomes (a value, an error result, a panic),
  the fixed-width integers, the functions of the standard library's packages \<open>strings\<close>,
  \<open>strconv\<close> and \<open>sort\<close> that the operator calls, and the collections of simplification rules
  the component proofs use.
\<close>

named_theorems i32_simps \<open>reading 32-bit words as signed integers\<close>
named_theorems go_string_simps \<open>facts on Split, Join and TrimPrefix\<close>

section \<open>Outcomes\<close>

text \<open>
  A Go call returns a value, returns a non-nil error, or panics (a nil dereference, a slice
  expression out of range). The three are kept apart: no function of the model hides a panic
  behind a default value.
\<close>

datatype ('e, 'a) outcome = Ok 'a | Err 'e | Panic

fun bind_outcome :: "('e, 'a) outcome \<Rightarrow> ('a \<Rightarrow> ('e, 'b) outcome) \<Rightarrow> ('e, 'b) outcome" where
  "bind_outcome (Ok a) f = f a"
| "bind_outcome (Err e) f = Err e"
| "bind_outcome Panic f = Panic"

fun deref :: "'a option \<Rightarrow> ('e, 'a) outcome" where
  "deref None = Panic"
| "deref (Some a) = Ok a"

lemma bind_outcome_Ok_iff: "bind_outcome m f = Ok b \<longleftrightarrow> (\<exists>a. m = Ok a \<and> f a = Ok b)"
  by (cases m) auto

lemma bind_outcome_Panic_iff:
  "bind_outcome m f = Panic \<longleftrightarrow> m = Panic \<or> (\<exists>a. m = Ok a \<and> f a = Panic)"
  by (cases m) auto

lemma deref_Ok_iff [simp]: "deref x = Ok a \<longleftrightarrow> x = Some a"
  by (cases x) auto

section \<open>Machine integers\<close>

type_synonym int32 = "32 word"
type_synonym int64 = "64 word"

text \<open>
  \<open>int32\<close> and \<open>int64\<close> are two's complement words, so \<open>+\<close>, \<open>-\<close> and \<open>*\<close> wrap as in
  Go. Comparisons and conversions to float64 are on signed values: they go through \<open>sint\<close>.
  Go's \<open>int\<close> is 64 bits wide (the platforms the operator is built for).
\<close>

declare of_int_sint [simp del]

definition to_int32 :: "'a::len word \<Rightarrow> int32" where
  "to_int32 w = word_of_int (sint w)"

definition to_int64 :: "'a::len word \<Rightarrow> int64" where
  "to_int64 w = word_of_int (sint w)"

text \<open>Go's integer division truncates towards zero; a zero divisor panics.\<close>

definition quot64 :: "int64 \<Rightarrow> int64 \<Rightarrow> ('e, int64) outcome" where
  "quot64 a b =
     (if b = 0 then Panic
      else Ok (word_of_int (sgn (sint a) * sgn (sint b) * (\<bar>sint a\<bar> div \<bar>sint b\<bar>))))"

definition rem_int :: "int \<Rightarrow> int \<Rightarrow> int" where
  "rem_int a b = a - b * (sgn a * sgn b * (\<bar>a\<bar> div \<bar>b\<bar>))"

lemma sint32_lower [i32_simps]: "- 2147483648 \<le> sint (w :: int32)"
  using sint_greater_eq [of w] by simp

lemma sint32_upper [i32_simps]: "sint (w :: int32) < 2147483648"
  using sint_less [of w] by simp

lemma sint32_upper_le [i32_simps]: "sint (w :: int32) \<le> 2147483647"
  using sint32_upper [of w] by simp

lemma sint64_lower: "- 9223372036854775808 \<le> sint (w :: int64)"
  using sint_greater_eq [of w] by simp

lemma sint64_upper: "sint (w :: int64) < 9223372036854775808"
  using sint_less [of w] by simp

lemma sint32_word_of_int:
  "- 2147483648 \<le> k \<Longrightarrow> k < 2147483648 \<Longrightarrow> sint (word_of_int k :: int32) = k"
  by (simp add: signed_take_bit_int_eq_self sint_uint unsigned_of_int
      signed_take_bit_take_bit)

lemma sint64_word_of_int:
  "- 9223372036854775808 \<le> k \<Longrightarrow> k < 9223372036854775808 \<Longrightarrow> sint (word_of_int k :: int64) = k"
  by (simp add: signed_take_bit_int_eq_self sint_uint unsigned_of_int
      signed_take_bit_take_bit)

lemma word_of_int_sint32 [simp]: "word_of_int (sint (w :: int32)) = w"
  by (simp add: of_int_sint)

lemma word_of_int_sint64 [simp]: "word_of_int (sint (w :: int64)) = w"
  by (simp add: of_int_sint)

lemma sint32_add:
  "- 2147483648 \<le> sint a + sint b \<Longrightarrow> sint a + sint b < 2147483648 \<Longrightarrow>
   sint (a + b :: int32) = sint a + sint b"
  using sint32_word_of_int [of "sint a + sint b"] by simp

lemma sint32_diff:
  "- 2147483648 \<le> sint a - sint b \<Longrightarrow> sint a - sint b < 2147483648 \<Longrightarrow>
   sint (a - b :: int32) = sint a - sint b"
  using sint32_word_of_int [of "sint a - sint b"] by simp

lemma sint32_mult:
  "- 2147483648 \<le> sint a * sint b \<Longrightarrow> sint a * sint b < 2147483648 \<Longrightarrow>
   sint (a * b :: int32) = sint a * sint b"
  using sint32_word_of_int [of "sint a * sint b"] by simp

lemma sint32_eq_iff: "sint a = sint b \<longleftrightarrow> a = (b :: int32)"
  by (metis word_of_int_sint32)

lemma to_int32_id [simp]: "to_int32 (w :: int32) = w"
  by (simp add: to_int32_def)

lemma sint_to_int32:
  "- 2147483648 \<le> sint w \<Longrightarrow> sint w < 2147483648 \<Longrightarrow> sint (to_int32 w) = sint w"
  by (simp only: to_int32_def sint32_word_of_int)

lemma sint_to_int64_32 [i32_simps]: "sint (to_int64 (w :: int32)) = sint w"
proof -
  have "- 9223372036854775808 \<le> sint w" "sint w < 9223372036854775808"
    using sint32_lower [of w] sint32_upper [of w] by linarith+
  then show ?thesis by (simp only: to_int64_def sint64_word_of_int)
qed

lemma to_int32_to_int64 [simp]: "to_int32 (to_int64 (w :: int32)) = w"
  by (simp only: to_int32_def sint_to_int64_32 word_of_int_sint32)

end
