(* ===== verification/NullString.thy ===== *)
theory NullString
  imports Prelude
begin

text \<open>
  operator/null/string.go: a string that may be null, with its JSON and text forms. The bytes
  handed to \<open>UnmarshalJSON\<close> are one JSON value: null, a string, or something that does not decode
  into a Go string.
\<close>

record null_string =
  ns_string :: string
  ns_valid :: bool

datatype json = JNull | JString string | JOther

definition NewString :: "string \<Rightarrow> bool \<Rightarrow> null_string" where
  "NewString s valid = \<lparr>ns_string = s, ns_valid = valid\<rparr>"

definition StringFrom :: "string \<Rightarrow> null_string" where
  "StringFrom s = NewString s True"

definition StringFromPtr :: "string option \<Rightarrow> null_string" where
  "StringFromPtr p = (case p of None \<Rightarrow> NewString '''' False | Some s \<Rightarrow> NewString s True)"

definition ValueOrZero :: "null_string \<Rightarrow> string" where
  "ValueOrZero s = (if \<not> ns_valid s then '''' else ns_string s)"

text \<open>Decoding works on the receiver: null leaves the old string in place and clears the flag.\<close>

definition UnmarshalJSON :: "json \<Rightarrow> null_string \<Rightarrow> (unit, null_string) outcome" where
  "UnmarshalJSON data s =
     (case data of
        JNull \<Rightarrow> Ok (s\<lparr>ns_valid := False\<rparr>)
      | JString v \<Rightarrow> Ok (s\<lparr>ns_string := v, ns_valid := True\<rparr>)
      | JOther \<Rightarrow> Err ())"

definition MarshalJSON :: "null_string \<Rightarrow> json" where
  "MarshalJSON s = (if \<not> ns_valid s then JNull else JString (ns_string s))"

definition MarshalText :: "null_string \<Rightarrow> string" where
  "MarshalText s = (if \<not> ns_valid s then [] else ns_string s)"

definition UnmarshalText :: "string \<Rightarrow> null_string \<Rightarrow> null_string" where
  "UnmarshalText text s = s\<lparr>ns_string := text, ns_valid := (text \<noteq> '''')\<rparr>"

definition Equal :: "null_string \<Rightarrow> null_string \<Rightarrow> bool" where
  "Equal s other \<longleftrightarrow>
     ns_valid s = ns_valid other \<and> (\<not> ns_valid s \<or> ns_string s = ns_string other)"

section \<open>Facts\<close>

lemma ValueOrZero_simps [simp]:
  "ValueOrZero (StringFrom v) = v" "ValueOrZero (StringFromPtr (Some v)) = v"
  "ValueOrZero (StringFromPtr None) = ''''"
  by (simp_all add: ValueOrZero_def StringFrom_def StringFromPtr_def NewString_def)

lemma Equal_equiv: "equivp Equal"
  by (rule equivpI) (auto simp: Equal_def reflp_def symp_def transp_def)

text \<open>
  The JSON form loses nothing that \<open>Equal\<close> can see: decoding an encoded null string into any
  receiver succeeds and gives an equal one, two strings are equal exactly when their JSON forms
  are, and the text form of a string that is null or not blank comes back equal.
\<close>

theorem null_string_roundtrip:
  "(\<exists>d. UnmarshalJSON (MarshalJSON s) r = Ok d \<and> Equal d s) \<and>
   (Equal s t \<longleftrightarrow> MarshalJSON s = MarshalJSON t) \<and>
   (Equal (UnmarshalText (MarshalText s) r) s \<longleftrightarrow> s \<noteq> StringFrom '''')"
  by (cases s, cases t)
    (auto simp: MarshalJSON_def UnmarshalJSON_def Equal_def MarshalText_def UnmarshalText_def
      StringFrom_def NewString_def)

end
