(* ===== verification/GoStrings.thy ===== *)
theory GoStrings
  imports Prelude
begin

text \<open>
  The functions of Go's packages \<open>strings\<close> and \<open>strconv\<close> the operator calls, on byte strings:
  Split and Join with a one-byte separator, TrimPrefix, HasPrefix, Atoi (base 10, 64 bits) and
  the verb %d of fmt. The lemmas are the round trips Split/Join and Atoi/%d.
\<close>

section \<open>Split and Join\<close>

fun split_on :: "char \<Rightarrow> string \<Rightarrow> string list" where
  "split_on c [] = [[]]"
| "split_on c (x # xs) =
     (if x = c then [] # split_on c xs
      else (case split_on c xs of [] \<Rightarrow> [[x]] | w # ws \<Rightarrow> (x # w) # ws))"

fun join_with :: "char \<Rightarrow> string list \<Rightarrow> string" where
  "join_with c [] = []"
| "join_with c [w] = w"
| "join_with c (w # v # ws) = w @ c # join_with c (v # ws)"

lemma split_on_not_Nil [simp]: "split_on c s \<noteq> []"
  by (induction s) (auto split: list.splits)

lemma split_on_no_sep: "w \<in> set (split_on c s) \<Longrightarrow> c \<notin> set w"
proof (induction s arbitrary: w)
  case (Cons x xs)
  then show ?case by (cases "split_on c xs") (auto split: if_splits)
qed simp

lemma split_on_single: "c \<notin> set s \<Longrightarrow> split_on c s = [s]"
  by (induction s) auto

lemma split_on_append: "c \<notin> set w \<Longrightarrow> split_on c (w @ c # s) = w # split_on c s"
  by (induction w) auto

lemma join_with_Cons: "ws \<noteq> [] \<Longrightarrow> join_with c (w # ws) = w @ c # join_with c ws"
  by (cases ws) auto

lemma join_split [go_string_simps]: "join_with c (split_on c s) = s"
proof (induction s)
  case (Cons x xs)
  show ?case
  proof (cases "x = c")
    case True
    with Cons show ?thesis by (simp add: join_with_Cons)
  next
    case False
    obtain w ws where w: "split_on c xs = w # ws" by (meson neq_Nil_conv split_on_not_Nil)
    with Cons False show ?thesis by (cases ws) auto
  qed
qed simp

lemma split_join [go_string_simps]:
  "ws \<noteq> [] \<Longrightarrow> (\<And>w. w \<in> set ws \<Longrightarrow> c \<notin> set w) \<Longrightarrow> split_on c (join_with c ws) = ws"
  by (induction c ws rule: join_with.induct) (auto simp: split_on_single split_on_append)

lemma join_with_eq_Nil: "join_with c ws = [] \<longleftrightarrow> ws = [] \<or> ws = [[]]"
  by (induction c ws rule: join_with.induct) auto

lemma join_with_append:
  "us \<noteq> [] \<Longrightarrow> vs \<noteq> [] \<Longrightarrow> join_with c (us @ vs) = join_with c us @ c # join_with c vs"
  by (induction c us rule: join_with.induct) (auto simp: join_with_Cons)

lemma split_on_concat: "split_on c (s @ c # t) = split_on c s @ split_on c t"
proof (induction s)
  case (Cons x xs)
  then show ?case by (cases "split_on c xs") auto
qed simp

section \<open>TrimPrefix and HasPrefix\<close>

definition has_prefix :: "string \<Rightarrow> string \<Rightarrow> bool" where
  "has_prefix s p \<longleftrightarrow> take (length p) s = p"

definition trim_prefix :: "string \<Rightarrow> string \<Rightarrow> string" where
  "trim_prefix s p = (if has_prefix s p then drop (length p) s else s)"

lemma has_prefix_iff: "has_prefix s p \<longleftrightarrow> prefix p s"
  by (auto simp: has_prefix_def prefix_def) (metis append_take_drop_id)

lemma trim_prefix_append [simp, go_string_simps]: "trim_prefix (p @ s) p = s"
  by (simp add: trim_prefix_def has_prefix_def)

section \<open>Atoi and %d\<close>

definition digit_val :: "char \<Rightarrow> nat option" where
  "digit_val c = (let n = of_char c in if 48 \<le> n \<and> n \<le> 57 then Some (n - 48) else None)"

fun parse_digits :: "nat \<Rightarrow> string \<Rightarrow> nat option" where
  "parse_digits acc [] = Some acc"
| "parse_digits acc (c # cs) =
     (case digit_val c of None \<Rightarrow> None | Some d \<Rightarrow> parse_digits (10 * acc + d) cs)"

text \<open>
  \<open>strconv.Atoi\<close> (and \<open>strconv.ParseInt(s, 10, 64)\<close>): an optional sign, at least one digit,
  nothing else, a value of 64 bits. Its error, a syntax or a range error, is None.
\<close>

definition in_int64 :: "int \<Rightarrow> bool" where
  "in_int64 v \<longleftrightarrow> - 9223372036854775808 \<le> v \<and> v < 9223372036854775808"

definition parse_magnitude :: "bool \<Rightarrow> string \<Rightarrow> int64 option" where
  "parse_magnitude neg ds =
     (if ds = [] then None
      else case parse_digits 0 ds of
        None \<Rightarrow> None
      | Some n \<Rightarrow>
          (let v = (if neg then - int n else int n)
           in if in_int64 v then Some (word_of_int v) else None))"

definition atoi :: "string \<Rightarrow> int64 option" where
  "atoi s =
     (case s of
        [] \<Rightarrow> None
      | c # cs \<Rightarrow>
          if c = CHR ''-'' then parse_magnitude True cs
          else if c = CHR ''+'' then parse_magnitude False cs
          else parse_magnitude False s)"

fun show_nat :: "nat \<Rightarrow> string" where
  "show_nat n =
     (if n < 10 then [char_of (48 + n)]
      else show_nat (n div 10) @ [char_of (48 + n mod 10)])"

definition show_int :: "int \<Rightarrow> string" where
  "show_int k = (if k < 0 then CHR ''-'' # show_nat (nat (- k)) else show_nat (nat k))"

declare show_nat.simps [simp del]

lemma of_char_digit: "d < 10 \<Longrightarrow> of_char (char_of (48 + d) :: char) = (48 + d :: nat)"
  by (simp add: of_char_of)

lemma digit_val_digit [simp]: "d < 10 \<Longrightarrow> digit_val (char_of (48 + d)) = Some d"
  by (simp add: digit_val_def of_char_digit Let_def)

lemma parse_digits_append:
  "parse_digits acc (xs @ ys) =
     (case parse_digits acc xs of None \<Rightarrow> None | Some n \<Rightarrow> parse_digits n ys)"
  by (induction acc xs rule: parse_digits.induct) (auto split: option.splits)

lemma parse_show_nat: "parse_digits 0 (show_nat n) = Some n"
proof (induction n rule: show_nat.induct)
  case (1 n)
  then show ?case
    by (cases "n < 10") (simp_all add: show_nat.simps [of n] parse_digits_append)
qed

lemma show_nat_not_Nil [simp]: "show_nat n \<noteq> []"
  by (simp add: show_nat.simps [of n])

lemma show_nat_hd: "\<exists>d cs. show_nat n = char_of (48 + d) # cs \<and> d < (10 :: nat)"
proof (induction n rule: show_nat.induct)
  case (1 n)
  show ?case
  proof (cases "n < 10")
    case True
    then show ?thesis by (intro exI [of _ n]) (simp add: show_nat.simps [of n])
  next
    case False
    with 1 obtain d cs where "show_nat (n div 10) = char_of (48 + d) # cs" "d < (10 :: nat)"
      by blast
    with False have "show_nat n = char_of (48 + d) # cs @ [char_of (48 + n mod 10)]"
      by (simp add: show_nat.simps [of n])
    with \<open>d < 10\<close> show ?thesis by blast
  qed
qed

lemma digit_not_sign:
  assumes "d < (10 :: nat)"
  shows "char_of (48 + d) \<noteq> CHR ''-''" "char_of (48 + d) \<noteq> CHR ''+''"
proof -
  have neq: "char_of (48 + d) \<noteq> (c :: char)" if "of_char c < (48 :: nat)" for c
  proof
    assume "char_of (48 + d) = c"
    then have "of_char c = 48 + d" using of_char_digit [OF assms] by metis
    with that show False by simp
  qed
  show "char_of (48 + d) \<noteq> CHR ''-''" "char_of (48 + d) \<noteq> CHR ''+''"
    by (rule neq, simp)+
qed

lemma parse_magnitude_show:
  "in_int64 (if neg then - int n else int n) \<Longrightarrow>
   parse_magnitude neg (show_nat n) = Some (word_of_int (if neg then - int n else int n))"
  by (simp add: parse_magnitude_def parse_show_nat)

lemma atoi_show_int [go_string_simps]:
  assumes "in_int64 k"
  shows "atoi (show_int k) = Some (word_of_int k)"
proof (cases "k < 0")
  case True
  with assms show ?thesis
    using parse_magnitude_show [of True "nat (- k)"] by (simp add: atoi_def show_int_def)
next
  case False
  obtain d cs where d: "show_nat (nat k) = char_of (48 + d) # cs" "d < (10 :: nat)"
    using show_nat_hd by blast
  from False assms have "parse_magnitude False (show_nat (nat k)) = Some (word_of_int k)"
    using parse_magnitude_show [of False "nat k"] by simp
  with False d show ?thesis
    using digit_not_sign [OF d(2)] by (simp add: atoi_def show_int_def)
qed

lemma in_int64_sint [simp]: "in_int64 (sint (w :: int64))"
  using sint64_lower [of w] sint64_upper [of w] by (simp add: in_int64_def)

lemma atoi_show_sint [simp]: "atoi (show_int (sint (w :: int64))) = Some w"
  by (simp add: atoi_show_int)

end
