(* ===== verification/EsSettings.thy ===== *)
theory EsSettings
  imports NullString GoStrings
begin

text \<open>
  The cluster settings of operator/es_client.go: the nested settings of Elasticsearch, the
  de-duplication of the excluded IPs, and the merge of the transient settings into the
  persistent ones.
\<close>

section \<open>Settings\<close>

record exclude = ex_ip :: null_string
record allocation = al_exclude :: exclude
record rebalance = rb_enable :: null_string
record routing = ro_allocation :: allocation  ro_rebalance :: rebalance
record cluster = cl_routing :: routing
record cluster_settings = cs_cluster :: cluster
record es_settings =
  se_transient :: cluster_settings
  se_persistent :: cluster_settings

definition exclude_ip :: "cluster_settings \<Rightarrow> null_string" where
  "exclude_ip cs = ex_ip (al_exclude (ro_allocation (cl_routing (cs_cluster cs))))"

definition rebalance_enable :: "cluster_settings \<Rightarrow> null_string" where
  "rebalance_enable cs = rb_enable (ro_rebalance (cl_routing (cs_cluster cs)))"

definition set_exclude_ip :: "null_string \<Rightarrow> cluster_settings \<Rightarrow> cluster_settings" where
  "set_exclude_ip v =
     cs_cluster_update (cl_routing_update (ro_allocation_update (al_exclude_update (ex_ip_update (\<lambda>_. v)))))"

definition set_rebalance_enable :: "null_string \<Rightarrow> cluster_settings \<Rightarrow> cluster_settings" where
  "set_rebalance_enable v =
     cs_cluster_update (cl_routing_update (ro_rebalance_update (rb_enable_update (\<lambda>_. v))))"

lemma settings_simps [simp]:
  "exclude_ip (set_exclude_ip v cs) = v" "exclude_ip (set_rebalance_enable v cs) = exclude_ip cs"
  "rebalance_enable (set_rebalance_enable v cs) = v"
  "rebalance_enable (set_exclude_ip v cs) = rebalance_enable cs"
  by (simp_all add: exclude_ip_def set_exclude_ip_def rebalance_enable_def set_rebalance_enable_def)

definition GetTransientExcludeIPs :: "es_settings \<Rightarrow> null_string" where
  "GetTransientExcludeIPs s = exclude_ip (se_transient s)"

definition GetPersistentExcludeIPs :: "es_settings \<Rightarrow> null_string" where
  "GetPersistentExcludeIPs s = exclude_ip (se_persistent s)"

definition GetTransientRebalance :: "es_settings \<Rightarrow> null_string" where
  "GetTransientRebalance s = rebalance_enable (se_transient s)"

definition GetPersistentRebalance :: "es_settings \<Rightarrow> null_string" where
  "GetPersistentRebalance s = rebalance_enable (se_persistent s)"

definition updateExcludeIps :: "string \<Rightarrow> es_settings \<Rightarrow> es_settings" where
  "updateExcludeIps ips = se_persistent_update (set_exclude_ip (StringFromPtr (Some ips)))"

definition updateRebalance :: "string \<Rightarrow> es_settings \<Rightarrow> es_settings" where
  "updateRebalance v = se_persistent_update (set_rebalance_enable (StringFromPtr (Some v)))"

section \<open>Merging\<close>

text \<open>The loop of \<open>deduplicateIPs\<close>: the map of the seen IPs is a set, the list keeps the first ones.\<close>

fun dedup :: "string set \<Rightarrow> string list \<Rightarrow> string list \<Rightarrow> string list" where
  "dedup seen acc [] = acc"
| "dedup seen acc (ip # ips) =
     (if ip \<in> seen then dedup seen acc ips else dedup (insert ip seen) (acc @ [ip]) ips)"

definition deduplicateIPs :: "string \<Rightarrow> string" where
  "deduplicateIPs excludedIPsString =
     (if excludedIPsString = '''' then ''''
      else join_with CHR '','' (dedup {} [] (split_on CHR '','' excludedIPsString)))"

definition mergeExcludeIpStrings :: "string \<Rightarrow> string \<Rightarrow> string" where
  "mergeExcludeIpStrings transientExcludeIps persistentExcludeIps =
     (if transientExcludeIps = '''' then persistentExcludeIps
      else transientExcludeIps @ '','' @ persistentExcludeIps)"

definition merge_rebalance :: "es_settings \<Rightarrow> es_settings" where
  "merge_rebalance s =
     (let value = ValueOrZero (GetTransientRebalance s)
      in if value \<noteq> ''''
         then s\<lparr>se_persistent := set_rebalance_enable (StringFromPtr (Some value)) (se_persistent s),
                se_transient := set_rebalance_enable (StringFromPtr None) (se_transient s)\<rparr>
         else s)"

definition merge_exclude_ips :: "es_settings \<Rightarrow> es_settings" where
  "merge_exclude_ips s =
     (let transientIps = ValueOrZero (GetTransientExcludeIPs s);
          persistentIps = ValueOrZero (GetPersistentExcludeIPs s);
          s1 = (if persistentIps = '''' \<and> transientIps \<noteq> ''''
                then s\<lparr>se_persistent := set_exclude_ip (StringFromPtr (Some transientIps)) (se_persistent s)\<rparr>
                else if persistentIps \<noteq> ''''
                then s\<lparr>se_persistent :=
                   set_exclude_ip (StringFrom (deduplicateIPs (mergeExcludeIpStrings transientIps persistentIps)))
                     (se_persistent s)\<rparr>
                else s)
      in s1\<lparr>se_transient := set_exclude_ip (StringFromPtr None) (se_transient s1)\<rparr>)"

definition MergeNonEmptyTransientSettings :: "es_settings \<Rightarrow> es_settings" where
  "MergeNonEmptyTransientSettings s = merge_exclude_ips (merge_rebalance s)"

section \<open>The excluded IPs as a set\<close>

text \<open>The IPs a setting excludes; the empty entries of the list exclude nothing.\<close>

definition ips_of :: "string \<Rightarrow> string set" where
  "ips_of s = {ip \<in> set (split_on CHR '','' s). ip \<noteq> ''''}"

definition excluded_ips :: "null_string \<Rightarrow> string set" where
  "excluded_ips v = ips_of (ValueOrZero v)"

lemma ips_of_Nil [simp]: "ips_of '''' = {}"
  by (auto simp: ips_of_def)

lemma ips_of_join:
  assumes "\<And>w. w \<in> set ws \<Longrightarrow> CHR '','' \<notin> set w"
  shows "ips_of (join_with CHR '','' ws) = set ws - {''''}"
  using assms by (cases "ws = []") (auto simp: ips_of_def split_join)

lemma ips_of_merge: "ips_of (mergeExcludeIpStrings t p) = ips_of t \<union> ips_of p"
  by (auto simp: ips_of_def mergeExcludeIpStrings_def split_on_concat)

lemma dedup_eq:
  "dedup seen acc ips = acc @ dedup seen [] ips"
proof (induction ips arbitrary: seen acc)
  case (Cons ip ips)
  show ?case
    using Cons.IH [of seen acc] Cons.IH [of "insert ip seen" "acc @ [ip]"] Cons.IH [of "insert ip seen" "[ip]"]
    by simp
qed simp

lemma dedup_set: "set (dedup seen [] ips) = set ips - seen"
proof (induction ips arbitrary: seen)
  case (Cons ip ips)
  then show ?case using dedup_eq [of "insert ip seen" "[ip]" ips] by auto
qed simp

lemma dedup_distinct: "distinct (dedup seen [] ips)"
proof (induction ips arbitrary: seen)
  case (Cons ip ips)
  then show ?case using dedup_eq [of "insert ip seen" "[ip]" ips] dedup_set by auto
qed simp

lemma dedup_subseq: "subseq (dedup seen [] ips) ips"
proof (induction ips arbitrary: seen)
  case (Cons ip ips)
  then show ?case using dedup_eq [of "insert ip seen" "[ip]" ips] by auto
qed simp

lemma dedup_id: "distinct ips \<Longrightarrow> set ips \<inter> seen = {} \<Longrightarrow> dedup seen [] ips = ips"
proof (induction ips arbitrary: seen)
  case (Cons ip ips)
  then show ?case using dedup_eq [of "insert ip seen" "[ip]" ips] by auto
qed simp

lemma ips_of_deduplicate: "ips_of (deduplicateIPs s) = ips_of s"
proof (cases "s = ''''")
  case False
  have "set (dedup {} [] (split_on CHR '','' s)) = set (split_on CHR '','' s)" by (simp add: dedup_set)
  moreover from this have "ips_of (join_with CHR '','' (dedup {} [] (split_on CHR '','' s))) =
      set (dedup {} [] (split_on CHR '','' s)) - {''''}"
    by (intro ips_of_join) (auto simp: split_on_no_sep)
  ultimately show ?thesis using False by (auto simp: deduplicateIPs_def ips_of_def)
qed (simp add: deduplicateIPs_def)

lemma deduplicate_split:
  assumes "s \<noteq> ''''"
  shows "split_on CHR '','' (deduplicateIPs s) = dedup {} [] (split_on CHR '','' s)"
proof -
  have "hd (split_on CHR '','' s) \<in> set (dedup {} [] (split_on CHR '','' s))"
    unfolding dedup_set by simp
  then have "dedup {} [] (split_on CHR '','' s) \<noteq> []" by auto
  then show ?thesis
    using assms by (simp add: deduplicateIPs_def) (rule split_join, simp_all add: dedup_set split_on_no_sep)
qed

lemma merge_projections:
  "GetTransientExcludeIPs (merge_rebalance s) = GetTransientExcludeIPs s"
  "GetPersistentExcludeIPs (merge_rebalance s) = GetPersistentExcludeIPs s"
  "GetTransientRebalance (merge_exclude_ips s) = GetTransientRebalance s"
  "GetPersistentRebalance (merge_exclude_ips s) = GetPersistentRebalance s"
  by (auto simp: merge_rebalance_def merge_exclude_ips_def Let_def GetTransientExcludeIPs_def
      GetPersistentExcludeIPs_def GetTransientRebalance_def GetPersistentRebalance_def)

lemma merge_exclude_ips_facts:
  "GetTransientExcludeIPs (merge_exclude_ips s) = StringFromPtr None"
  "excluded_ips (GetPersistentExcludeIPs (merge_exclude_ips s)) =
     excluded_ips (GetTransientExcludeIPs s) \<union> excluded_ips (GetPersistentExcludeIPs s)"
  by (auto simp: merge_exclude_ips_def Let_def GetTransientExcludeIPs_def GetPersistentExcludeIPs_def
      excluded_ips_def ips_of_deduplicate ips_of_merge)

lemma merge_rebalance_facts:
  "ValueOrZero (GetTransientRebalance (merge_rebalance s)) = ''''"
  "ValueOrZero (GetPersistentRebalance (merge_rebalance s)) =
     (if ValueOrZero (GetTransientRebalance s) = '''' then ValueOrZero (GetPersistentRebalance s)
      else ValueOrZero (GetTransientRebalance s))"
  by (auto simp: merge_rebalance_def Let_def GetTransientRebalance_def GetPersistentRebalance_def)

lemma null_exclusion [simp]: "excluded_ips (StringFromPtr None) = {}" "\<not> ns_valid (StringFromPtr None)"
  by (simp_all add: excluded_ips_def) (simp add: StringFromPtr_def NewString_def)

lemma merge_settings_facts:
  "GetTransientExcludeIPs (MergeNonEmptyTransientSettings s) = StringFromPtr None"
  "excluded_ips (GetPersistentExcludeIPs (MergeNonEmptyTransientSettings s)) =
     excluded_ips (GetTransientExcludeIPs s) \<union> excluded_ips (GetPersistentExcludeIPs s)"
  "ValueOrZero (GetTransientRebalance (MergeNonEmptyTransientSettings s)) = ''''"
  "ValueOrZero (GetPersistentRebalance (MergeNonEmptyTransientSettings s)) =
     (if ValueOrZero (GetTransientRebalance s) = '''' then ValueOrZero (GetPersistentRebalance s)
      else ValueOrZero (GetTransientRebalance s))"
  by (simp_all only: MergeNonEmptyTransientSettings_def merge_exclude_ips_facts merge_projections
      merge_rebalance_facts)

section \<open>Properties\<close>

text \<open>
  De-duplicating an exclude list keeps the first occurrence of every entry, in order, and
  nothing else: the entries are distinct, a subsequence of the old ones with the same elements,
  and a list without duplicates is returned as it is.
\<close>

theorem deduplicateIPs_entries:
  "distinct (split_on CHR '','' (deduplicateIPs s)) \<and>
   set (split_on CHR '','' (deduplicateIPs s)) = set (split_on CHR '','' s) \<and>
   subseq (split_on CHR '','' (deduplicateIPs s)) (split_on CHR '','' s) \<and>
   (deduplicateIPs s = s \<longleftrightarrow> distinct (split_on CHR '','' s))"
proof (cases "s = ''''")
  case False
  note sp = deduplicate_split [OF False]
  show ?thesis
  proof (intro conjI iffI)
    show d: "distinct (split_on CHR '','' (deduplicateIPs s))"
      unfolding sp by (rule dedup_distinct)
    show "set (split_on CHR '','' (deduplicateIPs s)) = set (split_on CHR '','' s)"
      unfolding sp dedup_set by simp
    show "subseq (split_on CHR '','' (deduplicateIPs s)) (split_on CHR '','' s)"
      unfolding sp by (rule dedup_subseq)
    show "distinct (split_on CHR '','' s)" if e: "deduplicateIPs s = s"
      using d unfolding e .
    show "deduplicateIPs s = s" if "distinct (split_on CHR '','' s)"
      using that False by (simp add: deduplicateIPs_def dedup_id join_split)
  qed
qed (simp add: deduplicateIPs_def)

text \<open>
  Reading the settings merges the transient ones into the persistent ones and loses no
  excluded IP: afterwards the persistent setting excludes exactly the IPs either of the two
  excluded before, no transient exclusion or rebalance setting is left, a transient rebalance
  value takes over, and merging again changes none of this.
\<close>

theorem merge_settings_complete:
  fixes s defines "m \<equiv> MergeNonEmptyTransientSettings s"
  shows "excluded_ips (GetPersistentExcludeIPs m) =
      excluded_ips (GetTransientExcludeIPs s) \<union> excluded_ips (GetPersistentExcludeIPs s) \<and>
    \<not> ns_valid (GetTransientExcludeIPs m) \<and> ValueOrZero (GetTransientRebalance m) = '''' \<and>
    ValueOrZero (GetPersistentRebalance m) =
      (if ValueOrZero (GetTransientRebalance s) = '''' then ValueOrZero (GetPersistentRebalance s)
       else ValueOrZero (GetTransientRebalance s)) \<and>
    excluded_ips (GetPersistentExcludeIPs (MergeNonEmptyTransientSettings m)) =
      excluded_ips (GetPersistentExcludeIPs m)"
  unfolding m_def merge_settings_facts by simp

end
