(* ===== verification/GoFloat.thy ===== *)
theory GoFloat
  imports Prelude "HOL-Library.Log_Nat"
begin

text \<open>
  Go's float64: IEEE 754 binary64 with round to nearest, ties to even, as the language
  prescribes for +, -, / and conversions. A finite value is the rational it denotes; the
  negative zero, the infinities and NaN are values of their own. The autoscaler computes node
  counts by dividing 32-bit integers in float64 and rounding up; the lemmas at the end say when
  that agrees with exact rational arithmetic.
\<close>

section \<open>Rounding a rational to binary64\<close>

definition ilog2 :: "rat \<Rightarrow> int" where
  "ilog2 r = (let (p, q) = quotient_of r; e = bitlen p - bitlen q
     in if 2 powi e \<le> r then e else e - 1)"

definition round_even :: "rat \<Rightarrow> int" where
  "round_even x = (let n = \<lfloor>x\<rfloor>; d = x - of_int n
     in if d < 1 / 2 then n else if 1 / 2 < d then n + 1 else if even n then n else n + 1)"

text \<open>
  The exponent of the last place: 53 significant bits, and no finer than the subnormals.
\<close>

definition rnd_exp :: "rat \<Rightarrow> int" where
  "rnd_exp r = max (- 1074) (ilog2 \<bar>r\<bar> - 52)"

definition rnd :: "rat \<Rightarrow> rat" where
  "rnd r = (if r = 0 then 0 else of_int (round_even (r / 2 powi rnd_exp r)) * 2 powi rnd_exp r)"

section \<open>Values and operations\<close>

datatype f64 = NaN | Inf bool | NegZero | Fin rat

text \<open>
  \<open>Inf True\<close> is the negative infinity; \<open>Fin 0\<close> is the positive zero. \<open>mk_f64 s r\<close> rounds the
  rational r; s is the sign of a result that is or becomes zero.
\<close>

definition f64_limit :: rat where
  "f64_limit = 2 powi 1024"

definition mk_f64 :: "bool \<Rightarrow> rat \<Rightarrow> f64" where
  "mk_f64 s r = (let v = rnd r
     in if v = 0 then (if s then NegZero else Fin 0)
        else if f64_limit \<le> \<bar>v\<bar> then Inf (v < 0)
        else Fin v)"

definition f64_of_int :: "int \<Rightarrow> f64" where
  "f64_of_int k = mk_f64 False (of_int k)"

fun fsign :: "f64 \<Rightarrow> bool" where
  "fsign NaN = False"
| "fsign (Inf s) = s"
| "fsign NegZero = True"
| "fsign (Fin r) = (r < 0)"

fun fval :: "f64 \<Rightarrow> rat" where
  "fval (Fin r) = r"
| "fval _ = 0"

fun fneg :: "f64 \<Rightarrow> f64" where
  "fneg NaN = NaN"
| "fneg (Inf s) = Inf (\<not> s)"
| "fneg NegZero = Fin 0"
| "fneg (Fin r) = (if r = 0 then NegZero else Fin (- r))"

fun fadd :: "f64 \<Rightarrow> f64 \<Rightarrow> f64" where
  "fadd NaN y = NaN"
| "fadd x NaN = NaN"
| "fadd (Inf s) (Inf t) = (if s = t then Inf s else NaN)"
| "fadd (Inf s) y = Inf s"
| "fadd x (Inf t) = Inf t"
| "fadd NegZero NegZero = NegZero"
| "fadd x y = mk_f64 False (fval x + fval y)"

definition fsub :: "f64 \<Rightarrow> f64 \<Rightarrow> f64" where
  "fsub x y = fadd x (fneg y)"

fun fdiv :: "f64 \<Rightarrow> f64 \<Rightarrow> f64" where
  "fdiv NaN y = NaN"
| "fdiv x NaN = NaN"
| "fdiv (Inf s) (Inf t) = NaN"
| "fdiv (Inf s) y = Inf (s \<noteq> fsign y)"
| "fdiv x (Inf t) = (if fsign x \<noteq> t then NegZero else Fin 0)"
| "fdiv x y =
     (if fval y = 0
      then (if fval x = 0 then NaN else Inf (fsign x \<noteq> fsign y))
      else mk_f64 (fsign x \<noteq> fsign y) (fval x / fval y))"

fun flt :: "f64 \<Rightarrow> f64 \<Rightarrow> bool" where
  "flt NaN y = False"
| "flt x NaN = False"
| "flt (Inf s) (Inf t) = (s \<and> \<not> t)"
| "flt (Inf s) y = s"
| "flt x (Inf t) = (\<not> t)"
| "flt x y = (fval x < fval y)"

definition is_nan :: "f64 \<Rightarrow> bool" where
  "is_nan x \<longleftrightarrow> x = NaN"

definition fle :: "f64 \<Rightarrow> f64 \<Rightarrow> bool" where
  "fle x y \<longleftrightarrow> \<not> is_nan x \<and> \<not> is_nan y \<and> \<not> flt y x"

text \<open>\<open>math.Ceil\<close>, \<open>math.Floor\<close>, \<open>math.Max\<close> and \<open>math.Min\<close> with their special cases.\<close>

fun fceil :: "f64 \<Rightarrow> f64" where
  "fceil (Fin r) = (if - 1 < r \<and> r < 0 then NegZero else Fin (of_int \<lceil>r\<rceil>))"
| "fceil x = x"

fun ffloor :: "f64 \<Rightarrow> f64" where
  "ffloor (Fin r) = Fin (of_int \<lfloor>r\<rfloor>)"
| "ffloor x = x"

definition is_zero :: "f64 \<Rightarrow> bool" where
  "is_zero x \<longleftrightarrow> x = NegZero \<or> x = Fin 0"

definition fmax :: "f64 \<Rightarrow> f64 \<Rightarrow> f64" where
  "fmax x y =
     (if x = Inf False \<or> y = Inf False then Inf False
      else if is_nan x \<or> is_nan y then NaN
      else if is_zero x \<and> is_zero y then (if fsign x then y else x)
      else if flt y x then x else y)"

definition fmin :: "f64 \<Rightarrow> f64 \<Rightarrow> f64" where
  "fmin x y =
     (if x = Inf True \<or> y = Inf True then Inf True
      else if is_nan x \<or> is_nan y then NaN
      else if is_zero x \<and> is_zero y then (if fsign x then x else y)
      else if flt x y then x else y)"

text \<open>
  Conversion to an integer type discards the fraction. The language leaves the result open when
  the value is not representable (amd64 and arm64 differ): that case is the parameter \<open>cv\<close>.
\<close>

definition trunc_rat :: "rat \<Rightarrow> int" where
  "trunc_rat r = (if 0 \<le> r then \<lfloor>r\<rfloor> else \<lceil>r\<rceil>)"

fun f64_to_int32 :: "(f64 \<Rightarrow> int32) \<Rightarrow> f64 \<Rightarrow> int32" where
  "f64_to_int32 cv NegZero = 0"
| "f64_to_int32 cv (Fin r) =
     (let k = trunc_rat r
      in if - 2147483648 \<le> k \<and> k < 2147483648 then word_of_int k else cv (Fin r))"
| "f64_to_int32 cv x = cv x"

fun f64_to_int64 :: "(f64 \<Rightarrow> int64) \<Rightarrow> f64 \<Rightarrow> int64" where
  "f64_to_int64 cv NegZero = 0"
| "f64_to_int64 cv (Fin r) =
     (let k = trunc_rat r
      in if - 9223372036854775808 \<le> k \<and> k < 9223372036854775808 then word_of_int k
         else cv (Fin r))"
| "f64_to_int64 cv x = cv x"

section \<open>Facts about rounding\<close>

lemma bitlen_powi:
  assumes "0 < (p::int)"
  shows "2 powi (bitlen p - 1) \<le> (of_int p :: rat)" "(of_int p :: rat) < 2 powi bitlen p"
proof -
  have b: "2 ^ nat (bitlen p - 1) \<le> p" "p < 2 ^ nat (bitlen p)"
    using bitlen_bounds [OF assms] by auto
  have g: "0 \<le> bitlen p - 1" using assms bitlen_ge_iff_power [of 1 p] by simp
  from b(1) have "(of_int (2 ^ nat (bitlen p - 1)) :: rat) \<le> of_int p" by (simp only: of_int_le_iff)
  then show "2 powi (bitlen p - 1) \<le> (of_int p :: rat)" using g by (simp add: power_int_def)
  from b(2) have "(of_int p :: rat) < of_int (2 ^ nat (bitlen p))" by (simp only: of_int_less_iff)
  then show "(of_int p :: rat) < 2 powi bitlen p" using g by (simp add: power_int_def)
qed

lemma powi_pos [simp]: "0 < (2::rat) powi e"
  by (simp add: zero_less_power_int)

lemma powi_Suc: "(2::rat) powi (e + 1) = 2 * 2 powi e"
  by (simp add: power_int_add)

lemma ilog2_bounds:
  assumes "0 < r"
  shows "2 powi ilog2 r \<le> r" "r < 2 powi (ilog2 r + 1)"
proof -
  obtain p q where pq: "quotient_of r = (p, q)" by fastforce
  have q: "0 < q" using quotient_of_denom_pos [OF pq] .
  have r: "r = of_int p / of_int q" using quotient_of_div [OF pq] .
  have p: "0 < p" using assms q r by (simp add: zero_less_divide_iff)
  let ?e = "bitlen p - bitlen q"
  have up: "r < 2 powi (?e + 1)"
  proof -
    have "r < 2 powi bitlen p / 2 powi (bitlen q - 1)"
      unfolding r by (rule frac_less) (use p q bitlen_powi in auto)
    then show ?thesis by (simp add: power_int_diff power_int_add)
  qed
  have lo: "2 powi (?e - 1) \<le> r"
  proof -
    have "2 powi (bitlen p - 1) / 2 powi bitlen q \<le> r"
      unfolding r by (rule frac_le) (use p q bitlen_powi in \<open>auto intro: less_imp_le\<close>)
    then show ?thesis by (simp add: power_int_diff power_int_add)
  qed
  show "2 powi ilog2 r \<le> r" using lo by (auto simp: ilog2_def pq Let_def)
  show "r < 2 powi (ilog2 r + 1)" using up by (auto simp: ilog2_def pq Let_def)
qed

lemma round_even_error: "\<bar>of_int (round_even x) - x\<bar> \<le> 1 / 2"
proof -
  have key: "\<bar>of_int (if x - of_int n < 1 / 2 then n else if 1 / 2 < x - of_int n then n + 1
      else if even n then n else n + 1) - x\<bar> \<le> 1 / 2"
    if "of_int n \<le> x" "x < of_int n + 1" for n
    using that by (auto simp: abs_if)
  show ?thesis unfolding round_even_def Let_def by (rule key) (use floor_correct [of x] in auto)
qed

lemma round_even_of_int [simp]: "round_even (of_int k) = k"
  by (simp add: round_even_def)

lemma rnd_0 [simp]: "rnd 0 = 0"
  by (simp add: rnd_def)

lemma rnd_error:
  assumes "2 powi (- 1022) \<le> \<bar>r\<bar>"
  shows "\<bar>rnd r - r\<bar> \<le> \<bar>r\<bar> / 2 ^ 53"
proof -
  have r: "0 < \<bar>r\<bar>" using assms powi_pos [of "- 1022"] by linarith
  let ?l = "ilog2 \<bar>r\<bar>" and ?e = "rnd_exp r"
  have lt: "(2::rat) powi (- 1022) < 2 powi (?l + 1)"
    using assms ilog2_bounds(2) [OF r] by linarith
  have "- 1022 < ?l + 1"
  proof (rule ccontr)
    assume "\<not> - 1022 < ?l + 1"
    then have "(2::rat) powi (?l + 1) \<le> 2 powi (- 1022)" by (intro power_int_increasing) auto
    with lt show False by linarith
  qed
  then have e: "?e = ?l - 52" by (simp add: rnd_exp_def)
  let ?x = "r / 2 powi ?e"
  have "rnd r - r = (of_int (round_even ?x) - ?x) * 2 powi ?e"
    using r by (simp add: rnd_def field_simps)
  then have "\<bar>rnd r - r\<bar> = \<bar>of_int (round_even ?x) - ?x\<bar> * 2 powi ?e"
    by (simp add: abs_mult)
  also have "\<dots> \<le> 1 / 2 * 2 powi ?e"
    by (rule mult_right_mono [OF round_even_error]) simp
  also have "\<dots> = 2 powi ?l / 2 ^ 53" by (simp add: e power_int_diff)
  also have "\<dots> \<le> \<bar>r\<bar> / 2 ^ 53"
    by (rule divide_right_mono) (auto simp: ilog2_bounds(1) [OF r])
  finally show ?thesis .
qed


lemma rnd_of_int:
  assumes "\<bar>k\<bar> < 2 ^ 53"
  shows "rnd (of_int k) = of_int k"
proof (cases "k = 0")
  case False
  let ?r = "of_int k :: rat"
  have r: "0 < \<bar>?r\<bar>" using False by simp
  let ?l = "ilog2 \<bar>?r\<bar>"
  have "\<bar>?r\<bar> < of_int (2 ^ 53)" using assms by (metis of_int_abs of_int_less_iff)
  then have "2 powi ?l < (2::rat) powi 53" using ilog2_bounds(1) [OF r] by simp
  then have l: "?l \<le> 52" using power_int_increasing [of 53 ?l "2::rat"] by force
  let ?m = "nat (- rnd_exp ?r)"
  have e: "rnd_exp ?r \<le> 0" using l by (simp add: rnd_exp_def)
  then have p: "(2::rat) powi rnd_exp ?r = 1 / 2 ^ ?m" by (simp add: power_int_def field_simps)
  have x: "?r / (1 / 2 ^ ?m) = of_int (k * 2 ^ ?m)" by simp
  have "rnd ?r = of_int (round_even (?r / 2 powi rnd_exp ?r)) * 2 powi rnd_exp ?r"
    using False by (simp add: rnd_def)
  also have "\<dots> = of_int (k * 2 ^ ?m) * (1 / 2 ^ ?m)" by (simp only: p x round_even_of_int)
  also have "\<dots> = ?r" by simp
  finally show ?thesis .
qed simp

lemma rnd_minus_pos_iff:
  assumes "2 powi (- 1022) \<le> \<bar>r\<bar>"
  shows "0 < rnd r \<longleftrightarrow> 0 < r" "rnd r < 0 \<longleftrightarrow> r < 0" "rnd r \<noteq> 0"
proof -
  have r: "0 < \<bar>r\<bar>" using assms powi_pos [of "- 1022"] by linarith
  have "\<bar>r\<bar> / 2 ^ 53 < \<bar>r\<bar>" using r by (simp add: field_simps)
  with rnd_error [OF assms] have "\<bar>rnd r - r\<bar> < \<bar>r\<bar>" by linarith
  then show "0 < rnd r \<longleftrightarrow> 0 < r" "rnd r < 0 \<longleftrightarrow> r < 0" "rnd r \<noteq> 0"
    by linarith+
qed

section \<open>Quotients of 32-bit integers\<close>

text \<open>
  Two integers of at most 32 bits are far enough apart, as quotients, that rounding moves no
  quotient onto or across an integer: comparing a rounded quotient with an integer, rounding it
  up and rounding it down are exact.
\<close>

definition i50 :: "int \<Rightarrow> bool" where
  "i50 k \<longleftrightarrow> \<bar>k\<bar> < 2 ^ 50"

lemma i50_D: "i50 k \<Longrightarrow> \<bar>k\<bar> < 2 ^ 50" "i50 k \<Longrightarrow> \<bar>k\<bar> < 2 ^ 53" "i50 k \<Longrightarrow> k \<le> 2 ^ 62"
  by (auto simp: i50_def)

lemma i50_numeral [simp]: "i50 0" "i50 1" "i50 (- 1)"
  by (simp_all add: i50_def)

lemma i50_le: "i50 m \<Longrightarrow> \<bar>k\<bar> \<le> \<bar>m\<bar> \<Longrightarrow> i50 k"
  by (simp add: i50_def)

lemma i50_sint32 [simp]: "i50 (sint (w :: int32))"
  using sint32_lower [of w] sint32_upper [of w] by (simp add: i50_def)

lemma quot_normal:
  assumes "a \<noteq> 0" "0 < b" "b \<le> 2 ^ 62"
  shows "2 powi (- 1022) \<le> \<bar>of_int a / of_int b :: rat\<bar>"
proof -
  have "(2::rat) powi (- 1022) \<le> 2 powi (- 62)" by (rule power_int_increasing) auto
  also have "\<dots> = 1 / 2 ^ 62" by (simp add: power_int_minus field_simps)
  also have "\<dots> \<le> 1 / of_int b"
    using assms(2,3) by (intro divide_left_mono) (simp_all add: of_int_le_numeral_power_cancel_iff)
  also have "\<dots> \<le> \<bar>of_int a\<bar> / of_int b"
    using assms(1,2) by (intro divide_right_mono) simp_all
  finally show ?thesis using assms(2) by (simp add: abs_divide)
qed

lemma rnd_quot_error:
  assumes "0 < b" "b \<le> 2 ^ 62"
  shows "\<bar>rnd (of_int a / of_int b) - of_int a / of_int b\<bar> \<le> \<bar>of_int a / of_int b\<bar> / 2 ^ 53"
proof (cases "a = 0")
  case False
  show ?thesis by (rule rnd_error) (rule quot_normal [OF False assms])
qed simp

lemma rnd_quot_less:
  assumes b: "0 < b" "b \<le> 2 ^ 62" and a: "\<bar>a\<bar> < 2 ^ 50" and k: "\<bar>k\<bar> < 2 ^ 53"
    and lt: "a < k * b"
  shows "rnd (of_int a / of_int b) < of_int k"
proof -
  let ?r = "of_int a / of_int b :: rat"
  have bq: "0 < (of_int b :: rat)" using b by simp
  have "of_int a + 1 \<le> (of_int k * of_int b :: rat)"
    using lt by (metis of_int_1 of_int_add of_int_le_iff of_int_mult zless_imp_add1_zle)
  then have gap: "?r + 1 / of_int b \<le> of_int k" using bq by (simp add: field_simps)
  have "of_int \<bar>a\<bar> < (2 ^ 53 :: rat)"
    using a by (simp add: of_int_less_numeral_power_cancel_iff)
  then have "\<bar>?r\<bar> / 2 ^ 53 < 1 / of_int b" using bq by (simp add: abs_divide field_simps)
  with rnd_quot_error [OF b, of a] gap show ?thesis by (simp add: abs_le_iff)
qed


lemma rnd_quot_greater:
  assumes b: "0 < b" "b \<le> 2 ^ 62" and a: "\<bar>a\<bar> < 2 ^ 50" and gt: "k * b < a"
  shows "of_int k < rnd (of_int a / of_int b)"
proof -
  let ?r = "of_int a / of_int b :: rat"
  have bq: "0 < (of_int b :: rat)" using b by simp
  have "of_int k * of_int b + 1 \<le> (of_int a :: rat)"
    using gt by (metis of_int_1 of_int_add of_int_le_iff of_int_mult zless_imp_add1_zle)
  then have "of_int k \<le> (of_int a - 1) / (of_int b :: rat)" using bq by (simp add: pos_le_divide_eq)
  then have gap: "of_int k + 1 / of_int b \<le> ?r" by (simp add: diff_divide_distrib)
  have "of_int \<bar>a\<bar> < (2 ^ 53 :: rat)"
    using a by (simp add: of_int_less_numeral_power_cancel_iff)
  then have "\<bar>?r\<bar> / 2 ^ 53 < 1 / of_int b" using bq by (simp add: abs_divide field_simps)
  with rnd_quot_error [OF b, of a] gap show ?thesis by (simp add: abs_le_iff)
qed

lemma rnd_quot_eq:
  assumes "0 < b" "a = k * b" "\<bar>k\<bar> < 2 ^ 53"
  shows "rnd (of_int a / of_int b) = of_int k"
  using assms by (simp add: rnd_of_int)

lemma rnd_quot_le_iff:
  assumes "0 < b" "i50 b" "i50 a" "i50 k"
  shows "rnd (of_int a / of_int b) \<le> of_int k \<longleftrightarrow> a \<le> k * b"
  using rnd_quot_less [of b a k] rnd_quot_greater [of b a k] rnd_quot_eq [of b a k]
    assms(1) i50_D(1,2,3) [OF assms(2)] i50_D(1,2,3) [OF assms(3)] i50_D(1,2,3) [OF assms(4)]
  by (cases a "k * b" rule: linorder_cases) auto

lemma rnd_quot_ge_iff:
  assumes "0 < b" "i50 b" "i50 a" "i50 k"
  shows "of_int k \<le> rnd (of_int a / of_int b) \<longleftrightarrow> k * b \<le> a"
  using rnd_quot_less [of b a k] rnd_quot_greater [of b a k] rnd_quot_eq [of b a k]
    assms(1) i50_D(1,2,3) [OF assms(2)] i50_D(1,2,3) [OF assms(3)] i50_D(1,2,3) [OF assms(4)]
  by (cases a "k * b" rule: linorder_cases) auto

text \<open>Rounding up in integers: \<open>ceil_quot a b\<close> is the least integer not below a / b.\<close>

definition ceil_quot :: "int \<Rightarrow> int \<Rightarrow> int" where
  "ceil_quot a b = - ((- a) div b)"

lemma ceil_quot_ceiling: "ceil_quot a b = \<lceil>of_int a / of_int b :: rat\<rceil>"
proof -
  have "(- a) div b = \<lfloor>of_int (- a) / of_int b :: rat\<rfloor>" by (simp only: floor_divide_of_int_eq)
  then show ?thesis by (simp add: ceil_quot_def ceiling_def)
qed

lemma ceil_quot_le_iff: "0 < b \<Longrightarrow> ceil_quot a b \<le> k \<longleftrightarrow> a \<le> k * b"
proof -
  assume b: "0 < b"
  then have "ceil_quot a b \<le> k \<longleftrightarrow> (of_int a :: rat) \<le> of_int (k * b)"
    by (simp add: ceil_quot_ceiling ceiling_le_iff pos_divide_le_eq)
  then show ?thesis by (simp only: of_int_le_iff)
qed

lemma less_ceil_quot_iff: "0 < b \<Longrightarrow> k < ceil_quot a b \<longleftrightarrow> k * b < a"
  using ceil_quot_le_iff [of b a k] by linarith

lemma ceil_quot_abs:
  assumes "0 < b" "\<bar>a\<bar> \<le> m"
  shows "\<bar>ceil_quot a b\<bar> \<le> m"
proof -
  have "ceil_quot a b \<le> m"
    unfolding ceil_quot_le_iff [OF assms(1)]
    using assms mult_left_mono [of 1 b m] by linarith
  moreover have "- m - 1 < ceil_quot a b"
    unfolding less_ceil_quot_iff [OF assms(1)]
    using assms mult_left_mono [of 1 b "m + 1"] by (simp add: algebra_simps)
  ultimately show ?thesis by linarith
qed

lemma div_abs:
  assumes "0 < b" "\<bar>a\<bar> \<le> m"
  shows "\<bar>a div b\<bar> \<le> (m :: int)"
  using ceil_quot_abs [of b "- a" m] assms by (simp add: ceil_quot_def)

lemma i50_ceil_quot: "0 < b \<Longrightarrow> i50 a \<Longrightarrow> i50 (ceil_quot a b)"
  using ceil_quot_abs [of b a "\<bar>a\<bar>"] by (auto intro: i50_le)

lemma ceil_quot_nonneg: "0 < b \<Longrightarrow> 0 \<le> a \<Longrightarrow> 0 \<le> ceil_quot a b"
  using less_ceil_quot_iff [of b "- 1" a] by linarith

lemma ceil_quot_le_self: "0 < b \<Longrightarrow> 0 \<le> a \<Longrightarrow> ceil_quot a b \<le> a"
  using ceil_quot_abs [of b a a] by simp

lemma ceil_quot_pos: "0 < b \<Longrightarrow> 0 < a \<Longrightarrow> 0 < ceil_quot a b"
  using less_ceil_quot_iff [of b 0 a] by simp

lemma ceiling_rnd_quot:
  assumes "0 < b" "i50 b" "i50 a"
  shows "\<lceil>rnd (of_int a / of_int b)\<rceil> = ceil_quot a b"
proof (rule ceiling_unique)
  let ?z = "ceil_quot a b"
  have z: "i50 ?z" using assms by (intro i50_ceil_quot)
  show "rnd (of_int a / of_int b) \<le> of_int ?z"
    unfolding rnd_quot_le_iff [OF assms z] using ceil_quot_le_iff [OF assms(1), of a ?z] by simp
  have "(?z - 1) * b < a" using less_ceil_quot_iff [OF assms(1), of "?z - 1" a] by simp
  then show "of_int ?z - 1 < rnd (of_int a / of_int b)"
    using rnd_quot_greater [of b a "?z - 1"] assms(1) i50_D [OF assms(2)] i50_D [OF assms(3)]
    by simp
qed

section \<open>Float division on integers\<close>

lemma mk_f64_Fin: "rnd r \<noteq> 0 \<Longrightarrow> \<bar>rnd r\<bar> < f64_limit \<Longrightarrow> mk_f64 s r = Fin (rnd r)"
  by (simp add: mk_f64_def Let_def)

lemma int_below_limit:
  assumes "\<bar>k\<bar> < (2::int) ^ 53"
  shows "\<bar>of_int k :: rat\<bar> < f64_limit"
proof -
  have "\<bar>of_int k :: rat\<bar> < of_int (2 ^ 53)" using assms by (metis of_int_abs of_int_less_iff)
  also have "\<dots> = (2::rat) powi 53" by simp
  also have "\<dots> \<le> f64_limit" unfolding f64_limit_def by (rule power_int_increasing) auto
  finally show ?thesis .
qed

lemma f64_of_int [simp]: "i50 k \<Longrightarrow> f64_of_int k = Fin (of_int k)"
  using int_below_limit [of k] i50_D(2) [of k]
  by (simp add: f64_of_int_def mk_f64_def rnd_of_int Let_def)

lemma fdiv_ints [simp]:
  assumes "0 < b" "i50 b" "i50 a"
  shows "fdiv (Fin (of_int a)) (Fin (of_int b)) = Fin (rnd (of_int a / of_int b))"
proof (cases "a = 0")
  case True
  with assms show ?thesis by (simp add: mk_f64_def)
next
  case False
  let ?r = "of_int a / of_int b :: rat"
  have nz: "rnd ?r \<noteq> 0"
    by (rule rnd_minus_pos_iff) (rule quot_normal [OF False assms(1) i50_D(3) [OF assms(2)]])
  have m: "i50 \<bar>a\<bar>" "i50 (- \<bar>a\<bar>)" "\<bar>a\<bar> * 1 \<le> \<bar>a\<bar> * b"
    using assms mult_left_mono [of 1 b "\<bar>a\<bar>"] by (auto simp: i50_def)
  then have le: "rnd ?r \<le> of_int \<bar>a\<bar>"
    unfolding rnd_quot_le_iff [OF assms m(1)] using abs_ge_self [of a] by linarith
  have ge: "of_int (- \<bar>a\<bar>) \<le> rnd ?r"
    unfolding rnd_quot_ge_iff [OF assms m(2)] using m(3) abs_ge_minus_self [of a] by simp
  have "\<bar>rnd ?r\<bar> \<le> of_int \<bar>a\<bar>" using le ge by (simp add: abs_le_iff)
  also have "\<dots> < f64_limit" using int_below_limit [OF i50_D(2) [OF m(1)]] by simp
  finally show ?thesis using nz assms(1) by (simp add: mk_f64_Fin)
qed

lemma f64_to_int32_int:
  "- 2147483648 \<le> k \<Longrightarrow> k < 2147483648 \<Longrightarrow> f64_to_int32 cv (Fin (of_int k)) = word_of_int k"
  by (simp add: trunc_rat_def Let_def)

text \<open>
  The operations are used through the lemmas above, not unfolded.
\<close>

declare fdiv.simps [simp del] fadd.simps [simp del] f64_to_int32.simps [simp del]

end
