(* ===== verification/EsTypes.thy ===== *)
theory EsTypes
  imports GoFloat
begin

text \<open>
  The public data of operator/es_client.go: an index, a shard and a node as the _cat endpoints
  report them, after conversion.
\<close>

record es_index =
  ix_index :: string
  ix_primaries :: int32
  ix_replicas :: int32

record es_shard =
  sh_ip :: string
  sh_index :: string

record es_node =
  nn_ip :: string
  nn_disk_used_percent :: f64

end
