(* ===== verification/EdsTypes.thy ===== *)
theory EdsTypes
  imports Prelude "HOL-Library.AList"
begin

text \<open>
  The custom resources of pkg/apis/zalando.org/v1/types.go and the parts of the Kubernetes
  objects the operator reads or writes. A Go pointer is an option; a Go map is an optional
  association list, None being the nil map: reading a nil map finds nothing, assigning to one
  panics. Times are nanoseconds on an unbounded line, durations are 64-bit nanoseconds. Payloads
  the operator only copies (pod specs, claim specs) are opaque strings.
\<close>

section \<open>Maps and object metadata\<close>

type_synonym gomap = "(string \<times> string) list option"
type_synonym time = int
type_synonym duration = int64
type_synonym payload = string

definition map_get :: "gomap \<Rightarrow> string \<Rightarrow> string option" where
  "map_get m k = (case m of None \<Rightarrow> None | Some kvs \<Rightarrow> map_of kvs k)"

definition map_set :: "gomap \<Rightarrow> string \<Rightarrow> string \<Rightarrow> ('e, gomap) outcome" where
  "map_set m k v = (case m of None \<Rightarrow> Panic | Some kvs \<Rightarrow> Ok (Some (AList.update k v kvs)))"

definition map_delete :: "gomap \<Rightarrow> string \<Rightarrow> gomap" where
  "map_delete m k = map_option (AList.delete k) m"

definition map_entries :: "gomap \<Rightarrow> (string \<times> string) list" where
  "map_entries m = (case m of None \<Rightarrow> [] | Some kvs \<Rightarrow> kvs)"

definition wf_map :: "gomap \<Rightarrow> bool" where
  "wf_map m \<longleftrightarrow> distinct (map fst (map_entries m))"

record owner_reference =
  or_api_version :: string
  or_kind :: string
  or_name :: string
  or_uid :: string

record object_meta =
  om_name :: string
  om_namespace :: string
  om_uid :: string
  om_generation :: int64
  om_labels :: gomap
  om_annotations :: gomap
  om_owners :: "owner_reference list"

section \<open>The ElasticsearchDataSet\<close>

record eds_scaling =
  sc_enabled :: bool
  sc_min_replicas :: int32
  sc_max_replicas :: int32
  sc_min_index_replicas :: int32
  sc_max_index_replicas :: int32
  sc_min_shards_per_node :: int32
  sc_max_shards_per_node :: int32
  sc_up_cpu_boundary :: int32
  sc_up_threshold_seconds :: int64
  sc_up_cooldown_seconds :: int64
  sc_down_cpu_boundary :: int32
  sc_down_threshold_seconds :: int64
  sc_down_cooldown_seconds :: int64
  sc_disk_watermark :: int32

record eds_draining =
  dr_max_retries :: int32
  dr_min_wait_seconds :: int64
  dr_max_wait_seconds :: int64

record experimental_spec =
  ex_draining :: "eds_draining option"

record embedded_meta =
  em_labels :: gomap
  em_annotations :: gomap

record pod_template =
  pt_meta :: embedded_meta
  pt_spec :: payload

record volume_claim =
  vc_name :: string
  vc_labels :: gomap
  vc_annotations :: gomap
  vc_spec :: payload

record eds_spec =
  sp_replicas :: "int32 option"
  sp_exclude_system_indices :: bool
  sp_skip_draining :: bool
  sp_template :: pod_template
  sp_scaling :: "eds_scaling option"
  sp_volume_claims :: "volume_claim list"
  sp_experimental :: "experimental_spec option"

record eds_status =
  ss_observed_generation :: "int64 option"
  ss_replicas :: int32
  ss_last_up_started :: "time option"
  ss_last_up_ended :: "time option"
  ss_last_down_started :: "time option"
  ss_last_down_ended :: "time option"

record eds =
  eds_api_version :: string
  eds_kind :: string
  eds_meta :: object_meta
  eds_spec :: eds_spec
  eds_status :: eds_status

record metric =
  mt_timestamp :: time
  mt_value :: int32

record metric_set =
  ms_meta :: object_meta
  ms_metrics :: "metric list"

section \<open>Kubernetes objects\<close>

record container =
  ct_name :: string
  ct_cpu_request_milli :: int64

datatype pod_phase = PodPending | PodOtherPhase

record pod =
  pod_name :: string
  pod_generate_name :: string
  pod_namespace :: string
  pod_uid :: string
  pod_labels :: gomap
  pod_annotations :: gomap
  pod_node_name :: string
  pod_phase :: pod_phase
  pod_ip :: string
  pod_grace_seconds :: "int64 option"
  pod_containers :: "container list"

record node =
  nd_name :: string
  nd_labels :: gomap
  nd_unschedulable :: bool

section \<open>Facts about maps\<close>

lemma map_get_None [simp]: "map_get None k = None"
  by (simp add: map_get_def)

lemma map_get_delete: "wf_map m \<Longrightarrow> map_get (map_delete m k) k' = (if k = k' then None else map_get m k')"
  by (cases m) (auto simp: map_get_def map_delete_def delete_conv')

lemma map_set_get:
  "map_set m k v = Ok m' \<Longrightarrow> map_get m' k' = (if k' = k then Some v else map_get m k')"
  by (cases m) (auto simp: map_get_def map_set_def update_conv')

lemma map_set_Panic_iff [simp]: "map_set m k v = Panic \<longleftrightarrow> m = None"
  by (cases m) (auto simp: map_set_def)

lemma map_set_not_Err [simp]: "map_set m k v \<noteq> Err e"
  by (cases m) (auto simp: map_set_def)

lemma map_get_entries: "wf_map m \<Longrightarrow> map_get m k = Some v \<longleftrightarrow> (k, v) \<in> set (map_entries m)"
  by (cases m) (auto simp: map_get_def map_entries_def wf_map_def map_of_eq_Some_iff)

lemma wf_map_set: "wf_map m \<Longrightarrow> map_set m k v = Ok m' \<Longrightarrow> wf_map m'"
  by (cases m) (auto simp: wf_map_def map_entries_def map_set_def distinct_update)

lemma wf_map_delete: "wf_map m \<Longrightarrow> wf_map (map_delete m k)"
  by (cases m) (auto simp: wf_map_def map_entries_def map_delete_def distinct_delete)

end
