(* ===== verification/Io.thy ===== *)
theory Io
  imports EsSettings EsTypes EdsTypes
begin

text \<open>
  The effects of the operator: calls to the Elasticsearch and the Kubernetes API. A handler runs
  against a world that answers every call, knowing the calls made so far; it returns an outcome
  and appends its calls, with their answers, to a trace. Nothing is assumed of the world, so a
  theorem for all worlds covers every behaviour of the two services and of everybody else who
  uses them. At the end, a logic for properties of the trace.
\<close>

section \<open>Errors and answers\<close>

text \<open>
  The errors the code makes; \<open>Failed\<close> is \<open>fmt.Errorf\<close> with a prefix and a wrapped error,
  \<open>Permanent\<close> the wrapper of the backoff package.
\<close>

datatype error =
    Transport string
  | CodeStatus nat
  | BadJson
  | NotGreen string
  | NotANumber string
  | KubeError string
  | KubeNotFound
  | NotOwned string string string
  | RefusedReplicas int32
  | NotTerminated
  | NotReady int32 int32
  | UnknownReplicas
  | Permanent error
  | Failed string error
  | InvalidScaling string

text \<open>
  An HTTP request fails, or is answered with a status and a body; the body stands for the value
  \<open>json.Unmarshal\<close> reads from it, None when that fails.
\<close>

datatype 'a http = NoResponse string | Response (status: nat) (body: "'a option")

type_synonym 'a answer = "error + 'a"

record raw_index =
  ri_index :: string
  ri_primaries :: string
  ri_replicas :: string

record raw_node =
  rn_ip :: string
  rn_disk_used_percent :: string

section \<open>Kubernetes objects the operator writes\<close>

record statefulset =
  st_name :: string
  st_namespace :: string
  st_labels :: gomap
  st_annotations :: gomap
  st_owners :: "owner_reference list"
  st_replicas :: "int32 option"
  st_template :: pod_template
  st_selector :: gomap
  st_service_name :: string
  st_pod_management_policy :: string
  st_update_strategy :: string
  st_volume_claims :: "volume_claim list"
  st_update_revision :: string
  st_ready_replicas :: int32

record pdb =
  pb_name :: string
  pb_namespace :: string
  pb_labels :: gomap
  pb_owners :: "owner_reference list"
  pb_max_unavailable :: "int option"
  pb_selector :: gomap

record service =
  sv_name :: string
  sv_namespace :: string
  sv_labels :: gomap
  sv_owners :: "owner_reference list"
  sv_type :: string
  sv_selector :: gomap
  sv_ports :: "(string \<times> int) list"

section \<open>Events\<close>

datatype event =
    Health "string http"
  | GetSettings "es_settings http"
  | PutSettings es_settings "unit http"
  | CatShards "es_shard list http"
  | CatNodes "raw_node list http"
  | CatIndices "raw_index list http"
  | PutReplicas string int32 "unit http"
  | PutIndex string string int64 int64 "unit http"
  | RemoveIndex string "unit http"
  | ContextDone bool
  | Now time
  | GetEds string string "eds answer"
  | UpdateEds eds "eds answer"
  | UpdateEdsStatus eds "eds answer"
  | ListEds string "eds list answer"
  | ListMetricSets string "metric_set list answer"
  | CreateMetricSet metric_set "unit answer"
  | UpdateMetricSet metric_set "unit answer"
  | ListPodMetrics string "(string \<times> (string \<times> int64) list) list answer"
  | GetSts string string "statefulset answer"
  | CreateSts statefulset "statefulset answer"
  | UpdateSts statefulset "statefulset answer"
  | ListPods string gomap "pod list answer"
  | ListNodes "node list answer"
  | GetPod string string "pod answer"
  | PatchPod string string string string "unit answer"
  | DeletePod string string "int64 option" "unit answer"
  | GetPdb string string "pdb answer"
  | CreatePdb pdb "unit answer"
  | GetService string string "service answer"
  | CreateService service "unit answer"

type_synonym trace = "event list"

record world =
  w_health :: "trace \<Rightarrow> string http"
  w_get_settings :: "trace \<Rightarrow> es_settings http"
  w_put_settings :: "trace \<Rightarrow> es_settings \<Rightarrow> unit http"
  w_shards :: "trace \<Rightarrow> es_shard list http"
  w_nodes :: "trace \<Rightarrow> raw_node list http"
  w_indices :: "trace \<Rightarrow> raw_index list http"
  w_put_replicas :: "trace \<Rightarrow> string \<Rightarrow> int32 \<Rightarrow> unit http"
  w_put_index :: "trace \<Rightarrow> string \<Rightarrow> string \<Rightarrow> int64 \<Rightarrow> int64 \<Rightarrow> unit http"
  w_remove_index :: "trace \<Rightarrow> string \<Rightarrow> unit http"
  w_context_done :: "trace \<Rightarrow> bool"
  w_now :: "trace \<Rightarrow> time"
  w_get_eds :: "trace \<Rightarrow> string \<Rightarrow> string \<Rightarrow> eds answer"
  w_update_eds :: "trace \<Rightarrow> eds \<Rightarrow> eds answer"
  w_update_eds_status :: "trace \<Rightarrow> eds \<Rightarrow> eds answer"
  w_list_eds :: "trace \<Rightarrow> string \<Rightarrow> eds list answer"
  w_list_metric_sets :: "trace \<Rightarrow> string \<Rightarrow> metric_set list answer"
  w_create_metric_set :: "trace \<Rightarrow> metric_set \<Rightarrow> unit answer"
  w_update_metric_set :: "trace \<Rightarrow> metric_set \<Rightarrow> unit answer"
  w_list_pod_metrics :: "trace \<Rightarrow> string \<Rightarrow> (string \<times> (string \<times> int64) list) list answer"
  w_get_sts :: "trace \<Rightarrow> string \<Rightarrow> string \<Rightarrow> statefulset answer"
  w_create_sts :: "trace \<Rightarrow> statefulset \<Rightarrow> statefulset answer"
  w_update_sts :: "trace \<Rightarrow> statefulset \<Rightarrow> statefulset answer"
  w_list_pods :: "trace \<Rightarrow> string \<Rightarrow> gomap \<Rightarrow> pod list answer"
  w_list_nodes :: "trace \<Rightarrow> node list answer"
  w_get_pod :: "trace \<Rightarrow> string \<Rightarrow> string \<Rightarrow> pod answer"
  w_patch_pod :: "trace \<Rightarrow> string \<Rightarrow> string \<Rightarrow> string \<Rightarrow> string \<Rightarrow> unit answer"
  w_delete_pod :: "trace \<Rightarrow> string \<Rightarrow> string \<Rightarrow> int64 option \<Rightarrow> unit answer"
  w_get_pdb :: "trace \<Rightarrow> string \<Rightarrow> string \<Rightarrow> pdb answer"
  w_create_pdb :: "trace \<Rightarrow> pdb \<Rightarrow> unit answer"
  w_get_service :: "trace \<Rightarrow> string \<Rightarrow> string \<Rightarrow> service answer"
  w_create_service :: "trace \<Rightarrow> service \<Rightarrow> unit answer"

section \<open>Handlers\<close>

type_synonym 'a io = "world \<Rightarrow> trace \<Rightarrow> (error, 'a) outcome \<times> trace"

definition io_return :: "'a \<Rightarrow> 'a io" where
  "io_return a = (\<lambda>w tr. (Ok a, tr))"

definition io_fail :: "error \<Rightarrow> 'a io" where
  "io_fail e = (\<lambda>w tr. (Err e, tr))"

definition io_lift :: "(error, 'a) outcome \<Rightarrow> 'a io" where
  "io_lift r = (\<lambda>w tr. (r, tr))"

definition io_bind :: "'a io \<Rightarrow> ('a \<Rightarrow> 'b io) \<Rightarrow> 'b io" where
  "io_bind m f = (\<lambda>w tr. case m w tr of
       (Ok a, tr') \<Rightarrow> f a w tr'
     | (Err e, tr') \<Rightarrow> (Err e, tr')
     | (Panic, tr') \<Rightarrow> (Panic, tr'))"

text \<open>The error of a call as a value, for code that looks at it; a panic is not caught.\<close>

definition io_try :: "'a io \<Rightarrow> (error + 'a) io" where
  "io_try m = (\<lambda>w tr. case m w tr of
       (Ok a, tr') \<Rightarrow> (Ok (Inr a), tr')
     | (Err e, tr') \<Rightarrow> (Ok (Inl e), tr')
     | (Panic, tr') \<Rightarrow> (Panic, tr'))"

definition io_call :: "(world \<Rightarrow> trace \<Rightarrow> 'r) \<Rightarrow> ('r \<Rightarrow> event) \<Rightarrow> 'r io" where
  "io_call f ev = (\<lambda>w tr. let r = f w tr in (Ok r, tr @ [ev r]))"

definition io_answer :: "'a answer \<Rightarrow> 'a io" where
  "io_answer r = (case r of Inl e \<Rightarrow> io_fail e | Inr a \<Rightarrow> io_return a)"

text \<open>An error wrapped as \<open>fmt.Errorf\<close> does.\<close>

definition io_wrap :: "string \<Rightarrow> 'a io \<Rightarrow> 'a io" where
  "io_wrap what m = (\<lambda>w tr. case m w tr of (Err e, tr') \<Rightarrow> (Err (Failed what e), tr') | r \<Rightarrow> r)"

text \<open>A loop over a slice that stops at the first error.\<close>

fun io_for :: "'a list \<Rightarrow> ('a \<Rightarrow> unit io) \<Rightarrow> unit io" where
  "io_for [] f = io_return ()"
| "io_for (x # xs) f = io_bind (f x) (\<lambda>_. io_for xs f)"

section \<open>Assertions on the trace\<close>

text \<open>
  From a trace with P, the handler returns a value a and a trace with Q a, or fails with a trace
  in E.
\<close>

fun holds :: "('a \<Rightarrow> trace \<Rightarrow> bool) \<Rightarrow> (trace \<Rightarrow> bool) \<Rightarrow> (error, 'a) outcome \<times> trace \<Rightarrow> bool" where
  "holds Q E (Ok a, tr) = Q a tr"
| "holds Q E (Err e, tr) = E tr"
| "holds Q E (Panic, tr) = E tr"

definition valid :: "(trace \<Rightarrow> bool) \<Rightarrow> 'a io \<Rightarrow> ('a \<Rightarrow> trace \<Rightarrow> bool) \<Rightarrow> (trace \<Rightarrow> bool) \<Rightarrow> bool" where
  "valid P m Q E \<longleftrightarrow> (\<forall>w tr. P tr \<longrightarrow> holds Q E (m w tr))"

named_theorems io_rules \<open>rules of the trace logic, applied backwards\<close>

lemma result_cases:
  obtains (Ok) a tr' where "p = (Ok a, tr')" | (Err) e tr' where "p = (Err e, tr')"
  | (Panic) tr' where "p = (Panic, tr')"
  by (cases p, cases "fst p") auto

lemma validI: "(\<And>w tr. P tr \<Longrightarrow> holds Q E (m w tr)) \<Longrightarrow> valid P m Q E"
  by (simp add: valid_def)

lemma validD: "valid P m Q E \<Longrightarrow> P tr \<Longrightarrow> holds Q E (m w tr)"
  by (simp add: valid_def)

lemma validD_Ok: "valid P m Q E \<Longrightarrow> P tr \<Longrightarrow> m w tr = (Ok a, tr') \<Longrightarrow> Q a tr'"
  using validD [of P m Q E tr w] by simp

lemma validD_any: "valid P m (\<lambda>_. E) E \<Longrightarrow> P tr \<Longrightarrow> E (snd (m w tr))"
  using validD [of P m "\<lambda>_. E" E tr w] by (cases "m w tr" rule: result_cases) auto

lemma holds_weaken:
  "holds Q E p \<Longrightarrow> (\<And>a tr. Q a tr \<Longrightarrow> Q' a tr) \<Longrightarrow> (\<And>tr. E tr \<Longrightarrow> E' tr) \<Longrightarrow> holds Q' E' p"
  by (cases p rule: result_cases) auto

lemma valid_weaken:
  "valid P m Q E \<Longrightarrow> (\<And>tr. P' tr \<Longrightarrow> P tr) \<Longrightarrow> (\<And>a tr. Q a tr \<Longrightarrow> Q' a tr) \<Longrightarrow> (\<And>tr. E tr \<Longrightarrow> E' tr) \<Longrightarrow>
   valid P' m Q' E'"
  unfolding valid_def by (blast intro: holds_weaken)

lemma valid_pre: "valid P m Q E \<Longrightarrow> (\<And>tr. P' tr \<Longrightarrow> P tr) \<Longrightarrow> valid P' m Q E"
  by (rule valid_weaken)

lemma valid_return [io_rules]: "(\<And>tr. P tr \<Longrightarrow> Q a tr) \<Longrightarrow> valid P (io_return a) Q E"
  by (simp add: valid_def io_return_def)

lemma valid_fail [io_rules]: "(\<And>tr. P tr \<Longrightarrow> E tr) \<Longrightarrow> valid P (io_fail e) Q E"
  by (simp add: valid_def io_fail_def)

lemma valid_lift [io_rules]:
  "(\<And>tr a. P tr \<Longrightarrow> r = Ok a \<Longrightarrow> Q a tr) \<Longrightarrow> (\<And>tr. P tr \<Longrightarrow> E tr) \<Longrightarrow> valid P (io_lift r) Q E"
  by (cases r) (auto simp: valid_def io_lift_def)

lemma valid_bind [io_rules]:
  assumes "valid P m R E" "\<And>a. valid (R a) (f a) Q E"
  shows "valid P (io_bind m f) Q E"
proof (rule validI)
  fix w tr assume "P tr"
  with assms(1) have "holds R E (m w tr)" by (rule validD)
  then show "holds Q E (io_bind m f w tr)"
    using validD [OF assms(2)] by (cases "m w tr" rule: result_cases) (auto simp: io_bind_def)
qed

lemma valid_call [io_rules]:
  "(\<And>tr r. P tr \<Longrightarrow> Q r (tr @ [ev r])) \<Longrightarrow> valid P (io_call f ev) Q E"
  by (simp add: valid_def io_call_def Let_def)

lemma valid_answer [io_rules]:
  "(\<And>tr a. P tr \<Longrightarrow> r = Inr a \<Longrightarrow> Q a tr) \<Longrightarrow> (\<And>tr. P tr \<Longrightarrow> E tr) \<Longrightarrow> valid P (io_answer r) Q E"
  by (cases r) (auto simp: valid_def io_answer_def io_fail_def io_return_def)

lemma valid_wrap [io_rules]:
  assumes "valid P m Q E" shows "valid P (io_wrap s m) Q E"
proof (rule validI)
  fix w tr assume "P tr"
  from validD [OF assms this, of w] show "holds Q E (io_wrap s m w tr)"
    by (cases "m w tr" rule: result_cases) (auto simp: io_wrap_def)
qed

lemma valid_try:
  assumes "valid P m (\<lambda>a. Q (Inr a)) (\<lambda>tr. E tr \<and> (\<forall>e. Q (Inl e) tr))"
  shows "valid P (io_try m) Q E"
proof (rule validI)
  fix w tr assume "P tr"
  from validD [OF assms this, of w] show "holds Q E (io_try m w tr)"
    by (cases "m w tr" rule: result_cases) (auto simp: io_try_def)
qed

lemma valid_if [io_rules]:
  "(c \<Longrightarrow> valid P m Q E) \<Longrightarrow> (\<not> c \<Longrightarrow> valid P m' Q E) \<Longrightarrow> valid P (if c then m else m') Q E"
  by simp

lemma valid_for:
  "(\<And>x. x \<in> set xs \<Longrightarrow> valid I (f x) (\<lambda>_. I) E) \<Longrightarrow> (\<And>tr. I tr \<Longrightarrow> E tr) \<Longrightarrow>
   valid I (io_for xs f) (\<lambda>_. I) E"
  by (induction xs) (auto intro!: valid_bind valid_return)

section \<open>Handlers that only add events of a kind\<close>

text \<open>
  \<open>emits K m\<close>: m extends the trace, by events in K only, however it ends.
\<close>

definition adds :: "(event \<Rightarrow> bool) \<Rightarrow> trace \<Rightarrow> trace \<Rightarrow> bool" where
  "adds K tr tr' \<longleftrightarrow> (\<exists>es. tr' = tr @ es \<and> (\<forall>e \<in> set es. K e))"

definition emits :: "(event \<Rightarrow> bool) \<Rightarrow> 'a io \<Rightarrow> bool" where
  "emits K m \<longleftrightarrow> (\<forall>w tr. adds K tr (snd (m w tr)))"

named_theorems emits_intros \<open>which events a handler adds\<close>

lemma adds_refl [simp]: "adds K tr tr"
  by (simp add: adds_def)

lemma adds_snoc [simp]: "K e \<Longrightarrow> adds K tr (tr @ [e])"
  by (auto simp: adds_def)

lemma adds_trans: "adds K t1 t2 \<Longrightarrow> adds K t2 t3 \<Longrightarrow> adds K t1 t3"
  unfolding adds_def by force

lemma adds_mono: "adds K t t' \<Longrightarrow> (\<And>e. K e \<Longrightarrow> L e) \<Longrightarrow> adds L t t'"
  unfolding adds_def by blast

lemma emits_mono: "emits K m \<Longrightarrow> (\<And>e. K e \<Longrightarrow> L e) \<Longrightarrow> emits L m"
  unfolding emits_def by (blast intro: adds_mono)

lemma emits_return [emits_intros]: "emits K (io_return a)"
  by (simp add: emits_def io_return_def)

lemma emits_fail [emits_intros]: "emits K (io_fail e)"
  by (simp add: emits_def io_fail_def)

lemma emits_lift [emits_intros]: "emits K (io_lift r)"
  by (simp add: emits_def io_lift_def)

lemma emits_answer [emits_intros]: "emits K (io_answer r)"
  by (cases r) (simp_all add: io_answer_def emits_return emits_fail)

lemma emits_call [emits_intros]: "(\<And>r. K (ev r)) \<Longrightarrow> emits K (io_call f ev)"
  by (simp add: emits_def io_call_def Let_def)

lemma emits_bind [emits_intros]:
  assumes "emits K m" "\<And>a. emits K (f a)"
  shows "emits K (io_bind m f)"
  unfolding emits_def
proof (intro allI)
  fix w tr
  have "adds K tr (snd (m w tr))" using assms(1) by (simp add: emits_def)
  then show "adds K tr (snd (io_bind m f w tr))"
    using assms(2) by (cases "m w tr" rule: result_cases) (auto simp: io_bind_def emits_def intro: adds_trans)
qed

lemma emits_wrap [emits_intros]: "emits K m \<Longrightarrow> emits K (io_wrap s m)"
  unfolding emits_def io_wrap_def
proof (intro allI)
  fix w tr assume "\<forall>w tr. adds K tr (snd (m w tr))"
  then have "adds K tr (snd (m w tr))" by blast
  then show "adds K tr (snd (case m w tr of (Err e, tr') \<Rightarrow> (Err (Failed s e), tr') | r \<Rightarrow> r))"
    by (cases "m w tr" rule: result_cases) auto
qed

lemma emits_try [emits_intros]: "emits K m \<Longrightarrow> emits K (io_try m)"
  unfolding emits_def io_try_def
proof (intro allI)
  fix w tr assume "\<forall>w tr. adds K tr (snd (m w tr))"
  then have "adds K tr (snd (m w tr))" by blast
  then show "adds K tr (snd (case m w tr of (Ok a, tr') \<Rightarrow> (Ok (Inr a), tr')
      | (Err e, tr') \<Rightarrow> (Ok (Inl e), tr') | (Panic, tr') \<Rightarrow> (Panic, tr')))"
    by (cases "m w tr" rule: result_cases) auto
qed

lemma emits_if [emits_intros]: "(c \<Longrightarrow> emits K m) \<Longrightarrow> (\<not> c \<Longrightarrow> emits K m') \<Longrightarrow> emits K (if c then m else m')"
  by simp

lemma emits_for [emits_intros]: "(\<And>x. x \<in> set xs \<Longrightarrow> emits K (f x)) \<Longrightarrow> emits K (io_for xs f)"
  by (induction xs) (auto intro!: emits_intros)

lemma emits_http [emits_intros]:
  "(\<And>e. emits K (f e)) \<Longrightarrow> (\<And>st b. emits K (g st b)) \<Longrightarrow>
   emits K (case r of NoResponse e \<Rightarrow> f e | Response st b \<Rightarrow> g st b)"
  by (cases r) auto

lemma emits_option [emits_intros]:
  "emits K f \<Longrightarrow> (\<And>a. emits K (g a)) \<Longrightarrow> emits K (case r of None \<Rightarrow> f | Some a \<Rightarrow> g a)"
  by (cases r) auto

lemma emits_sum [emits_intros]:
  "(\<And>e. emits K (f e)) \<Longrightarrow> (\<And>a. emits K (g a)) \<Longrightarrow> emits K (case r of Inl e \<Rightarrow> f e | Inr a \<Rightarrow> g a)"
  by (cases r) auto

lemma emits_let [emits_intros]: "emits K (f a) \<Longrightarrow> emits K (let x = a in f x)"
  by simp

lemma valid_option [io_rules]:
  "(r = None \<Longrightarrow> valid P f Q E) \<Longrightarrow> (\<And>a. r = Some a \<Longrightarrow> valid P (g a) Q E) \<Longrightarrow>
   valid P (case r of None \<Rightarrow> f | Some a \<Rightarrow> g a) Q E"
  by (cases r) auto

lemma valid_sum [io_rules]:
  "(\<And>e. r = Inl e \<Longrightarrow> valid P (f e) Q E) \<Longrightarrow> (\<And>a. r = Inr a \<Longrightarrow> valid P (g a) Q E) \<Longrightarrow>
   valid P (case r of Inl e \<Rightarrow> f e | Inr a \<Rightarrow> g a) Q E"
  by (cases r) auto

text \<open>An assertion that the events of a handler cannot break is kept by it.\<close>

lemma valid_emits:
  assumes "emits K m" "\<And>tr tr'. I tr \<Longrightarrow> adds K tr tr' \<Longrightarrow> I tr'"
  shows "valid I m (\<lambda>_. I) I"
proof (rule validI)
  fix w tr assume "I tr"
  then have "I (snd (m w tr))" using assms by (auto simp: emits_def)
  then show "holds (\<lambda>_. I) I (m w tr)" by (cases "m w tr" rule: result_cases) auto
qed

section \<open>What a handler returns\<close>

text \<open>
  \<open>returns P m\<close>: a value m returns satisfies P. Together with the events of m it gives the events
  of a handler that goes on with the value.
\<close>

definition returns :: "('a \<Rightarrow> bool) \<Rightarrow> 'a io \<Rightarrow> bool" where
  "returns P m \<longleftrightarrow> (\<forall>w tr a tr'. m w tr = (Ok a, tr') \<longrightarrow> P a)"

lemma returnsD: "returns P m \<Longrightarrow> m w tr = (Ok a, tr') \<Longrightarrow> P a"
  unfolding returns_def by blast

lemma returns_wrap: "returns P m \<Longrightarrow> returns P (io_wrap s m)"
  unfolding returns_def
proof (intro allI impI)
  fix w tr a tr'
  assume P: "\<forall>w tr a tr'. m w tr = (Ok a, tr') \<longrightarrow> P a" and m: "io_wrap s m w tr = (Ok a, tr')"
  show "P a"
    using m P by (cases "m w tr" rule: result_cases) (auto simp: io_wrap_def)
qed

lemma bind_Ok_cases:
  assumes "io_bind m f w tr = (Ok b, tr')"
  obtains a t where "m w tr = (Ok a, t)" "f a w t = (Ok b, tr')"
  using assms by (cases "m w tr" rule: result_cases) (auto simp: io_bind_def)

lemma returns_bind:
  assumes "\<And>a. P a \<Longrightarrow> returns Q (f a)" "returns P m"
  shows "returns Q (io_bind m f)"
  unfolding returns_def
proof (intro allI impI)
  fix w tr b tr' assume "io_bind m f w tr = (Ok b, tr')"
  then obtain a t where m: "m w tr = (Ok a, t)" "f a w t = (Ok b, tr')" by (rule bind_Ok_cases)
  from returnsD [OF assms(1) m(2)] returnsD [OF assms(2) m(1)] show "Q b" by blast
qed

lemma returns_return: "P a \<Longrightarrow> returns P (io_return a)"
  by (simp add: returns_def io_return_def)

lemma emits_bind_returns:
  assumes "emits K m" "returns P m" "\<And>a. P a \<Longrightarrow> emits K (f a)"
  shows "emits K (io_bind m f)"
  unfolding emits_def
proof (intro allI)
  fix w tr
  have m: "adds K tr (snd (m w tr))" using assms(1) by (simp add: emits_def)
  show "adds K tr (snd (io_bind m f w tr))"
  proof (cases "m w tr" rule: result_cases)
    case (Ok a t)
    have "emits K (f a)" using assms(3) returnsD [OF assms(2) Ok] .
    then have "adds K t (snd (f a w t))" by (simp add: emits_def)
    with m show ?thesis using adds_trans [of K tr t] by (simp add: Ok io_bind_def)
  qed (use m in \<open>simp_all add: io_bind_def\<close>)
qed

lemma valid_bind_returns:
  assumes "valid P m R E" "returns V m" "\<And>a. V a \<Longrightarrow> valid (R a) (f a) Q E"
  shows "valid P (io_bind m f) Q E"
proof (rule validI)
  fix w tr assume "P tr"
  with assms(1) have h: "holds R E (m w tr)" by (rule validD)
  show "holds Q E (io_bind m f w tr)"
  proof (cases "m w tr" rule: result_cases)
    case (Ok a t)
    with h validD [OF assms(3) [OF returnsD [OF assms(2) Ok]]] show ?thesis by (simp add: io_bind_def)
  qed (use h in \<open>simp_all add: io_bind_def\<close>)
qed

end
