(* ===== verification/GoSort.thy ===== *)
theory GoSort
  imports Prelude
begin

text \<open>
  Go's \<open>sort.Slice\<close>. Its contract is the locale \<open>slice_sort\<close>: a permutation of the slice that
  is ordered whenever the comparison is a strict weak order; it does not promise stability. The
  operator's lemmas about sorted slices are proved from that contract alone. The model's
  \<open>sort_slice\<close> is the insertion sort the package runs on slices of at most twelve elements.
\<close>

section \<open>The contract\<close>

definition strict_weak :: "('a \<Rightarrow> 'a \<Rightarrow> bool) \<Rightarrow> bool" where
  "strict_weak lt \<longleftrightarrow> (\<forall>x y. lt x y \<longrightarrow> \<not> lt y x) \<and>
     (\<forall>x y z. lt x z \<longrightarrow> lt x y \<or> lt y z)"

definition slice_sorted :: "('a \<Rightarrow> 'a \<Rightarrow> bool) \<Rightarrow> 'a list \<Rightarrow> bool" where
  "slice_sorted lt xs \<longleftrightarrow> sorted_wrt (\<lambda>x y. \<not> lt y x) xs"

lemma strict_weak_asym: "strict_weak lt \<Longrightarrow> lt x y \<Longrightarrow> \<not> lt y x"
  by (auto simp: strict_weak_def)

lemma strict_weak_irrefl: "strict_weak lt \<Longrightarrow> \<not> lt x x"
  by (auto simp: strict_weak_def)

lemma strict_weak_trans_not:
  "strict_weak lt \<Longrightarrow> \<not> lt y x \<Longrightarrow> \<not> lt z y \<Longrightarrow> \<not> lt z x"
  unfolding strict_weak_def by blast

lemma strict_weak_linorder [simp, intro]: "strict_weak ((<) :: 'a::linorder \<Rightarrow> 'a \<Rightarrow> bool)"
  by (auto simp: strict_weak_def)

lemma strict_weak_key: "strict_weak (\<lambda>x y. f x < (f y :: 'b::linorder))"
  by (auto simp: strict_weak_def)

locale slice_sort =
  fixes srt :: "('a \<Rightarrow> 'a \<Rightarrow> bool) \<Rightarrow> 'a list \<Rightarrow> 'a list"
  assumes mset_srt: "mset (srt lt xs) = mset xs"
    and sorted_srt: "strict_weak lt \<Longrightarrow> slice_sorted lt (srt lt xs)"
begin

lemma set_srt: "set (srt lt xs) = set xs"
  using mset_srt [of lt xs] by (metis set_mset_mset)

lemma length_srt: "length (srt lt xs) = length xs"
  using mset_srt [of lt xs] by (metis size_mset)

lemma srt_eq_Nil: "srt lt xs = [] \<longleftrightarrow> xs = []"
  using length_srt [of lt xs] by (metis length_0_conv)

lemma distinct_srt: "distinct (srt lt xs) \<longleftrightarrow> distinct xs"
  using mset_srt [of lt xs] by (metis mset_eq_imp_distinct_iff)

lemma hd_minimal:
  assumes "strict_weak lt" "srt lt xs = y # ys" "z \<in> set xs"
  shows "\<not> lt z y"
proof -
  have "slice_sorted lt (y # ys)" using sorted_srt [OF assms(1), of xs] assms(2) by simp
  moreover have "z = y \<or> z \<in> set ys" using assms(2,3) set_srt [of lt xs] by auto
  ultimately show ?thesis
    using strict_weak_irrefl [OF assms(1)] by (auto simp: slice_sorted_def)
qed

end

text \<open>
  On a linear order the contract determines the result: it is the library's \<open>sort\<close>, whatever
  the algorithm.
\<close>

locale linorder_slice_sort = slice_sort srt
  for srt :: "('a::linorder \<Rightarrow> 'a \<Rightarrow> bool) \<Rightarrow> 'a list \<Rightarrow> 'a list"
begin

lemma srt_less: "srt (<) xs = sort xs"
proof (rule properties_for_sort [symmetric])
  show "mset (srt (<) xs) = mset xs" by (rule mset_srt)
  have "sorted_wrt (\<lambda>x y. \<not> y < x) (srt (<) xs)"
    using sorted_srt [OF strict_weak_linorder, of xs] by (simp add: slice_sorted_def)
  then show "sorted (srt (<) xs)"
    by (simp add: sorted_wrt_mono_rel [of _ "\<lambda>x y. \<not> y < x"] not_less)
qed

end

section \<open>Insertion sort\<close>

text \<open>The prefix that is already sorted is kept reversed: its last element comes first.\<close>

fun insert_back :: "('a \<Rightarrow> 'a \<Rightarrow> bool) \<Rightarrow> 'a \<Rightarrow> 'a list \<Rightarrow> 'a list" where
  "insert_back lt x [] = [x]"
| "insert_back lt x (y # ys) = (if lt x y then y # insert_back lt x ys else x # y # ys)"

definition sort_slice :: "('a \<Rightarrow> 'a \<Rightarrow> bool) \<Rightarrow> 'a list \<Rightarrow> 'a list" where
  "sort_slice lt xs = rev (foldl (\<lambda>acc x. insert_back lt x acc) [] xs)"

lemma mset_insert_back: "mset (insert_back lt x ys) = add_mset x (mset ys)"
  by (induction ys) auto

lemma mset_insert_backs:
  "mset (foldl (\<lambda>acc x. insert_back lt x acc) acc xs) = mset acc + mset xs"
  by (induction xs arbitrary: acc) (auto simp: mset_insert_back)

lemma set_insert_back: "set (insert_back lt x ys) = insert x (set ys)"
  by (induction ys) auto

lemma sorted_insert_back:
  assumes "strict_weak lt"
  shows "sorted_wrt (\<lambda>x y. \<not> lt x y) ys \<Longrightarrow> sorted_wrt (\<lambda>x y. \<not> lt x y) (insert_back lt x ys)"
proof (induction ys)
  case (Cons y ys)
  show ?case
  proof (cases "lt x y")
    case True
    with Cons assms show ?thesis by (auto simp: set_insert_back dest: strict_weak_asym)
  next
    case False
    with Cons.prems have "\<not> lt x z" if "z \<in> set ys" for z
      using that strict_weak_trans_not [OF assms, of y z x] by auto
    with False Cons.prems show ?thesis by simp
  qed
qed simp

lemma sorted_insert_backs:
  assumes "strict_weak lt"
  shows "sorted_wrt (\<lambda>x y. \<not> lt x y) acc \<Longrightarrow>
    sorted_wrt (\<lambda>x y. \<not> lt x y) (foldl (\<lambda>acc x. insert_back lt x acc) acc xs)"
  by (induction xs arbitrary: acc) (auto simp: sorted_insert_back [OF assms])

interpretation go_sort: slice_sort sort_slice
  by unfold_locales
    (auto simp: sort_slice_def mset_insert_backs slice_sorted_def sorted_wrt_rev sorted_insert_backs)

interpretation go_sort_linorder: linorder_slice_sort sort_slice
  by unfold_locales

end
