(* ===== verification/Pods.thy ===== *)
theory Pods
  imports Io GoSort
begin

text \<open>
  The pure parts of operator/operator.go that look at pods and nodes: the ordinal of a pod, the
  order in which pods are removed, the pods that need an update and their priorities, the
  selection of nodes, and ownership.
\<close>

section \<open>Ordinals\<close>

definition draining_key :: string where
  "draining_key = ''operator.zalando.org/draining''"

definition parent_generation_key :: string where
  "parent_generation_key = ''operator.zalando.org/parent-generation''"

definition revision_hash_key :: string where
  "revision_hash_key = ''controller-revision-hash''"

definition pod_ordinal :: "pod \<Rightarrow> (error, int64) outcome" where
  "pod_ordinal p =
     (let ordinal = trim_prefix (pod_name p) (pod_generate_name p)
      in case atoi ordinal of None \<Rightarrow> Err (NotANumber ordinal) | Some n \<Rightarrow> Ok n)"

fun number_pods :: "pod list \<Rightarrow> (error, (int64 \<times> pod) list) outcome" where
  "number_pods [] = Ok []"
| "number_pods (p # ps) =
     bind_outcome (pod_ordinal p) (\<lambda>n. bind_outcome (number_pods ps) (\<lambda>nps. Ok ((n, p) # nps)))"

definition sortStatefulSetPods :: "pod list \<Rightarrow> (error, pod list) outcome" where
  "sortStatefulSetPods pods =
     bind_outcome (number_pods pods) (\<lambda>ordinalNumbers.
       Ok (map snd (sort_slice (\<lambda>a b. sint (fst a) < sint (fst b)) ordinalNumbers)))"

section \<open>Nodes\<close>

definition isSubset :: "gomap \<Rightarrow> gomap \<Rightarrow> bool" where
  "isSubset subSet superSet =
     (if map_entries superSet = [] then True
      else list_all (\<lambda>(k, v). map_get superSet k = Some v) (map_entries subSet))"

definition add_node :: "gomap \<Rightarrow> (string \<times> node) list \<times> (string \<times> node) list \<Rightarrow> node \<Rightarrow>
    (string \<times> node) list \<times> (string \<times> node) list" where
  "add_node selectors maps n =
     (case maps of (prio, unsched) \<Rightarrow>
        (if map_entries (nd_labels n) \<noteq> [] \<and> isSubset selectors (nd_labels n)
         then AList.update (nd_name n) n prio else prio,
         if nd_unschedulable n then AList.update (nd_name n) n unsched else unsched))"

definition getNodes :: "gomap \<Rightarrow> node list \<Rightarrow> (string \<times> node) list \<times> (string \<times> node) list" where
  "getNodes selectors nodes = foldl (add_node selectors) ([], []) nodes"

section \<open>Priorities\<close>

record update_priority =
  up_pod :: pod
  up_priority :: int
  up_number :: int64

abbreviation (input) podDrainingPriority :: int where "podDrainingPriority \<equiv> 16"
abbreviation (input) unschedulableNodePriority :: int where "unschedulableNodePriority \<equiv> 8"
abbreviation (input) nodeSelectorPriority :: int where "nodeSelectorPriority \<equiv> 4"
abbreviation (input) podOldRevisionPriority :: int where "podOldRevisionPriority \<equiv> 2"
abbreviation (input) stsReplicaDiffPriority :: int where "stsReplicaDiffPriority \<equiv> 1"

definition prioToName :: "int \<Rightarrow> string" where
  "prioToName priority =
     (if priority = podDrainingPriority then ''PodDraining''
      else if priority = unschedulableNodePriority then ''UnschedulableNode''
      else if priority = nodeSelectorPriority then ''NodeSelector''
      else if priority = podOldRevisionPriority then ''PodOldRevision''
      else if priority = stsReplicaDiffPriority then ''STSReplicaDiff''
      else '''')"

definition priorityNames :: "int \<Rightarrow> string list" where
  "priorityNames priority =
     map prioToName (filter (\<lambda>prio. prio \<le> priority)
       [podDrainingPriority, unschedulableNodePriority, nodeSelectorPriority, podOldRevisionPriority,
        stsReplicaDiffPriority])"

definition sts_replicas :: "statefulset \<Rightarrow> int32" where
  "sts_replicas sts = (case st_replicas sts of None \<Rightarrow> 0 | Some n \<Rightarrow> n)"

definition pod_priority ::
  "statefulset \<Rightarrow> int32 option \<Rightarrow> (string \<times> node) list \<Rightarrow> (string \<times> node) list \<Rightarrow> pod \<Rightarrow> int" where
  "pod_priority sts desired priorityNodes unschedulableNodes p =
     (if map_get (pod_annotations p) draining_key \<noteq> None then podDrainingPriority else 0) +
     (if map_of unschedulableNodes (pod_node_name p) \<noteq> None then unschedulableNodePriority else 0) +
     (if map_of priorityNodes (pod_node_name p) = None then nodeSelectorPriority else 0) +
     (case map_get (pod_labels p) revision_hash_key of
        None \<Rightarrow> 0
      | Some hash \<Rightarrow> if st_update_revision sts \<noteq> hash then podOldRevisionPriority else 0) +
     (case desired of None \<Rightarrow> 0
      | Some d \<Rightarrow> if d \<noteq> sts_replicas sts then stsReplicaDiffPriority else 0)"

fun collect_priorities :: "(pod \<Rightarrow> int) \<Rightarrow> pod list \<Rightarrow> (error, update_priority list) outcome" where
  "collect_priorities prio [] = Ok []"
| "collect_priorities prio (p # ps) =
     bind_outcome (pod_ordinal p) (\<lambda>n.
       bind_outcome (collect_priorities prio ps) (\<lambda>ups.
         Ok (if pod_node_name p = '''' then ups
             else \<lparr>up_pod = p, up_priority = prio p, up_number = n\<rparr> # ups)))"

definition before_in_update :: "update_priority \<Rightarrow> update_priority \<Rightarrow> bool" where
  "before_in_update a b \<longleftrightarrow>
     (if up_priority a = up_priority b then sint (up_number a) < sint (up_number b)
      else up_priority b < up_priority a)"

definition prioritizePodsForUpdate ::
  "pod list \<Rightarrow> statefulset \<Rightarrow> int32 option \<Rightarrow> (string \<times> node) list \<Rightarrow> (string \<times> node) list \<Rightarrow>
   (error, pod list) outcome" where
  "prioritizePodsForUpdate pods sts desired priorityNodes unschedulableNodes =
     bind_outcome (collect_priorities (pod_priority sts desired priorityNodes unschedulableNodes) pods)
       (\<lambda>priorities. Ok (map up_pod (filter (\<lambda>p. 1 < up_priority p) (sort_slice before_in_update priorities))))"

section \<open>Ownership\<close>

definition isOwnedReference :: "string \<Rightarrow> string \<Rightarrow> string \<Rightarrow> string \<Rightarrow> owner_reference list \<Rightarrow> bool" where
  "isOwnedReference apiVersion kind uid name refs =
     list_ex (\<lambda>r. or_api_version r = apiVersion \<and> or_kind r = kind \<and> or_uid r = uid \<and> or_name r = name) refs"

end
