(* ===== verification/PodProps.thy ===== *)
theory PodProps
  imports Pods
begin

text \<open>
  What the sorting and prioritising of pods in operator/operator.go guarantees.
\<close>

section \<open>Removal order\<close>

definition ordinal_of :: "pod \<Rightarrow> int" where
  "ordinal_of p = (case pod_ordinal p of Ok n \<Rightarrow> sint n | _ \<Rightarrow> 0)"

definition numbered :: "pod \<Rightarrow> bool" where
  "numbered p \<longleftrightarrow> (\<exists>n. pod_ordinal p = Ok n)"

lemma pod_ordinal_not_panic [simp]: "pod_ordinal p \<noteq> Panic"
  by (simp add: pod_ordinal_def Let_def split: option.splits)

lemma number_pods_Ok:
  "number_pods ps = Ok nps \<Longrightarrow> map snd nps = ps \<and> (\<forall>(n, p) \<in> set nps. pod_ordinal p = Ok n)"
  by (induction ps arbitrary: nps) (auto simp: bind_outcome_Ok_iff)

lemma number_pods_total: "\<forall>p \<in> set ps. numbered p \<Longrightarrow> \<exists>nps. number_pods ps = Ok nps"
  by (induction ps) (auto simp: numbered_def)

lemma number_pods_numbered: "number_pods ps = Ok nps \<Longrightarrow> \<forall>p \<in> set ps. numbered p"
  by (induction ps arbitrary: nps) (auto simp: bind_outcome_Ok_iff numbered_def)

lemma sort_pods_facts:
  assumes "sortStatefulSetPods ps = Ok sorted_ps"
  shows "mset sorted_ps = mset ps" "sorted (map ordinal_of sorted_ps)" "\<forall>p \<in> set ps. numbered p"
proof -
  from assms obtain nps where n: "number_pods ps = Ok nps"
    and s: "sorted_ps = map snd (sort_slice (\<lambda>a b. sint (fst a) < sint (fst b)) nps)"
    by (auto simp: sortStatefulSetPods_def bind_outcome_Ok_iff)
  let ?lt = "\<lambda>a b :: int64 \<times> pod. sint (fst a) < sint (fst b)"
  note f = number_pods_Ok [OF n]
  show "\<forall>p \<in> set ps. numbered p" by (rule number_pods_numbered [OF n])
  have "mset (sort_slice ?lt nps) = mset nps" by (rule go_sort.mset_srt)
  then have "mset sorted_ps = mset (map snd nps)" by (simp add: s)
  with f show "mset sorted_ps = mset ps" by simp
  have "strict_weak ?lt" by (rule strict_weak_key)
  then have "slice_sorted ?lt (sort_slice ?lt nps)" by (rule go_sort.sorted_srt)
  then have "sorted (map (sint \<circ> fst) (sort_slice ?lt nps))"
    by (simp add: slice_sorted_def sorted_map not_less)
  moreover have "map ordinal_of sorted_ps = map (sint \<circ> fst) (sort_slice ?lt nps)"
    using f by (auto simp: s ordinal_of_def go_sort.set_srt)
  ultimately show "sorted (map ordinal_of sorted_ps)" by simp
qed

lemma sort_pods_total:
  "\<forall>p \<in> set ps. numbered p \<Longrightarrow> \<exists>sorted_ps. sortStatefulSetPods ps = Ok sorted_ps"
  using number_pods_total [of ps] by (auto simp: sortStatefulSetPods_def)

lemma sorted_distinct_upto:
  assumes "sorted xs" "distinct xs" "set xs = {0 ..< int (length xs)}"
  shows "xs = map int [0 ..< length xs]"
proof (rule sorted_distinct_set_unique)
  show "set xs = set (map int [0 ..< length xs])"
    unfolding assms(3) by (simp add: image_int_atLeastLessThan)
  show "sorted (map int [0 ..< length xs])" by (simp add: sorted_map)
qed (use assms in \<open>simp_all add: distinct_map\<close>)

lemma in_set_drop_nth: "x \<in> set (drop k xs) \<longleftrightarrow> (\<exists>i < length xs. k \<le> i \<and> x = xs ! i)"
proof
  assume "x \<in> set (drop k xs)"
  then obtain j where "j < length (drop k xs)" "drop k xs ! j = x" by (meson in_set_conv_nth)
  then show "\<exists>i < length xs. k \<le> i \<and> x = xs ! i" by (intro exI [of _ "k + j"]) auto
next
  assume "\<exists>i < length xs. k \<le> i \<and> x = xs ! i"
  then obtain i where "i < length xs" "k \<le> i" "x = xs ! i" by blast
  then have "i - k < length (drop k xs)" "drop k xs ! (i - k) = x" by auto
  then show "x \<in> set (drop k xs)" using nth_mem [of "i - k" "drop k xs"] by simp
qed

text \<open>The pods of a StatefulSet with all of its ordinals present.\<close>

definition complete_pods :: "pod list \<Rightarrow> bool" where
  "complete_pods ps \<longleftrightarrow> (\<forall>p \<in> set ps. numbered p) \<and> distinct (map ordinal_of ps) \<and>
     ordinal_of ` set ps = {0 ..< int (length ps)}"


section \<open>Update order\<close>

lemma before_in_update_order: "strict_weak before_in_update"
proof -
  have "\<not> before_in_update b a" if "before_in_update a b" for a b
    using that by (auto simp: before_in_update_def split: if_splits)
  moreover have "before_in_update a b \<or> before_in_update b c" if "before_in_update a c" for a b c
    using that by (auto simp: before_in_update_def split: if_splits)
  ultimately show ?thesis unfolding strict_weak_def by blast
qed

definition scheduled :: "pod \<Rightarrow> bool" where
  "scheduled p \<longleftrightarrow> pod_node_name p \<noteq> ''''"

definition draining :: "pod \<Rightarrow> bool" where
  "draining p \<longleftrightarrow> map_get (pod_annotations p) draining_key \<noteq> None"

lemma collect_Ok:
  "collect_priorities prio ps = Ok ups \<Longrightarrow>
   up_pod ` set ups = {p \<in> set ps. scheduled p} \<and>
   (\<forall>u \<in> set ups. up_priority u = prio (up_pod u) \<and> sint (up_number u) = ordinal_of (up_pod u))"
proof (induction ps arbitrary: ups)
  case (Cons p ps)
  then obtain n ups' where "pod_ordinal p = Ok n" "collect_priorities prio ps = Ok ups'"
    "ups = (if pod_node_name p = '''' then ups'
       else \<lparr>up_pod = p, up_priority = prio p, up_number = n\<rparr> # ups')"
    by (auto simp: bind_outcome_Ok_iff)
  with Cons.IH [of ups'] show ?case by (auto simp: ordinal_of_def scheduled_def)
qed simp

lemma priority_range:
  "0 \<le> pod_priority sts d pn un p" "draining p \<longleftrightarrow> 16 \<le> pod_priority sts d pn un p"
  by (auto simp: pod_priority_def draining_def split: option.splits)

lemma prioritize_facts:
  assumes "prioritizePodsForUpdate ps sts d pn un = Ok qs"
  shows "set qs = {p \<in> set ps. scheduled p \<and> 1 < pod_priority sts d pn un p}"
    and "qs = q # rest \<Longrightarrow> p \<in> set ps \<Longrightarrow> scheduled p \<Longrightarrow>
      pod_priority sts d pn un p \<le> pod_priority sts d pn un q \<and>
      (pod_priority sts d pn un p = pod_priority sts d pn un q \<longrightarrow> ordinal_of q \<le> ordinal_of p)"
proof -
  let ?prio = "pod_priority sts d pn un"
  from assms obtain ups where c: "collect_priorities ?prio ps = Ok ups"
    and qs: "qs = map up_pod (filter (\<lambda>p. 1 < up_priority p) (sort_slice before_in_update ups))"
    by (auto simp: prioritizePodsForUpdate_def bind_outcome_Ok_iff)
  note f = collect_Ok [OF c]
  have "set qs = {up_pod u | u. u \<in> set ups \<and> 1 < ?prio (up_pod u)}"
    using f by (auto simp: qs go_sort.set_srt)
  also have "\<dots> = {p \<in> up_pod ` set ups. 1 < ?prio p}" by blast
  finally show s: "set qs = {p \<in> set ps. scheduled p \<and> 1 < ?prio p}" using f by auto
  assume q: "qs = q # rest" and p: "p \<in> set ps" "scheduled p"
  have sorted: "slice_sorted before_in_update (sort_slice before_in_update ups)"
    by (rule go_sort.sorted_srt [OF before_in_update_order])
  show "?prio p \<le> ?prio q \<and> (?prio p = ?prio q \<longrightarrow> ordinal_of q \<le> ordinal_of p)"
  proof (cases "1 < ?prio p")
    case True
    from q obtain u us where u: "filter (\<lambda>p. 1 < up_priority p) (sort_slice before_in_update ups) = u # us"
      "up_pod u = q" unfolding qs by (auto simp: map_eq_Cons_conv)
    have "p \<in> up_pod ` set ups" using f p by simp
    then obtain v where v: "v \<in> set ups" "up_pod v = p" by blast
    have "set (u # us) = {x \<in> set ups. 1 < up_priority x}"
      unfolding u(1) [symmetric] by (auto simp: go_sort.set_srt)
    moreover have "sorted_wrt (\<lambda>x y. \<not> before_in_update y x) (u # us)"
      using sorted unfolding slice_sorted_def u(1) [symmetric] by (rule sorted_wrt_filter)
    ultimately have "\<not> before_in_update v u \<or> v = u" "u \<in> set ups" using v True f by auto
    then show ?thesis using f v u(2) by (auto simp: before_in_update_def split: if_splits)
  next
    case False
    moreover have "1 < ?prio q" using s q by auto
    ultimately show ?thesis by auto
  qed
qed

text \<open>
  C22. The pod to update next: it is scheduled on a node and has a reason of its own to be updated,
  no scheduled pod has a higher priority or, at the same priority, a lower ordinal, and a pod that
  is already marked as draining comes before all pods that are not. There is none exactly when no
  scheduled pod has a priority above that of a replica difference alone.
\<close>

theorem next_pod_to_update:
  assumes "prioritizePodsForUpdate ps sts d pn un = Ok qs"
  shows "case qs of
      [] \<Rightarrow> list_all (\<lambda>p. \<not> (scheduled p \<and> 1 < pod_priority sts d pn un p)) ps
    | q # rest \<Rightarrow> q \<in> set ps \<and> scheduled q \<and> 1 < pod_priority sts d pn un q \<and>
        list_all (\<lambda>p. \<not> scheduled p \<or>
          (pod_priority sts d pn un p < pod_priority sts d pn un q \<or>
           pod_priority sts d pn un p = pod_priority sts d pn un q \<and> ordinal_of q \<le> ordinal_of p) \<and>
          (\<not> draining p \<or> draining q)) ps"
proof (cases qs)
  case Nil
  then show ?thesis using prioritize_facts(1) [OF assms] by (auto simp: list_all_iff)
next
  case (Cons q rest)
  then have "q \<in> {p \<in> set ps. scheduled p \<and> 1 < pod_priority sts d pn un p}"
    using prioritize_facts(1) [OF assms] by auto
  moreover have "\<not> scheduled p \<or>
      (pod_priority sts d pn un p < pod_priority sts d pn un q \<or>
       pod_priority sts d pn un p = pod_priority sts d pn un q \<and> ordinal_of q \<le> ordinal_of p) \<and>
      (\<not> draining p \<or> draining q)" if "p \<in> set ps" for p
    using prioritize_facts(2) [OF assms Cons that] priority_range(2) [of p sts d pn un]
      priority_range(2) [of q sts d pn un] by auto
  ultimately show ?thesis by (simp add: Cons list_all_iff)
qed

text \<open>
  The names listed for a priority are not the reasons it is made of: a pod that is only
  marked as draining is reported with all five reasons.
\<close>

theorem priority_names_overstate:
  "priorityNames podDrainingPriority =
     [''PodDraining'', ''UnschedulableNode'', ''NodeSelector'', ''PodOldRevision'', ''STSReplicaDiff'']"
  by (simp add: priorityNames_def prioToName_def)

end
