(* ===== verification/GoParseFloat.thy ===== *)
theory GoParseFloat
  imports GoFloat GoStrings
begin

text \<open>
  \<open>strconv.ParseFloat(s, 64)\<close> on decimal numbers, infinities and NaN; the hexadecimal forms, which
  Elasticsearch does not print, are rejected. A number that rounds to an infinity is a range
  error, which the operator treats like a syntax error.
\<close>

definition is_digit :: "char \<Rightarrow> bool" where
  "is_digit c \<longleftrightarrow> digit_val c \<noteq> None"

definition take_sign :: "string \<Rightarrow> bool \<times> string" where
  "take_sign s = (case s of [] \<Rightarrow> (False, [])
     | c # cs \<Rightarrow> if c = CHR ''-'' then (True, cs) else if c = CHR ''+'' then (False, cs) else (False, s))"

definition parse_exponent :: "string \<Rightarrow> int option" where
  "parse_exponent s =
     (case s of [] \<Rightarrow> Some 0
      | c # cs \<Rightarrow>
          if c = CHR ''e'' \<or> c = CHR ''E''
          then (let (neg, ds) = take_sign cs
                in if ds = [] then None
                   else map_option (\<lambda>n. if neg then - int n else int n) (parse_digits 0 ds))
          else None)"

definition parse_decimal :: "string \<Rightarrow> rat option" where
  "parse_decimal s =
     (let ip = takeWhile is_digit s; r = dropWhile is_digit s;
          (fp, rest) = (case r of [] \<Rightarrow> ([], [])
             | c # cs \<Rightarrow> if c = CHR ''.'' then (takeWhile is_digit cs, dropWhile is_digit cs) else ([], r))
      in if ip @ fp = [] then None
         else case (parse_digits 0 (ip @ fp), parse_exponent rest) of
                (Some m, Some e) \<Rightarrow> Some (of_nat m * 10 powi (e - int (length fp)))
              | _ \<Rightarrow> None)"

definition to_lower :: "char \<Rightarrow> char" where
  "to_lower c = (let n = of_char c in if 65 \<le> n \<and> n \<le> 90 then char_of (n + 32 :: nat) else c)"

definition parse_float :: "string \<Rightarrow> f64 option" where
  "parse_float s =
     (let (neg, rest) = take_sign s; low = map to_lower rest
      in if low = ''inf'' \<or> low = ''infinity'' then Some (Inf neg)
         else if map to_lower s = ''nan'' then Some NaN
         else case parse_decimal rest of
                None \<Rightarrow> None
              | Some r \<Rightarrow> (case mk_f64 neg (if neg then - r else r) of Inf _ \<Rightarrow> None | v \<Rightarrow> Some v))"

lemma parse_float_examples:
  "parse_float '''' = None" "parse_float ''-'' = None" "parse_float ''x'' = None"
  by code_simp+

end
