(* ===== verification/EsClient.thy ===== *)
theory EsClient
  imports Io GoSort GoParseFloat
begin

text \<open>
  operator/es_client.go: the calls to Elasticsearch. The retry loop of the HTTP client (the resty
  package) is a parameter of the functions that use it.
\<close>

section \<open>Requests\<close>

definition decode :: "'a http \<Rightarrow> 'a io" where
  "decode r =
     (case r of
        NoResponse e \<Rightarrow> io_fail (Transport e)
      | Response st b \<Rightarrow>
          if st \<noteq> 200 then io_fail (CodeStatus st)
          else (case b of None \<Rightarrow> io_fail BadJson | Some v \<Rightarrow> io_return v))"

definition expect_ok :: "unit http \<Rightarrow> unit io" where
  "expect_ok r =
     (case r of
        NoResponse e \<Rightarrow> io_fail (Transport e)
      | Response st b \<Rightarrow> if st \<noteq> 200 then io_fail (CodeStatus st) else io_return ())"

definition ensureGreenClusterState :: "unit io" where
  "ensureGreenClusterState =
     io_bind (io_call w_health Health) (\<lambda>r.
       io_bind (decode r) (\<lambda>st.
         if st \<noteq> ''green'' then io_fail (NotGreen st) else io_return ()))"

definition getClusterSettings :: "es_settings io" where
  "getClusterSettings =
     io_bind (io_call w_get_settings GetSettings) (\<lambda>r.
       io_bind (decode r) (\<lambda>s. io_return (MergeNonEmptyTransientSettings s)))"

text \<open>
  The two writers change the settings object of their caller: they return it.
\<close>

definition put_settings :: "es_settings \<Rightarrow> es_settings io" where
  "put_settings s =
     io_bind (io_call (\<lambda>w tr. w_put_settings w tr s) (PutSettings s)) (\<lambda>r.
       io_bind (expect_ok r) (\<lambda>_. io_return s))"

definition setExcludeIPs :: "string \<Rightarrow> es_settings \<Rightarrow> es_settings io" where
  "setExcludeIPs ips originalESSettings = put_settings (updateExcludeIps ips originalESSettings)"

definition updateAutoRebalance :: "string \<Rightarrow> es_settings \<Rightarrow> es_settings io" where
  "updateAutoRebalance value originalESSettings = put_settings (updateRebalance value originalESSettings)"

section \<open>Draining\<close>

definition exclude_list :: "es_settings \<Rightarrow> string list" where
  "exclude_list s =
     (let excludeString = ValueOrZero (GetPersistentExcludeIPs s)
      in if excludeString \<noteq> '''' then split_on CHR '','' excludeString else [])"

definition excludePodIP :: "pod \<Rightarrow> unit io" where
  "excludePodIP pd =
     io_bind getClusterSettings (\<lambda>esSettings.
       let ips = exclude_list esSettings
       in if pod_ip pd \<in> set ips then io_return ()
          else io_bind (setExcludeIPs (join_with CHR '','' (sort_slice (<) (ips @ [pod_ip pd]))) esSettings)
                 (\<lambda>_. io_return ()))"

record draining_config =
  dc_max_retries :: int64
  dc_minimum_wait :: duration
  dc_maximum_wait :: duration

text \<open>
  The parameter: a request, executed with a retry count and a condition that is asked after each
  attempt whether to try again.
\<close>

type_synonym retrier =
  "draining_config \<Rightarrow> es_shard list http io \<Rightarrow> (es_shard list http \<Rightarrow> bool io) \<Rightarrow> es_shard list http io"

definition remaining_shards :: "pod \<Rightarrow> es_shard list \<Rightarrow> nat" where
  "remaining_shards pd shards = length (filter (\<lambda>sh. sh_ip sh = pod_ip pd) shards)"

definition retry_condition :: "pod \<Rightarrow> es_shard list http \<Rightarrow> bool io" where
  "retry_condition pd r =
     io_bind (io_call w_context_done ContextDone) (\<lambda>cancelled.
       if cancelled then io_return False
       else (case r of
          NoResponse _ \<Rightarrow> io_return True
        | Response _ b \<Rightarrow>
            (case b of
               None \<Rightarrow> io_return True
             | Some shards \<Rightarrow>
                 if 0 < remaining_shards pd shards
                 then io_bind (io_try (excludePodIP pd)) (\<lambda>x.
                        case x of Inl _ \<Rightarrow> io_return True
                        | Inr _ \<Rightarrow> io_return (0 < remaining_shards pd shards))
                 else io_return (0 < remaining_shards pd shards))))"

definition waitForEmptyEsNode :: "retrier \<Rightarrow> draining_config \<Rightarrow> pod \<Rightarrow> unit io" where
  "waitForEmptyEsNode retry cfg pd =
     io_bind (retry cfg (io_call w_shards CatShards) (retry_condition pd)) (\<lambda>r.
       case r of NoResponse e \<Rightarrow> io_fail (Transport e) | Response _ _ \<Rightarrow> io_return ())"

definition Drain :: "retrier \<Rightarrow> draining_config \<Rightarrow> pod \<Rightarrow> unit io" where
  "Drain retry cfg pd =
     io_bind ensureGreenClusterState (\<lambda>_.
     io_bind getClusterSettings (\<lambda>esSettings.
     io_bind (updateAutoRebalance ''none'' esSettings) (\<lambda>_.
     io_bind (excludePodIP pd) (\<lambda>_.
       waitForEmptyEsNode retry cfg pd))))"

section \<open>Nodes, shards, indices\<close>

definition convert_node :: "raw_node \<Rightarrow> es_node" where
  "convert_node n =
     \<lparr>nn_ip = rn_ip n,
      nn_disk_used_percent =
        (case parse_float (rn_disk_used_percent n) of None \<Rightarrow> Fin 0 | Some v \<Rightarrow> v)\<rparr>"

definition GetNodes :: "es_node list io" where
  "GetNodes =
     io_bind (io_call w_nodes CatNodes) (\<lambda>r.
       io_bind (decode r) (\<lambda>ns. io_return (map convert_node ns)))"

definition GetShards :: "es_shard list io" where
  "GetShards = io_bind (io_call w_shards CatShards) decode"

fun convert_indices :: "bool \<Rightarrow> raw_index list \<Rightarrow> (error, es_index list) outcome" where
  "convert_indices excludeSystem [] = Ok []"
| "convert_indices excludeSystem (i # is) =
     (if excludeSystem \<and> has_prefix (ri_index i) ''.'' then convert_indices excludeSystem is
      else case atoi (ri_primaries i) of
             None \<Rightarrow> Err (NotANumber (ri_primaries i))
           | Some p \<Rightarrow>
               (case atoi (ri_replicas i) of
                  None \<Rightarrow> Err (NotANumber (ri_replicas i))
                | Some r \<Rightarrow>
                    bind_outcome (convert_indices excludeSystem is) (\<lambda>ixs.
                      Ok (\<lparr>ix_index = ri_index i, ix_primaries = to_int32 p, ix_replicas = to_int32 r\<rparr> # ixs))))"

definition GetIndices :: "bool \<Rightarrow> es_index list io" where
  "GetIndices excludeSystemIndices =
     io_bind (io_call w_indices CatIndices) (\<lambda>r.
       io_bind (decode r) (\<lambda>is. io_lift (convert_indices excludeSystemIndices is)))"

definition drop_unknown_ips :: "es_node list \<Rightarrow> string list \<Rightarrow> string list" where
  "drop_unknown_ips nodes ips =
     foldl (\<lambda>acc ip. if ip \<in> nn_ip ` set nodes then sort_slice (<) (acc @ [ip]) else acc) [] ips"

definition Cleanup :: "unit io" where
  "Cleanup =
     io_bind GetNodes (\<lambda>nodes.
     io_bind getClusterSettings (\<lambda>esSettings.
       let excludedIPsString = ValueOrZero (GetPersistentExcludeIPs esSettings);
           newExcludedIPs = drop_unknown_ips nodes (split_on CHR '','' excludedIPsString);
           newExcludedIPsString = join_with CHR '','' newExcludedIPs
       in io_bind (if newExcludedIPsString \<noteq> excludedIPsString
                   then setExcludeIPs newExcludedIPsString esSettings
                   else io_return esSettings) (\<lambda>esSettings.
            if ValueOrZero (GetPersistentRebalance esSettings) \<noteq> ''all''
            then io_bind (updateAutoRebalance ''all'' esSettings) (\<lambda>_. io_return ())
            else io_return ())))"

fun update_indices :: "es_index list \<Rightarrow> unit io" where
  "update_indices [] = io_return ()"
| "update_indices (ix # ixs) =
     io_bind (io_call (\<lambda>w tr. w_put_replicas w tr (ix_index ix) (ix_replicas ix))
                (PutReplicas (ix_index ix) (ix_replicas ix))) (\<lambda>r.
       case r of
         NoResponse e \<Rightarrow> io_fail (Transport e)
       | Response st _ \<Rightarrow>
           if st \<noteq> 200 then (if st = 404 then io_return () else io_fail (CodeStatus st))
           else update_indices ixs)"

definition UpdateIndexSettings :: "es_index list \<Rightarrow> unit io" where
  "UpdateIndexSettings indices =
     (if indices = [] then io_return ()
      else io_bind ensureGreenClusterState (\<lambda>_. update_indices indices))"

definition CreateIndex :: "string \<Rightarrow> string \<Rightarrow> int64 \<Rightarrow> int64 \<Rightarrow> unit io" where
  "CreateIndex indexName groupName shards replicas =
     io_bind (io_call (\<lambda>w tr. w_put_index w tr indexName groupName shards replicas)
                (PutIndex indexName groupName shards replicas)) expect_ok"

definition DeleteIndex :: "string \<Rightarrow> unit io" where
  "DeleteIndex indexName =
     io_bind (io_call (\<lambda>w tr. w_remove_index w tr indexName) (RemoveIndex indexName)) expect_ok"

end
