(* ===== verification/EsClientProps.thy ===== *)
theory EsClientProps
  imports EsClient
begin

text \<open>
  What a successful call of the Elasticsearch client has done: the requests it sent, with their
  answers, for every handler of operator/es_client.go.
\<close>

section \<open>Successful runs\<close>

named_theorems io_ok \<open>runs that return a value, unfolded\<close>

lemma return_ok [io_ok]: "io_return a w tr = (Ok b, tr') \<longleftrightarrow> b = a \<and> tr' = tr"
  by (auto simp: io_return_def)

lemma fail_ok [io_ok]: "io_fail e w tr = (Ok b, tr') \<longleftrightarrow> False"
  by (simp add: io_fail_def)

lemma lift_ok [io_ok]: "io_lift r w tr = (Ok b, tr') \<longleftrightarrow> r = Ok b \<and> tr' = tr"
  by (auto simp: io_lift_def)

lemma call_ok [io_ok]: "io_call f ev w tr = (Ok r, tr') \<longleftrightarrow> r = f w tr \<and> tr' = tr @ [ev (f w tr)]"
  by (auto simp: io_call_def Let_def)

lemma answer_ok [io_ok]: "io_answer r w tr = (Ok b, tr') \<longleftrightarrow> r = Inr b \<and> tr' = tr"
  by (cases r) (auto simp: io_answer_def io_ok)

lemma bind_ok [io_ok]:
  "io_bind m f w tr = (Ok b, tr') \<longleftrightarrow> (\<exists>a t. m w tr = (Ok a, t) \<and> f a w t = (Ok b, tr'))"
  by (cases "m w tr" rule: result_cases) (auto simp: io_bind_def)

lemma wrap_ok [io_ok]: "io_wrap s m w tr = (Ok b, tr') \<longleftrightarrow> m w tr = (Ok b, tr')"
  by (cases "m w tr" rule: result_cases) (auto simp: io_wrap_def)

lemma try_ok [io_ok]:
  "io_try m w tr = (Ok (Inr b), tr') \<longleftrightarrow> m w tr = (Ok b, tr')"
  "io_try m w tr = (Ok (Inl e), tr') \<longleftrightarrow> m w tr = (Err e, tr')"
  by (cases "m w tr" rule: result_cases; auto simp: io_try_def)+

lemma decode_ok [io_ok]: "decode r w tr = (Ok v, tr') \<longleftrightarrow> r = Response 200 (Some v) \<and> tr' = tr"
  by (cases r) (auto simp: decode_def io_ok split: option.splits if_splits)

lemma expect_ok_ok [io_ok]: "expect_ok r w tr = (Ok v, tr') \<longleftrightarrow> (\<exists>b. r = Response 200 b) \<and> tr' = tr"
  by (cases r) (auto simp: expect_ok_def io_ok split: if_splits)

lemma green_ok [io_ok]:
  "ensureGreenClusterState w tr = (Ok u, tr') \<longleftrightarrow>
   w_health w tr = Response 200 (Some ''green'') \<and> tr' = tr @ [Health (Response 200 (Some ''green''))]"
  by (auto simp: ensureGreenClusterState_def io_ok split: if_splits)

lemma settings_ok:
  "getClusterSettings w tr = (Ok s, tr') \<longleftrightarrow>
   (\<exists>s0. w_get_settings w tr = Response 200 (Some s0) \<and> s = MergeNonEmptyTransientSettings s0 \<and>
      tr' = tr @ [GetSettings (Response 200 (Some s0))])"
  by (auto simp: getClusterSettings_def io_ok)

lemma put_settings_ok:
  "put_settings s w tr = (Ok s', tr') \<longleftrightarrow>
   (\<exists>b. w_put_settings w tr s = Response 200 b \<and> s' = s \<and> tr' = tr @ [PutSettings s (Response 200 b)])"
  by (auto simp: put_settings_def io_ok)

section \<open>Exclusions\<close>

definition pod_named_ip :: "pod \<Rightarrow> bool" where
  "pod_named_ip pd \<longleftrightarrow> pod_ip pd \<noteq> '''' \<and> CHR '','' \<notin> set (pod_ip pd)"

definition excluded :: "es_settings \<Rightarrow> string set" where
  "excluded s = excluded_ips (GetPersistentExcludeIPs s)"

lemma excluded_update [simp]:
  "excluded (updateExcludeIps ips s) = ips_of ips" "excluded (updateRebalance v s) = excluded s"
  by (simp_all add: excluded_def updateExcludeIps_def updateRebalance_def GetPersistentExcludeIPs_def
      excluded_ips_def)

lemma exclude_list_set: "set (exclude_list s) - {''''} = excluded s"
  by (auto simp: exclude_list_def excluded_def excluded_ips_def ips_of_def Let_def)

lemma exclude_list_no_comma: "ip \<in> set (exclude_list s) \<Longrightarrow> CHR '','' \<notin> set ip"
  by (auto simp: exclude_list_def Let_def split_on_no_sep split: if_splits)

lemma excluded_after_adding:
  assumes "pod_named_ip pd"
  shows "ips_of (join_with CHR '','' (sort_slice (<) (exclude_list s @ [pod_ip pd]))) =
    insert (pod_ip pd) (excluded s)"
proof -
  have "ips_of (join_with CHR '','' (sort_slice (<) (exclude_list s @ [pod_ip pd]))) =
      set (sort_slice (<) (exclude_list s @ [pod_ip pd])) - {''''}"
    using assms by (intro ips_of_join) (auto simp: go_sort.set_srt exclude_list_no_comma pod_named_ip_def)
  then show ?thesis
    using assms exclude_list_set [of s] by (auto simp: go_sort.set_srt pod_named_ip_def)
qed

text \<open>
  The requests that exclude a pod: its IP is already excluded, or it is added to what was read.
\<close>

definition exclusion_events :: "pod \<Rightarrow> event list \<Rightarrow> bool" where
  "exclusion_events pd es \<longleftrightarrow>
     (\<exists>s0. let s = MergeNonEmptyTransientSettings s0
        in (pod_ip pd \<in> excluded s \<and> es = [GetSettings (Response 200 (Some s0))]) \<or>
           (\<exists>s' b. es = [GetSettings (Response 200 (Some s0)), PutSettings s' (Response 200 b)] \<and>
              excluded s' = insert (pod_ip pd) (excluded s)))"

lemma exclude_pod_ok:
  assumes "pod_named_ip pd" "excludePodIP pd w tr = (Ok u, tr')"
  shows "\<exists>es. tr' = tr @ es \<and> exclusion_events pd es"
proof -
  from assms(2) obtain s0 where s0: "w_get_settings w tr = Response 200 (Some s0)"
    and rest: "(let ips = exclude_list (MergeNonEmptyTransientSettings s0)
       in if pod_ip pd \<in> set ips then io_return ()
          else io_bind (setExcludeIPs (join_with CHR '','' (sort_slice (<) (ips @ [pod_ip pd])))
                 (MergeNonEmptyTransientSettings s0)) (\<lambda>_. io_return ())) w
        (tr @ [GetSettings (Response 200 (Some s0))]) = (Ok u, tr')"
    by (auto simp: excludePodIP_def bind_ok settings_ok)
  let ?s = "MergeNonEmptyTransientSettings s0"
  show ?thesis
  proof (cases "pod_ip pd \<in> set (exclude_list ?s)")
    case True
    then have "pod_ip pd \<in> excluded ?s"
      using assms(1) exclude_list_set [of ?s] by (auto simp: pod_named_ip_def)
    with True rest show ?thesis by (auto simp: io_ok exclusion_events_def Let_def)
  next
    case False
    with rest obtain s' b where s': "s' = updateExcludeIps (join_with CHR '','' (sort_slice (<)
        (exclude_list ?s @ [pod_ip pd]))) ?s"
      "tr' = tr @ [GetSettings (Response 200 (Some s0)), PutSettings s' (Response 200 b)]"
      by (auto simp: setExcludeIPs_def io_ok put_settings_ok Let_def)
    from s'(1) have "excluded s' = insert (pod_ip pd) (excluded ?s)"
      by (simp add: excluded_after_adding [OF assms(1)])
    then show ?thesis unfolding exclusion_events_def Let_def s'(2) by blast
  qed
qed

section \<open>Waiting for an empty node\<close>

text \<open>
  The documented behaviour of the retry loop: the request is repeated while the condition returns
  true, at most as often as the retry count says; the last response is returned, whatever the
  condition said about it.
\<close>

fun documented_retry :: "nat \<Rightarrow> es_shard list http io \<Rightarrow> (es_shard list http \<Rightarrow> bool io) \<Rightarrow> es_shard list http io" where
  "documented_retry 0 req again = io_bind req (\<lambda>r. io_bind (again r) (\<lambda>_. io_return r))"
| "documented_retry (Suc n) req again =
     io_bind req (\<lambda>r. io_bind (again r) (\<lambda>a. if a then documented_retry n req again else io_return r))"

definition documented :: "retrier \<Rightarrow> bool" where
  "documented retry \<longleftrightarrow>
     (\<forall>cfg. 0 \<le> sint (dc_max_retries cfg) \<longrightarrow> retry cfg = documented_retry (nat (sint (dc_max_retries cfg))))"

definition empty_answer :: "pod \<Rightarrow> es_shard list http \<Rightarrow> bool" where
  "empty_answer pd r \<longleftrightarrow>
     (\<exists>st shards. r = Response st (Some shards) \<and> (\<forall>sh \<in> set shards. sh_ip sh \<noteq> pod_ip pd))"

fun is_poll :: "event \<Rightarrow> bool" where
  "is_poll (CatShards r) = True"
| "is_poll _ = False"

definition wait_event :: "event \<Rightarrow> bool" where
  "wait_event e \<longleftrightarrow> (\<exists>r. e = ContextDone r) \<or> (\<exists>r. e = CatShards r) \<or> (\<exists>r. e = GetSettings r) \<or>
     (\<exists>s r. e = PutSettings s r)"

lemma remaining_zero: "remaining_shards pd shards = 0 \<longleftrightarrow> (\<forall>sh \<in> set shards. sh_ip sh \<noteq> pod_ip pd)"
  by (auto simp: remaining_shards_def filter_empty_conv)

abbreviation exclude_event :: "event \<Rightarrow> bool" where
  "exclude_event e \<equiv> wait_event e \<and> \<not> is_poll e"

lemma exclude_pod_emits: "emits exclude_event (excludePodIP pd)"
  unfolding excludePodIP_def getClusterSettings_def setExcludeIPs_def put_settings_def decode_def expect_ok_def
  by (intro emits_intros | simp add: wait_event_def)+

lemma emits_run:
  assumes "emits K m" "m w tr = (r, tr')"
  shows "\<exists>es. tr' = tr @ es \<and> (\<forall>e \<in> set es. K e)"
proof -
  have "adds K tr (snd (m w tr))" using assms(1) by (simp add: emits_def)
  then show ?thesis using assms(2) by (simp add: adds_def)
qed

lemma condition_emits: "emits exclude_event (retry_condition pd r)"
  unfolding retry_condition_def
  by (intro emits_intros exclude_pod_emits | simp add: wait_event_def)+

lemma condition_run:
  assumes "retry_condition pd r w tr = (Ok a, tr')"
  shows "\<exists>post. tr' = tr @ post \<and> (\<forall>e \<in> set post. exclude_event e) \<and>
    (a = False \<longrightarrow> empty_answer pd r \<or> ContextDone True \<in> set post)"
proof -
  obtain post where post: "tr' = tr @ post" "\<forall>e \<in> set post. exclude_event e"
    using emits_run [OF condition_emits assms] by blast
  have "empty_answer pd r \<or> ContextDone True \<in> set post" if stop: "a = False"
  proof (cases "w_context_done w tr")
    case True
    then have "tr' = tr @ [ContextDone True]" using assms by (auto simp: retry_condition_def io_ok)
    with post(1) show ?thesis by auto
  next
    case False
    then obtain st shards where "r = Response st (Some shards)" "remaining_shards pd shards = 0"
      using assms stop
      by (auto simp: retry_condition_def io_ok split: http.splits option.splits if_splits sum.splits)
    then show ?thesis by (simp add: empty_answer_def remaining_zero)
  qed
  with post show ?thesis by blast
qed

text \<open>
  A wait that ends: the last poll saw no shard on the pod, or the context was cancelled, or all
  attempts were used up.
\<close>

definition wait_over :: "pod \<Rightarrow> nat \<Rightarrow> event list \<Rightarrow> bool" where
  "wait_over pd n es \<longleftrightarrow>
     (\<exists>pre r post. es = pre @ CatShards r # post \<and> (\<forall>e \<in> set post. \<not> is_poll e) \<and>
        (empty_answer pd r \<or> ContextDone True \<in> set post \<or> length (filter is_poll es) = Suc n))"

lemma wait_over_step:
  assumes "wait_over pd n es" "\<forall>e \<in> set post. \<not> is_poll e"
  shows "wait_over pd (Suc n) (CatShards r # post @ es)"
proof -
  from assms(1) obtain pre r' post' where "es = pre @ CatShards r' # post'" "\<forall>e \<in> set post'. \<not> is_poll e"
    "empty_answer pd r' \<or> ContextDone True \<in> set post' \<or> length (filter is_poll es) = Suc n"
    unfolding wait_over_def by blast
  moreover have "filter is_poll post = []" using assms(2) by (simp add: filter_empty_conv)
  ultimately show ?thesis
    unfolding wait_over_def
    by (intro exI [of _ "CatShards r # post @ pre"] exI [of _ r'] exI [of _ post']) auto
qed

lemma retry_run:
  assumes "documented_retry n (io_call w_shards CatShards) (retry_condition pd) w tr = (Ok r, tr')"
  shows "\<exists>es. tr' = tr @ es \<and> (\<forall>e \<in> set es. wait_event e) \<and> wait_over pd n es"
  using assms
proof (induction n arbitrary: tr)
  case 0
  then obtain a where "retry_condition pd (w_shards w tr) w (tr @ [CatShards (w_shards w tr)]) = (Ok a, tr')"
    by (auto simp: io_ok)
  from condition_run [OF this] obtain post where post: "tr' = (tr @ [CatShards (w_shards w tr)]) @ post"
    "\<forall>e \<in> set post. exclude_event e" by blast
  have "wait_over pd 0 (CatShards (w_shards w tr) # post)"
    unfolding wait_over_def using post(2)
    by (intro exI [of _ "[]"] exI [of _ "w_shards w tr"] exI [of _ post]) (auto simp: filter_empty_conv)
  then show ?case using post by (intro exI [of _ "CatShards (w_shards w tr) # post"]) (auto simp: wait_event_def)
next
  case (Suc n)
  let ?r = "w_shards w tr"
  from Suc.prems obtain a t where c: "retry_condition pd ?r w (tr @ [CatShards ?r]) = (Ok a, t)"
    and rest: "(if a then documented_retry n (io_call w_shards CatShards) (retry_condition pd) else io_return ?r) w t =
      (Ok r, tr')"
    by (auto simp: io_ok)
  from condition_run [OF c] obtain post where post: "t = (tr @ [CatShards ?r]) @ post"
    "\<forall>e \<in> set post. exclude_event e" "a = False \<longrightarrow> empty_answer pd ?r \<or> ContextDone True \<in> set post" by blast
  show ?case
  proof (cases a)
    case True
    with rest Suc.IH [of t] obtain es where es: "tr' = t @ es" "\<forall>e \<in> set es. wait_event e" "wait_over pd n es"
      by auto
    then show ?thesis using post wait_over_step [OF es(3), of post ?r]
      by (intro exI [of _ "CatShards ?r # post @ es"]) (auto simp: wait_event_def)
  next
    case False
    then have "wait_over pd (Suc n) (CatShards ?r # post)"
      unfolding wait_over_def using post(2,3)
      by (intro exI [of _ "[]"] exI [of _ ?r] exI [of _ post]) auto
    then show ?thesis using False rest post
      by (intro exI [of _ "CatShards ?r # post"]) (auto simp: io_ok wait_event_def)
  qed
qed

lemma wait_run:
  assumes "documented retry" "0 \<le> sint (dc_max_retries cfg)"
    and "waitForEmptyEsNode retry cfg pd w tr = (Ok u, tr')"
  shows "\<exists>es. tr' = tr @ es \<and> (\<forall>e \<in> set es. wait_event e) \<and>
    wait_over pd (nat (sint (dc_max_retries cfg))) es"
proof -
  from assms(3) obtain r t where "retry cfg (io_call w_shards CatShards) (retry_condition pd) w tr = (Ok r, t)"
    "(case r of NoResponse e \<Rightarrow> io_fail (Transport e) | Response _ _ \<Rightarrow> io_return ()) w t = (Ok u, tr')"
    by (auto simp: waitForEmptyEsNode_def bind_ok)
  moreover from this(2) have "t = tr'" by (cases r) (auto simp: io_ok)
  ultimately show ?thesis using assms(1,2) retry_run by (auto simp: documented_def)
qed

section \<open>Draining\<close>

text \<open>
  The requests of a drain that reports success, n being the retry count.
\<close>

definition drain_events :: "pod \<Rightarrow> nat \<Rightarrow> event list \<Rightarrow> bool" where
  "drain_events pd n evs \<longleftrightarrow>
     (\<exists>s0 s b ex es. evs = [Health (Response 200 (Some ''green'')),
        GetSettings (Response 200 (Some s0)), PutSettings s (Response 200 b)] @ ex @ es \<and>
      ValueOrZero (GetPersistentRebalance s) = ''none'' \<and>
      excluded s = excluded (MergeNonEmptyTransientSettings s0) \<and>
      exclusion_events pd ex \<and> (\<forall>e \<in> set es. wait_event e) \<and> wait_over pd n es)"

lemma drain_run:
  assumes "documented retry" "0 \<le> sint (dc_max_retries cfg)" "pod_named_ip pd"
    and "Drain retry cfg pd w tr = (Ok u, tr')"
  shows "\<exists>evs. tr' = tr @ evs \<and> drain_events pd (nat (sint (dc_max_retries cfg))) evs"
proof -
  from assms(4) obtain s0 s b t u1 u2 where h: "s = updateRebalance ''none'' (MergeNonEmptyTransientSettings s0)"
    and x: "excludePodIP pd w (tr @ [Health (Response 200 (Some ''green'')),
      GetSettings (Response 200 (Some s0)), PutSettings s (Response 200 b)]) = (Ok u1, t)"
    and wt: "waitForEmptyEsNode retry cfg pd w t = (Ok u2, tr')"
    by (auto simp: Drain_def io_ok settings_ok updateAutoRebalance_def put_settings_ok)
  from exclude_pod_ok [OF assms(3) x] obtain ex where ex: "t = (tr @ [Health (Response 200 (Some ''green'')),
      GetSettings (Response 200 (Some s0)), PutSettings s (Response 200 b)]) @ ex" "exclusion_events pd ex"
    by blast
  from wait_run [OF assms(1,2) wt] obtain es where es: "tr' = t @ es" "\<forall>e \<in> set es. wait_event e"
    "wait_over pd (nat (sint (dc_max_retries cfg))) es" by blast
  have "ValueOrZero (GetPersistentRebalance s) = ''none''"
    by (simp add: h updateRebalance_def GetPersistentRebalance_def)
  with ex es h have "drain_events pd (nat (sint (dc_max_retries cfg))) ([Health (Response 200 (Some ''green'')),
      GetSettings (Response 200 (Some s0)), PutSettings s (Response 200 b)] @ ex @ es)"
    unfolding drain_events_def
    by (intro exI [of _ s0] exI [of _ s] exI [of _ b] exI [of _ ex] exI [of _ es]) simp
  then show ?thesis using ex es by simp
qed


text \<open>
  C5. A drain that reports success has, in this order: seen a green cluster, turned rebalancing
  off without losing an exclusion, made sure the IP of the pod is excluded, and polled the shards
  until no shard was left on the pod. The two other ways to end the wait are in the statement:
  the context was cancelled, or the retries were used up.
\<close>

theorem drain_success:
  assumes "documented retry" "0 \<le> sint (dc_max_retries cfg)" "pod_named_ip pd"
    and "Drain retry cfg pd w tr = (Ok u, tr')"
  shows "\<exists>s0 s b ex es. tr' = tr @ [Health (Response 200 (Some ''green'')),
      GetSettings (Response 200 (Some s0)), PutSettings s (Response 200 b)] @ ex @ es \<and>
    ValueOrZero (GetPersistentRebalance s) = ''none'' \<and>
    excluded s = excluded (MergeNonEmptyTransientSettings s0) \<and>
    exclusion_events pd ex \<and> (\<forall>e \<in> set es. wait_event e) \<and>
    wait_over pd (nat (sint (dc_max_retries cfg))) es"
  using drain_run [OF assms] unfolding drain_events_def by blast

end
