(* ===== verification/EsClientMore.thy ===== *)
theory EsClientMore
  imports EsClientProps
begin

text \<open>
  The other calls of operator/es_client.go: the cleanup of the exclude list, the conversion of
  the indices, the update of the replica settings; and two concrete worlds in which a call
  reports a success that has not happened.
\<close>

section \<open>Cleanup\<close>

lemma drop_unknown_set:
  "set (drop_unknown_ips nodes ips) = {ip \<in> set ips. ip \<in> nn_ip ` set nodes}"
proof -
  have "set (foldl (\<lambda>acc ip. if ip \<in> nn_ip ` set nodes then sort_slice (<) (acc @ [ip]) else acc) acc ips) =
      set acc \<union> {ip \<in> set ips. ip \<in> nn_ip ` set nodes}" for acc
  proof (induction ips arbitrary: acc)
    case (Cons ip ips)
    then show ?case by (auto simp: go_sort.set_srt)
  qed simp
  then show ?thesis by (simp add: drop_unknown_ips_def)
qed

lemma excluded_after_cleanup:
  "ips_of (join_with CHR '','' (drop_unknown_ips nodes
      (split_on CHR '','' (ValueOrZero (GetPersistentExcludeIPs s))))) = excluded s \<inter> nn_ip ` set nodes"
  by (subst ips_of_join) (auto simp: drop_unknown_set split_on_no_sep excluded_def excluded_ips_def ips_of_def)

lemma convert_node_ips: "nn_ip ` set (map convert_node ns) = rn_ip ` set ns"
  by (force simp: convert_node_def)

lemma set_exclude_run:
  "setExcludeIPs ips s w tr = (Ok s', tr') \<longleftrightarrow>
   (\<exists>b. s' = updateExcludeIps ips s \<and> w_put_settings w tr s' = Response 200 b \<and>
      tr' = tr @ [PutSettings s' (Response 200 b)])"
  by (auto simp: setExcludeIPs_def put_settings_ok)

lemma rebalance_of_update [simp]:
  "GetPersistentRebalance (updateExcludeIps ips s) = GetPersistentRebalance s"
  "ValueOrZero (GetPersistentRebalance (updateRebalance v s)) = v"
  by (simp_all add: updateExcludeIps_def updateRebalance_def GetPersistentRebalance_def)

lemma bind_run: "m w tr = (Ok a, t) \<Longrightarrow> io_bind m f w tr = f a w t"
  by (simp add: io_bind_def)

lemma nodes_run:
  "w_nodes w tr = Response 200 (Some ns) \<Longrightarrow>
   GetNodes w tr = (Ok (map convert_node ns), tr @ [CatNodes (Response 200 (Some ns))])"
  by (simp add: GetNodes_def io_ok)

lemma settings_run:
  "w_get_settings w tr = Response 200 (Some s0) \<Longrightarrow>
   getClusterSettings w tr = (Ok (MergeNonEmptyTransientSettings s0), tr @ [GetSettings (Response 200 (Some s0))])"
  by (simp add: settings_ok)

text \<open>A sequence of successful writes that ends with the given settings, starting from s.\<close>

inductive writes :: "es_settings \<Rightarrow> event list \<Rightarrow> es_settings \<Rightarrow> bool" where
  writes_none: "writes s [] s"
| writes_more: "writes s' es t \<Longrightarrow> writes s (PutSettings s' (Response 200 b) # es) t"

inductive_simps writes_Nil [simp]: "writes s [] t"
inductive_simps writes_Cons [simp]: "writes s (e # es) t"

lemma writes_append: "writes s es s1 \<Longrightarrow> writes s1 es' t \<Longrightarrow> writes s (es @ es') t"
  by (induction rule: writes.induct) auto

text \<open>The two halves of a cleanup, each with at most one write.\<close>

lemma exclusion_half:
  assumes "(if new \<noteq> ValueOrZero (GetPersistentExcludeIPs s) then setExcludeIPs new s else io_return s) w t = (Ok s1, t1)"
  shows "\<exists>es. t1 = t @ es \<and> length es \<le> 1 \<and> writes s es s1 \<and> excluded s1 = ips_of new \<and>
    (\<forall>x r. PutSettings x r \<in> set es \<longrightarrow> excluded x = ips_of new)"
proof (cases "new = ValueOrZero (GetPersistentExcludeIPs s)")
  case True
  then have "excluded s = ips_of new" by (simp add: excluded_def excluded_ips_def)
  with True assms show ?thesis by (auto simp: io_ok)
qed (use assms in \<open>auto simp: set_exclude_run\<close>)

lemma rebalance_half:
  assumes "(if ValueOrZero (GetPersistentRebalance s1) \<noteq> ''all''
    then io_bind (updateAutoRebalance ''all'' s1) (\<lambda>_. io_return ()) else io_return ()) w t1 = (Ok u, tr')"
  shows "\<exists>es final. tr' = t1 @ es \<and> length es \<le> 1 \<and> writes s1 es final \<and> excluded final = excluded s1 \<and>
    (\<forall>x r. PutSettings x r \<in> set es \<longrightarrow> excluded x = excluded s1) \<and> ValueOrZero (GetPersistentRebalance final) = ''all''"
proof (cases "ValueOrZero (GetPersistentRebalance s1) = ''all''")
  case False
  then obtain b where "tr' = t1 @ [PutSettings (updateRebalance ''all'' s1) (Response 200 b)]"
    using assms by (auto simp: io_ok updateAutoRebalance_def put_settings_ok)
  then show ?thesis by auto
qed (use assms in \<open>auto simp: io_ok\<close>)

text \<open>
  A cleanup that succeeds has read the nodes and the settings and written at most twice; every
  write, and so the final settings, excludes exactly those of the excluded IPs that belong to a
  node of the cluster, and in the end rebalancing is on.
\<close>

theorem cleanup_success:
  assumes "Cleanup w tr = (Ok u, tr')"
  shows "\<exists>ns s0 puts final. tr' = tr @ [CatNodes (Response 200 (Some ns)),
        GetSettings (Response 200 (Some s0))] @ puts \<and>
      length puts \<le> 2 \<and> writes (MergeNonEmptyTransientSettings s0) puts final \<and>
      (\<forall>s r. PutSettings s r \<in> set puts \<longrightarrow>
        excluded s = excluded (MergeNonEmptyTransientSettings s0) \<inter> rn_ip ` set ns) \<and>
      excluded final = excluded (MergeNonEmptyTransientSettings s0) \<inter> rn_ip ` set ns \<and>
      ValueOrZero (GetPersistentRebalance final) = ''all''"
proof -
  from assms obtain ns s0 where n: "w_nodes w tr = Response 200 (Some ns)"
    and s0: "w_get_settings w (tr @ [CatNodes (Response 200 (Some ns))]) = Response 200 (Some s0)"
    by (auto simp: Cleanup_def GetNodes_def io_ok settings_ok)
  define s where "s = MergeNonEmptyTransientSettings s0"
  define new where "new = join_with CHR '','' (drop_unknown_ips (map convert_node ns)
    (split_on CHR '','' (ValueOrZero (GetPersistentExcludeIPs s))))"
  define t where "t = tr @ [CatNodes (Response 200 (Some ns)), GetSettings (Response 200 (Some s0))]"
  have new: "ips_of new = excluded s \<inter> rn_ip ` set ns"
    unfolding new_def excluded_after_cleanup convert_node_ips ..
  have "io_bind (if new \<noteq> ValueOrZero (GetPersistentExcludeIPs s) then setExcludeIPs new s else io_return s) (\<lambda>s.
      if ValueOrZero (GetPersistentRebalance s) \<noteq> ''all''
      then io_bind (updateAutoRebalance ''all'' s) (\<lambda>_. io_return ()) else io_return ()) w t = (Ok u, tr')"
    using assms
    unfolding Cleanup_def bind_run [where m = GetNodes, OF nodes_run [OF n]]
      bind_run [where m = getClusterSettings, OF settings_run [OF s0]] Let_def s_def new_def t_def
    by (simp only: append_assoc append_Cons append_Nil)
  then obtain s1 t1 where
    "(if new \<noteq> ValueOrZero (GetPersistentExcludeIPs s) then setExcludeIPs new s else io_return s) w t = (Ok s1, t1)"
    "(if ValueOrZero (GetPersistentRebalance s1) \<noteq> ''all''
      then io_bind (updateAutoRebalance ''all'' s1) (\<lambda>_. io_return ()) else io_return ()) w t1 = (Ok u, tr')"
    by (auto simp: bind_ok)
  from exclusion_half [OF this(1)] rebalance_half [OF this(2)] obtain es1 es2 final where
    es1: "t1 = t @ es1" "length es1 \<le> 1" "writes s es1 s1" "excluded s1 = ips_of new"
      "\<forall>x r. PutSettings x r \<in> set es1 \<longrightarrow> excluded x = ips_of new" and
    es2: "tr' = t1 @ es2" "length es2 \<le> 1" "writes s1 es2 final" "excluded final = excluded s1"
      "\<forall>x r. PutSettings x r \<in> set es2 \<longrightarrow> excluded x = excluded s1" "ValueOrZero (GetPersistentRebalance final) = ''all''"
    by blast
  then show ?thesis
    using writes_append [OF es1(3) es2(3)] new unfolding s_def [symmetric]
    by (intro exI [of _ ns] exI [of _ s0] exI [of _ "es1 @ es2"] exI [of _ final]) (auto simp: t_def s_def)
qed

section \<open>Indices\<close>

definition kept_indices :: "bool \<Rightarrow> raw_index list \<Rightarrow> raw_index list" where
  "kept_indices ex is = filter (\<lambda>i. \<not> (ex \<and> prefix ''.'' (ri_index i))) is"

definition raw_of :: "es_index \<Rightarrow> raw_index" where
  "raw_of ix = \<lparr>ri_index = ix_index ix, ri_primaries = show_int (sint (ix_primaries ix)),
     ri_replicas = show_int (sint (ix_replicas ix))\<rparr>"

lemma convert_ok:
  "convert_indices ex is = Ok ixs \<Longrightarrow>
   map ix_index ixs = map ri_index (kept_indices ex is) \<and>
   (\<forall>i \<in> set (kept_indices ex is). atoi (ri_primaries i) \<noteq> None \<and> atoi (ri_replicas i) \<noteq> None)"
  by (induction ex "is" arbitrary: ixs rule: convert_indices.induct)
    (auto simp: kept_indices_def has_prefix_iff bind_outcome_Ok_iff split: if_splits option.splits)

lemma convert_not_panic: "convert_indices ex is \<noteq> Panic"
  by (induction ex "is" rule: convert_indices.induct)
    (auto simp: bind_outcome_Panic_iff split: if_splits option.splits)

lemma atoi_show_int32: "atoi (show_int (sint (w :: int32))) = Some (to_int64 w)"
  using sint32_lower [of w] sint32_upper [of w] by (simp add: atoi_show_int in_int64_def to_int64_def)

lemma convert_raw: "convert_indices False (map raw_of ixs) = Ok ixs"
  by (induction ixs) (auto simp: raw_of_def atoi_show_int32)

lemma convert_error:
  "convert_indices ex is = Err e \<Longrightarrow>
   \<exists>i \<in> set (kept_indices ex is). atoi (ri_primaries i) = None \<or> atoi (ri_replicas i) = None"
proof (induction ex "is" rule: convert_indices.induct)
  case (2 ex i "is")
  then show ?case
    by (cases "convert_indices ex is") (auto simp: kept_indices_def has_prefix_iff split: if_splits option.splits)
qed simp

text \<open>
  C33. The indices are read completely or not at all: the conversion succeeds exactly when each
  index that is kept (all of them, or the ones without a leading dot) has two numbers, it then
  has exactly the kept indices in their order, it never panics, and reading back the decimal
  form of any list of indices gives that list.
\<close>

theorem indices_read_completely:
  "((\<exists>ixs. convert_indices ex is = Ok ixs) \<longleftrightarrow>
     list_all (\<lambda>i. atoi (ri_primaries i) \<noteq> None \<and> atoi (ri_replicas i) \<noteq> None) (kept_indices ex is)) \<and>
   (case convert_indices ex is of Ok ixs \<Rightarrow> map ix_index ixs = map ri_index (kept_indices ex is)
      | Err _ \<Rightarrow> True | Panic \<Rightarrow> False) \<and>
   convert_indices False (map raw_of jxs) = Ok jxs"
  using convert_ok [of ex "is"] convert_error [of ex "is"] convert_not_panic [of ex "is"]
  by (cases "convert_indices ex is") (auto simp: convert_raw list_all_iff)

section \<open>Replica settings\<close>

definition replicas_put :: "es_index \<Rightarrow> event \<Rightarrow> bool" where
  "replicas_put ix e \<longleftrightarrow> (\<exists>b. e = PutReplicas (ix_index ix) (ix_replicas ix) (Response 200 b))"

lemma update_indices_run:
  "update_indices ixs w tr = (Ok u, tr') \<Longrightarrow>
   \<exists>done rest es. ixs = done @ rest \<and> list_all2 replicas_put done es \<and>
     ((rest = [] \<and> tr' = tr @ es) \<or>
      (rest \<noteq> [] \<and> (\<exists>b. tr' = tr @ es @ [PutReplicas (ix_index (hd rest)) (ix_replicas (hd rest)) (Response 404 b)])))"
proof (induction ixs arbitrary: tr)
  case Nil
  then show ?case by (simp add: io_ok)
next
  case (Cons ix ixs)
  let ?r = "w_put_replicas w tr (ix_index ix) (ix_replicas ix)"
  let ?e = "PutReplicas (ix_index ix) (ix_replicas ix) ?r"
  from Cons.prems consider (nf) b where "?r = Response 404 b" "tr' = tr @ [?e]"
    | (ok) b where "?r = Response 200 b" "update_indices ixs w (tr @ [?e]) = (Ok u, tr')"
    by (cases ?r) (auto simp: io_ok split: if_splits)
  then show ?case
  proof cases
    case nf
    then show ?thesis by (intro exI [of _ "[]"] exI [of _ "ix # ixs"]) auto
  next
    case ok
    from Cons.IH [OF ok(2)] obtain ds rest es where "ixs = ds @ rest" "list_all2 replicas_put ds es"
      "(rest = [] \<and> tr' = (tr @ [?e]) @ es) \<or> (rest \<noteq> [] \<and>
        (\<exists>b. tr' = (tr @ [?e]) @ es @ [PutReplicas (ix_index (hd rest)) (ix_replicas (hd rest)) (Response 404 b)]))"
      by blast
    moreover have "replicas_put ix ?e" using ok(1) by (simp add: replicas_put_def)
    ultimately show ?thesis
      by - (rule exI [of _ "ix # ds"], rule exI [of _ rest], rule exI [of _ "?e # es"], auto)
  qed
qed

text \<open>
  An update of the replica settings that reports success has seen a green cluster and then
  set the replicas of the given indices one by one in their order, all of them or those before
  the first index that was not found; without indices it sends nothing.
\<close>

theorem index_update_success:
  assumes "UpdateIndexSettings ixs w tr = (Ok u, tr')"
  shows "(ixs = [] \<and> tr' = tr) \<or> (\<exists>done rest es. ixs = done @ rest \<and> list_all2 replicas_put done es \<and>
    (\<exists>stop. tr' = tr @ Health (Response 200 (Some ''green'')) # es @ stop \<and>
      (rest = [] \<and> stop = [] \<or> rest \<noteq> [] \<and>
        (\<exists>b. stop = [PutReplicas (ix_index (hd rest)) (ix_replicas (hd rest)) (Response 404 b)]))))"
proof (cases "ixs = []")
  case False
  with assms have "update_indices ixs w (tr @ [Health (Response 200 (Some ''green''))]) = (Ok u, tr')"
    by (auto simp: UpdateIndexSettings_def io_ok)
  from update_indices_run [OF this] obtain ds rest es where r: "ixs = ds @ rest" "list_all2 replicas_put ds es"
    "(rest = [] \<and> tr' = (tr @ [Health (Response 200 (Some ''green''))]) @ es) \<or> (rest \<noteq> [] \<and>
      (\<exists>b. tr' = (tr @ [Health (Response 200 (Some ''green''))]) @ es @
        [PutReplicas (ix_index (hd rest)) (ix_replicas (hd rest)) (Response 404 b)]))" by blast
  from r(3) have "\<exists>stop. tr' = tr @ Health (Response 200 (Some ''green'')) # es @ stop \<and>
      (rest = [] \<and> stop = [] \<or> rest \<noteq> [] \<and>
        (\<exists>b. stop = [PutReplicas (ix_index (hd rest)) (ix_replicas (hd rest)) (Response 404 b)]))"
    by auto
  with r(1,2) show ?thesis by blast
qed (use assms in \<open>simp add: UpdateIndexSettings_def io_ok\<close>)

end
