(* ===== verification/EsExamples.thy ===== *)
theory EsExamples
  imports EsClientMore
begin

text \<open>
  Concrete worlds for the Elasticsearch client: instances of its theorems, and two runs that
  report a success that has not happened.
\<close>

section \<open>A world to start from\<close>

definition silent_world :: world where
  "silent_world =
     \<lparr>w_health = (\<lambda>_. Response 200 (Some ''green'')),
      w_get_settings = (\<lambda>_. NoResponse ''''), w_put_settings = (\<lambda>_ _. Response 200 None),
      w_shards = (\<lambda>_. Response 200 (Some [])), w_nodes = (\<lambda>_. Response 200 (Some [])),
      w_indices = (\<lambda>_. Response 200 (Some [])), w_put_replicas = (\<lambda>_ _ _. Response 200 None),
      w_put_index = (\<lambda>_ _ _ _ _. Response 200 None), w_remove_index = (\<lambda>_ _. Response 200 None),
      w_context_done = (\<lambda>_. False), w_now = (\<lambda>_. 0),
      w_get_eds = (\<lambda>_ _ _. Inl KubeNotFound), w_update_eds = (\<lambda>_ e. Inr e),
      w_update_eds_status = (\<lambda>_ e. Inr e), w_list_eds = (\<lambda>_ _. Inr []),
      w_list_metric_sets = (\<lambda>_ _. Inr []), w_create_metric_set = (\<lambda>_ _. Inr ()),
      w_update_metric_set = (\<lambda>_ _. Inr ()), w_list_pod_metrics = (\<lambda>_ _. Inr []),
      w_get_sts = (\<lambda>_ _ _. Inl KubeNotFound), w_create_sts = (\<lambda>_ s. Inr s),
      w_update_sts = (\<lambda>_ s. Inr s), w_list_pods = (\<lambda>_ _ _. Inr []), w_list_nodes = (\<lambda>_. Inr []),
      w_get_pod = (\<lambda>_ _ _. Inl KubeNotFound), w_patch_pod = (\<lambda>_ _ _ _ _. Inr ()),
      w_delete_pod = (\<lambda>_ _ _ _. Inr ()), w_get_pdb = (\<lambda>_ _ _. Inl KubeNotFound),
      w_create_pdb = (\<lambda>_ _. Inr ()), w_get_service = (\<lambda>_ _ _. Inl KubeNotFound),
      w_create_service = (\<lambda>_ _. Inr ())\<rparr>"

definition settings_with :: "null_string \<Rightarrow> null_string \<Rightarrow> cluster_settings" where
  "settings_with ip rb =
     \<lparr>cs_cluster = \<lparr>cl_routing = \<lparr>ro_allocation = \<lparr>al_exclude = \<lparr>ex_ip = ip\<rparr>\<rparr>,
        ro_rebalance = \<lparr>rb_enable = rb\<rparr>\<rparr>\<rparr>\<rparr>"

definition no_settings :: es_settings where
  "no_settings =
     \<lparr>se_transient = settings_with (StringFromPtr None) (StringFromPtr None),
      se_persistent = settings_with (StringFromPtr None) (StringFromPtr None)\<rparr>"

definition calm_world :: world where
  "calm_world = silent_world\<lparr>w_get_settings := \<lambda>_. Response 200 (Some no_settings)\<rparr>"

definition example_pod :: pod where
  "example_pod =
     \<lparr>pod_name = ''eds-0'', pod_generate_name = ''eds-'', pod_namespace = ''ns'', pod_uid = ''p0'',
      pod_labels = None, pod_annotations = None, pod_node_name = ''n0'', pod_phase = PodOtherPhase,
      pod_ip = ''10.0.0.1'', pod_grace_seconds = None, pod_containers = []\<rparr>"

definition reference_retry :: retrier where
  "reference_retry cfg = documented_retry (nat (sint (dc_max_retries cfg)))"

lemma reference_retry_documented: "documented reference_retry"
  by (auto simp: documented_def reference_retry_def)

definition two_attempts :: draining_config where
  "two_attempts = \<lparr>dc_max_retries = 1, dc_minimum_wait = 0, dc_maximum_wait = 0\<rparr>"

lemma example_pod_named: "pod_named_ip example_pod"
  by code_simp

lemma calm_drain: "\<exists>tr. Drain reference_retry two_attempts example_pod calm_world [] = (Ok (), tr)"
proof -
  have "fst (Drain reference_retry two_attempts example_pod calm_world []) = Ok ()"
    unfolding reference_retry_def by code_simp
  then show ?thesis by (metis prod.collapse)
qed

theorem drain_success_witness:
  "\<exists>tr. Drain reference_retry two_attempts example_pod calm_world [] = (Ok (), tr) \<and>
    (\<exists>s0 s b ex es. tr = [] @ [Health (Response 200 (Some ''green'')),
       GetSettings (Response 200 (Some s0)), PutSettings s (Response 200 b)] @ ex @ es \<and>
     ValueOrZero (GetPersistentRebalance s) = ''none'' \<and>
     excluded s = excluded (MergeNonEmptyTransientSettings s0) \<and>
     exclusion_events example_pod ex \<and> (\<forall>e \<in> set es. wait_event e) \<and>
     wait_over example_pod (nat (sint (dc_max_retries two_attempts))) es)"
proof -
  obtain tr where tr: "Drain reference_retry two_attempts example_pod calm_world [] = (Ok (), tr)"
    using calm_drain by blast
  have "0 \<le> sint (dc_max_retries two_attempts)" by (simp add: two_attempts_def)
  from drain_success [OF reference_retry_documented this example_pod_named tr] tr
  show ?thesis by (intro exI [of _ tr] conjI)
qed

lemma calm_cleanup: "\<exists>tr. Cleanup calm_world [] = (Ok (), tr)"
proof -
  have "fst (Cleanup calm_world []) = Ok ()" by code_simp
  then show ?thesis by (metis prod.collapse)
qed

theorem cleanup_success_witness:
  "\<exists>tr. Cleanup calm_world [] = (Ok (), tr) \<and>
    (\<exists>ns s0 puts final. tr = [] @ [CatNodes (Response 200 (Some ns)),
        GetSettings (Response 200 (Some s0))] @ puts \<and>
      length puts \<le> 2 \<and> writes (MergeNonEmptyTransientSettings s0) puts final \<and>
      (\<forall>s r. PutSettings s r \<in> set puts \<longrightarrow>
        excluded s = excluded (MergeNonEmptyTransientSettings s0) \<inter> rn_ip ` set ns) \<and>
      excluded final = excluded (MergeNonEmptyTransientSettings s0) \<inter> rn_ip ` set ns \<and>
      ValueOrZero (GetPersistentRebalance final) = ''all'')"
proof -
  obtain tr where tr: "Cleanup calm_world [] = (Ok (), tr)" using calm_cleanup by blast
  from cleanup_success [OF tr] tr show ?thesis by (intro exI [of _ tr] conjI)
qed

section \<open>Successes that have not happened\<close>

definition busy_world :: world where
  "busy_world = calm_world\<lparr>w_shards := \<lambda>_. Response 200 (Some [\<lparr>sh_ip = ''10.0.0.1'', sh_index = ''a''\<rparr>])\<rparr>"

text \<open>
  When the retries are used up, a drain reports success although every poll, the last one
  included, has found shards on the pod. The retry loop does not turn the exhausted condition
  into an error, and \<open>waitForEmptyEsNode\<close> only looks at the error.
\<close>

theorem drain_gives_up_silently:
  "case Drain reference_retry two_attempts example_pod busy_world [] of (result, tr) \<Rightarrow>
     result = Ok () \<and> length (filter is_poll tr) = 2 \<and>
     list_all (\<lambda>e. is_poll e \<longrightarrow> e = CatShards (Response 200 (Some [\<lparr>sh_ip = pod_ip example_pod, sh_index = ''a''\<rparr>]))) tr"
  unfolding reference_retry_def by code_simp

definition cancelled_world :: world where
  "cancelled_world = busy_world\<lparr>w_context_done := \<lambda>_. True\<rparr>"

text \<open>
  A drain whose context has been cancelled, because the data set changed or was deleted,
  reports success after one poll, with shards left on the pod.
\<close>

theorem cancelled_drain_succeeds:
  "case Drain reference_retry two_attempts example_pod cancelled_world [] of (result, tr) \<Rightarrow>
     result = Ok () \<and> length (filter is_poll tr) = 1 \<and>
     list_all (\<lambda>e. is_poll e \<longrightarrow> e = CatShards (Response 200 (Some [\<lparr>sh_ip = pod_ip example_pod, sh_index = ''a''\<rparr>]))) tr"
  unfolding reference_retry_def by code_simp

definition missing_index_world :: world where
  "missing_index_world = calm_world\<lparr>w_put_replicas := \<lambda>_ name _. if name = ''a'' then Response 404 None else Response 200 None\<rparr>"

text \<open>
  One index that has been deleted in the meantime ends the update of all of them: the
  remaining indices keep their replicas, and the update reports success.
\<close>

theorem missing_index_stops_update:
  "UpdateIndexSettings
     [\<lparr>ix_index = ''a'', ix_primaries = 1, ix_replicas = 1\<rparr>, \<lparr>ix_index = ''b'', ix_primaries = 1, ix_replicas = 1\<rparr>]
     missing_index_world [] =
   (Ok (), [Health (Response 200 (Some ''green'')), PutReplicas ''a'' 1 (Response 404 None)])"
  by (simp add: UpdateIndexSettings_def io_ok missing_index_world_def calm_world_def silent_world_def)

lemma calm_update:
  "UpdateIndexSettings [\<lparr>ix_index = ''b'', ix_primaries = 1, ix_replicas = 1\<rparr>] calm_world [] =
   (Ok (), [Health (Response 200 (Some ''green'')), PutReplicas ''b'' 1 (Response 200 None)])"
  by (simp add: UpdateIndexSettings_def io_ok calm_world_def silent_world_def)

theorem index_update_success_witness:
  "\<exists>done rest es stop. [\<lparr>ix_index = ''b'', ix_primaries = 1, ix_replicas = 1\<rparr>] = done @ rest \<and>
     list_all2 replicas_put done es \<and>
     [Health (Response 200 (Some ''green'')), PutReplicas ''b'' 1 (Response 200 None)] =
       [] @ Health (Response 200 (Some ''green'')) # es @ stop"
  using index_update_success [OF calm_update] by auto

end
