(* ===== verification/PodExamples.thy ===== *)
theory PodExamples
  imports PodProps EsExamples
begin

text \<open>
  Concrete pods for the facts on the order in which pods are removed and updated.
\<close>

definition pod_of :: "string \<Rightarrow> string \<Rightarrow> pod" where
  "pod_of n ip = example_pod\<lparr>pod_name := n, pod_uid := n, pod_ip := ip\<rparr>"

definition three_pods :: "pod list" where
  "three_pods = [pod_of ''eds-2'' ''10.0.0.3'', pod_of ''eds-0'' ''10.0.0.1'', pod_of ''eds-1'' ''10.0.0.2'']"

lemma three_pods_ordinals:
  "list_all (\<lambda>p. case pod_ordinal p of Ok n \<Rightarrow> True | _ \<Rightarrow> False) three_pods"
  "map ordinal_of three_pods = [2, 0, 1]"
  by code_simp+

lemma three_pods_complete: "complete_pods three_pods"
proof -
  have "\<forall>p \<in> set three_pods. numbered p"
    unfolding numbered_def
  proof
    fix p assume "p \<in> set three_pods"
    then show "\<exists>n. pod_ordinal p = Ok n"
      using three_pods_ordinals(1) by (cases "pod_ordinal p") (auto simp: list_all_iff)
  qed
  moreover have "length three_pods = 3" by (simp add: three_pods_def)
  moreover have "{2, 0, 1} = {0 ..< 3 :: int}" by auto
  moreover have "ordinal_of ` set three_pods = set (map ordinal_of three_pods)" by simp
  ultimately show ?thesis by (simp only: complete_pods_def three_pods_ordinals(2)) simp
qed


definition plain_sts :: statefulset where
  "plain_sts =
     \<lparr>st_name = ''eds'', st_namespace = ''ns'', st_labels = Some [], st_annotations = None, st_owners = [],
      st_replicas = Some 3,
      st_template = \<lparr>pt_meta = \<lparr>em_labels = None, em_annotations = None\<rparr>, pt_spec = []\<rparr>,
      st_selector = Some [(''es-operator-dataset'', ''eds'')], st_service_name = [],
      st_pod_management_policy = [], st_update_strategy = [], st_volume_claims = [],
      st_update_revision = ''r2'', st_ready_replicas = 3\<rparr>"

definition old_pod :: pod where
  "old_pod = (pod_of ''eds-1'' ''10.0.0.2'')\<lparr>pod_labels := Some [(''controller-revision-hash'', ''r1'')]\<rparr>"

definition ready_nodes :: "(string \<times> node) list" where
  "ready_nodes = [(''n0'', \<lparr>nd_name = ''n0'', nd_labels = None, nd_unschedulable = False\<rparr>)]"

lemma old_pod_first:
  "prioritizePodsForUpdate [pod_of ''eds-0'' ''10.0.0.1'', old_pod] plain_sts (Some 3) ready_nodes [] =
   Ok [old_pod]"
  by code_simp

theorem next_pod_to_update_witness:
  "old_pod \<in> set [pod_of ''eds-0'' ''10.0.0.1'', old_pod] \<and> scheduled old_pod \<and>
   1 < pod_priority plain_sts (Some 3) ready_nodes [] old_pod"
  using next_pod_to_update [OF old_pod_first] by simp

end
