(* ===== verification/Operator.thy ===== *)
theory Operator
  imports Pods
begin

text \<open>
  operator/operator.go: the reconciliation of a stateful resource. The resource is an interface of
  the code: a record of its attributes and of the operations the operator calls. A getter fetches
  a fresh one. The backoff package, which repeats a check, is a parameter.
\<close>

section \<open>Interfaces\<close>

record stateful_resource =
  sr_name :: string
  sr_namespace :: string
  sr_api_version :: string
  sr_kind :: string
  sr_generation :: int64
  sr_uid :: string
  sr_labels :: gomap
  sr_label_selector :: gomap
  sr_replicas :: "int32 option"
  sr_pod_template :: pod_template
  sr_volume_claims :: "volume_claim list"
  sr_ensure_resources :: "unit io"
  sr_update_status :: "statefulset \<Rightarrow> unit io"
  sr_pre_scale_down :: "unit io"
  sr_on_stable :: "unit io"
  sr_drain :: "pod \<Rightarrow> unit io"

type_synonym getter = "stateful_resource io"

text \<open>A check, repeated until it succeeds, fails permanently or the time is over.\<close>

type_synonym backoff = "duration \<Rightarrow> unit io \<Rightarrow> unit io"

definition stabilizationTimeout :: duration where
  "stabilizationTimeout = 600000000000"

definition podEvictionHeadroom :: duration where
  "podEvictionHeadroom = 30000000000"

section \<open>Waiting\<close>

definition check_sts_replicas :: "statefulset \<Rightarrow> unit io" where
  "check_sts_replicas sts =
     io_bind (io_call (\<lambda>w tr. w_get_sts w tr (st_namespace sts) (st_name sts))
                (GetSts (st_namespace sts) (st_name sts))) (\<lambda>r.
       case r of
         Inl e \<Rightarrow> io_fail (Permanent e)
       | Inr newSts \<Rightarrow>
           (case st_replicas newSts of
              None \<Rightarrow> io_fail (Permanent UnknownReplicas)
            | Some n \<Rightarrow>
                if n \<noteq> st_ready_replicas newSts then io_fail (NotReady (st_ready_replicas newSts) n)
                else io_return ()))"

definition waitForStableStatefulSet :: "backoff \<Rightarrow> statefulset \<Rightarrow> unit io" where
  "waitForStableStatefulSet bo sts = bo stabilizationTimeout (check_sts_replicas sts)"

definition check_terminated :: "pod \<Rightarrow> unit io" where
  "check_terminated p =
     io_bind (io_call (\<lambda>w tr. w_get_pod w tr (pod_namespace p) (pod_name p))
                (GetPod (pod_namespace p) (pod_name p))) (\<lambda>r.
       case r of
         Inl e \<Rightarrow> if e = KubeNotFound then io_return () else io_fail e
       | Inr newpod \<Rightarrow> if pod_uid newpod = pod_uid p then io_fail NotTerminated else io_return ())"

definition waitForPodTermination :: "backoff \<Rightarrow> pod \<Rightarrow> unit io" where
  "waitForPodTermination bo p =
     (case pod_grace_seconds p of
        None \<Rightarrow> io_return ()
      | Some s \<Rightarrow> bo (s * 1000000000 + podEvictionHeadroom) (check_terminated p))"

section \<open>The StatefulSet\<close>

fun set_labels :: "gomap \<Rightarrow> (string \<times> string) list \<Rightarrow> (error, gomap) outcome" where
  "set_labels m [] = Ok m"
| "set_labels m ((k, v) # kvs) = bind_outcome (map_set m k v) (\<lambda>m'. set_labels m' kvs)"

fun inject_labels :: "gomap \<Rightarrow> (string \<times> string) list \<Rightarrow> (error, gomap) outcome" where
  "inject_labels m [] = Ok m"
| "inject_labels m ((k, v) # kvs) =
     (if map_get m k = None then bind_outcome (map_set m k v) (\<lambda>m'. inject_labels m' kvs)
      else inject_labels m kvs)"

definition templateInjectLabels :: "pod_template \<Rightarrow> gomap \<Rightarrow> (error, pod_template) outcome" where
  "templateInjectLabels template labels =
     (let start = (case em_labels (pt_meta template) of None \<Rightarrow> Some [] | m \<Rightarrow> m)
      in bind_outcome (inject_labels start (map_entries labels)) (\<lambda>m.
           Ok (template\<lparr>pt_meta := (pt_meta template)\<lparr>em_labels := m\<rparr>\<rparr>)))"

definition getSTSParentGeneration :: "statefulset \<Rightarrow> int64" where
  "getSTSParentGeneration sts =
     (case map_get (st_annotations sts) parent_generation_key of
        None \<Rightarrow> 0
      | Some g \<Rightarrow> (case atoi g of None \<Rightarrow> 0 | Some n \<Rightarrow> n))"

definition new_statefulset :: "stateful_resource \<Rightarrow> statefulset" where
  "new_statefulset sr =
     \<lparr>st_name = sr_name sr, st_namespace = sr_namespace sr, st_labels = sr_labels sr,
      st_annotations = Some [(parent_generation_key, show_int (sint (sr_generation sr)))],
      st_owners = [\<lparr>or_api_version = sr_api_version sr, or_kind = sr_kind sr, or_name = sr_name sr,
                    or_uid = sr_uid sr\<rparr>],
      st_replicas = sr_replicas sr,
      st_template = \<lparr>pt_meta = \<lparr>em_labels = None, em_annotations = None\<rparr>, pt_spec = []\<rparr>,
      st_selector = None, st_service_name = [], st_pod_management_policy = [], st_update_strategy = [],
      st_volume_claims = sr_volume_claims sr, st_update_revision = [], st_ready_replicas = 0\<rparr>"

definition desired_statefulset ::
  "stateful_resource \<Rightarrow> pod_template \<Rightarrow> gomap \<Rightarrow> statefulset \<Rightarrow> statefulset" where
  "desired_statefulset sr template labels sts =
     sts\<lparr>st_template := template, st_selector := sr_label_selector sr, st_service_name := sr_name sr,
         st_pod_management_policy := ''Parallel'', st_update_strategy := ''OnDelete'', st_labels := labels\<rparr>"

definition annotate_generation :: "stateful_resource \<Rightarrow> statefulset \<Rightarrow> statefulset" where
  "annotate_generation sr sts =
     (let kvs = (case st_annotations sts of None \<Rightarrow> [] | Some m \<Rightarrow> m)
      in sts\<lparr>st_annotations :=
           Some (AList.update parent_generation_key (show_int (sint (sr_generation sr))) kvs)\<rparr>)"

text \<open>The StatefulSet as it is, None when there is none; an error other than not-found ends here.\<close>

definition fetch_statefulset :: "stateful_resource \<Rightarrow> statefulset option io" where
  "fetch_statefulset sr =
     io_bind (io_call (\<lambda>w tr. w_get_sts w tr (sr_namespace sr) (sr_name sr))
                (GetSts (sr_namespace sr) (sr_name sr))) (\<lambda>r.
       case r of
         Inl e \<Rightarrow> if e \<noteq> KubeNotFound then io_fail e else io_return None
       | Inr sts \<Rightarrow>
           if \<not> isOwnedReference (sr_api_version sr) (sr_kind sr) (sr_uid sr) (sr_name sr) (st_owners sts)
           then io_fail (NotOwned ''StatefulSet'' (st_namespace sts) (st_name sts))
           else io_return (Some sts))"

definition reconcileStatefulset :: "getter \<Rightarrow> statefulset io" where
  "reconcileStatefulset get =
     io_bind get (\<lambda>sr.
     io_bind (fetch_statefulset sr) (\<lambda>existing.
     io_bind (io_lift (templateInjectLabels (sr_pod_template sr) (sr_label_selector sr))) (\<lambda>template.
       case existing of
         None \<Rightarrow>
           if (case sr_replicas sr of None \<Rightarrow> False | Some n \<Rightarrow> sint n < 1)
           then io_fail (RefusedReplicas (the (sr_replicas sr)))
           else io_bind (io_lift (set_labels (sr_labels sr) (map_entries (sr_labels sr)))) (\<lambda>labels.
                  let sts = desired_statefulset sr template labels (new_statefulset sr)
                  in io_bind (io_call (\<lambda>w tr. w_create_sts w tr sts) (CreateSts sts)) io_answer)
       | Some sts0 \<Rightarrow>
           io_bind (io_lift (set_labels (st_labels sts0) (map_entries (sr_labels sr)))) (\<lambda>labels.
             let sts = desired_statefulset sr template labels sts0
             in if getSTSParentGeneration sts \<noteq> sr_generation sr
                then (let sts' = annotate_generation sr sts
                      in io_bind (io_call (\<lambda>w tr. w_update_sts w tr sts') (UpdateSts sts')) io_answer)
                else io_return sts))))"

section \<open>Pods to update\<close>

definition getPodToUpdate ::
  "gomap \<Rightarrow> pod list \<Rightarrow> statefulset \<Rightarrow> stateful_resource \<Rightarrow> pod option io" where
  "getPodToUpdate selectors pods sts sr =
     (if pods = [] then io_return None
      else io_bind (io_call w_list_nodes ListNodes) (\<lambda>r.
           io_bind (io_answer r) (\<lambda>nodes.
             let (prioritizedNodes, unschedulableNodes) = getNodes selectors nodes
             in io_bind (io_lift (prioritizePodsForUpdate pods sts (sr_replicas sr)
                                    prioritizedNodes unschedulableNodes)) (\<lambda>prioritizedPods.
                  io_return (case prioritizedPods of [] \<Rightarrow> None | p # _ \<Rightarrow> Some p)))))"

definition annotatePod :: "pod \<Rightarrow> string \<Rightarrow> string \<Rightarrow> unit io" where
  "annotatePod p k v =
     (if map_get (pod_annotations p) k \<noteq> Some v
      then io_bind (io_call (\<lambda>w tr. w_patch_pod w tr (pod_namespace p) (pod_name p) k v)
                      (PatchPod (pod_namespace p) (pod_name p) k v)) io_answer
      else io_return ())"

section \<open>Rescaling\<close>

text \<open>Replica counts are Go's \<open>int\<close> here: sums and differences of 32-bit values, which it holds.\<close>

definition getDesiredReplicas :: "getter \<Rightarrow> (stateful_resource \<times> int option) io" where
  "getDesiredReplicas get =
     io_bind (io_wrap ''failed to refresh EDS'' get) (\<lambda>sr.
       io_return (sr, map_option sint (sr_replicas sr)))"

definition srScaleTarget :: "stateful_resource \<Rightarrow> int \<Rightarrow> int \<Rightarrow> int io" where
  "srScaleTarget sr currentReplicas replicaDiff =
     (if 0 < replicaDiff then io_return (currentReplicas + replicaDiff)
      else if currentReplicas = 0 then io_return 0
      else io_bind (sr_pre_scale_down sr) (\<lambda>_. io_return (currentReplicas - 1)))"

definition listStatefulSetPods :: "statefulset \<Rightarrow> pod list io" where
  "listStatefulSetPods sts =
     io_bind (io_call (\<lambda>w tr. w_list_pods w tr (st_namespace sts) (st_selector sts))
                (ListPods (st_namespace sts) (st_selector sts))) (\<lambda>r.
       io_bind (io_answer r) (\<lambda>pods. io_lift (sortStatefulSetPods pods)))"

fun drain_pods :: "backoff \<Rightarrow> statefulset \<Rightarrow> getter \<Rightarrow> int \<Rightarrow> pod list \<Rightarrow> unit io" where
  "drain_pods bo sts get desiredReplicas [] = io_return ()"
| "drain_pods bo sts get desiredReplicas (p # ps) =
     io_bind (getDesiredReplicas get) (\<lambda>(newSR, newDesired).
       case newDesired of
         None \<Rightarrow> io_return ()
       | Some n \<Rightarrow>
           if desiredReplicas < n then io_return ()
           else if pod_phase p = PodPending then drain_pods bo sts get desiredReplicas ps
           else io_bind (io_wrap ''StatefulSet is not stable'' (waitForStableStatefulSet bo sts)) (\<lambda>_.
                io_bind (io_wrap ''failed to drain pod'' (sr_drain newSR p)) (\<lambda>_.
                  drain_pods bo sts get desiredReplicas ps)))"

definition drainPodsForScaleDown ::
  "backoff \<Rightarrow> statefulset \<Rightarrow> getter \<Rightarrow> pod list \<Rightarrow> int \<Rightarrow> int \<Rightarrow> unit io" where
  "drainPodsForScaleDown bo sts get pods replicas desiredReplicas =
     (if int (length pods) \<le> replicas then io_return ()
      else if replicas < 0 then io_lift Panic
      else drain_pods bo sts get desiredReplicas (drop (nat replicas) pods))"

definition updateStatefulSetReplicas :: "backoff \<Rightarrow> statefulset \<Rightarrow> int \<Rightarrow> unit io" where
  "updateStatefulSetReplicas bo sts replicas =
     (let sts' = sts\<lparr>st_replicas := Some (word_of_int replicas)\<rparr>
      in io_bind (io_call (\<lambda>w tr. w_update_sts w tr sts') (UpdateSts sts')) (\<lambda>r.
         io_bind (io_wrap ''failed to update StatefulSet'' (io_answer r)) (\<lambda>_.
           io_wrap ''StatefulSet is not stable'' (waitForStableStatefulSet bo sts'))))"

definition rescaleStatefulSet :: "backoff \<Rightarrow> statefulset \<Rightarrow> getter \<Rightarrow> unit io" where
  "rescaleStatefulSet bo sts get =
     (let currentReplicas = sint (sts_replicas sts)
      in io_bind (getDesiredReplicas get) (\<lambda>(sr, desired).
           case desired of
             None \<Rightarrow> io_return ()
           | Some desiredReplicas \<Rightarrow>
               (let replicaDiff = desiredReplicas - currentReplicas
                in if replicaDiff = 0 then io_return ()
                   else io_bind (srScaleTarget sr currentReplicas replicaDiff) (\<lambda>replicas.
                        io_bind (listStatefulSetPods sts) (\<lambda>pods.
                        io_bind (drainPodsForScaleDown bo sts get pods replicas desiredReplicas) (\<lambda>_.
                          updateStatefulSetReplicas bo sts replicas))))))"

section \<open>Operating\<close>

definition delete_pod :: "pod \<Rightarrow> unit io" where
  "delete_pod p =
     io_bind (io_call (\<lambda>w tr. w_delete_pod w tr (pod_namespace p) (pod_name p) (pod_grace_seconds p))
                (DeletePod (pod_namespace p) (pod_name p) (pod_grace_seconds p))) io_answer"

text \<open>The second half of \<open>operatePods\<close>: one pod is updated.\<close>

definition update_pod :: "backoff \<Rightarrow> statefulset \<Rightarrow> stateful_resource \<Rightarrow> pod \<Rightarrow> unit io" where
  "update_pod bo sts sr p =
     io_bind (io_wrap ''StatefulSet is not stable'' (waitForStableStatefulSet bo sts)) (\<lambda>_.
     io_bind (io_wrap ''failed to mark Pod draining'' (annotatePod p draining_key ''true'')) (\<lambda>_.
     io_bind (io_wrap ''failed to drain Pod'' (sr_drain sr p)) (\<lambda>_.
     io_bind (io_wrap ''failed to delete Pod'' (delete_pod p)) (\<lambda>_.
     io_bind (io_try (waitForPodTermination bo p)) (\<lambda>_.
       sr_on_stable sr)))))"

definition operatePods :: "backoff \<Rightarrow> gomap \<Rightarrow> statefulset \<Rightarrow> getter \<Rightarrow> unit io" where
  "operatePods bo selectors sts get =
     io_bind (io_wrap ''failed to refresh EDS'' get) (\<lambda>sr.
       let replicas = sts_replicas sts
       in if (case sr_replicas sr of None \<Rightarrow> False | Some d \<Rightarrow> sint replicas < sint d)
          then io_bind (io_wrap ''failed to rescale StatefulSet'' (rescaleStatefulSet bo sts get)) (\<lambda>_.
                 sr_on_stable sr)
          else io_bind (io_call (\<lambda>w tr. w_list_pods w tr (sr_namespace sr) (sr_label_selector sr))
                          (ListPods (sr_namespace sr) (sr_label_selector sr))) (\<lambda>r.
               io_bind (io_wrap ''failed to list pods'' (io_answer r)) (\<lambda>pods.
               io_bind (io_wrap ''failed to get Pod to update'' (getPodToUpdate selectors pods sts sr)) (\<lambda>next.
                 case next of
                   None \<Rightarrow>
                     io_bind (io_wrap ''failed to rescale StatefulSet'' (rescaleStatefulSet bo sts get)) (\<lambda>_.
                     io_bind (io_wrap ''StatefulSet is not stable'' (waitForStableStatefulSet bo sts)) (\<lambda>_.
                       sr_on_stable sr))
                 | Some p \<Rightarrow>
                     if sr_replicas sr = Some replicas
                     then (let sts' = sts\<lparr>st_replicas := Some (replicas + 1)\<rparr>
                           in io_bind (io_call (\<lambda>w tr. w_update_sts w tr sts') (UpdateSts sts')) (\<lambda>r.
                              io_bind (io_wrap ''failed to scale StatefulSet'' (io_answer r)) (\<lambda>_.
                                update_pod bo sts' sr p)))
                     else update_pod bo sts sr p))))"

definition operate :: "backoff \<Rightarrow> gomap \<Rightarrow> getter \<Rightarrow> unit io" where
  "operate bo selectors get =
     io_bind (io_wrap ''failed to refresh EDS resource'' get) (\<lambda>sr.
     io_bind (io_wrap ''failed to ensure resources'' (sr_ensure_resources sr)) (\<lambda>_.
     io_bind (io_wrap ''failed to reconcile StatefulSet'' (reconcileStatefulset get)) (\<lambda>sts.
     io_bind (io_wrap ''failed to update status'' (sr_update_status sr sts)) (\<lambda>_.
       operatePods bo selectors sts get))))"

end
