(* ===== verification/NodeMath.thy ===== *)
theory NodeMath
  imports GoFloat
begin

text \<open>
  The node-count arithmetic at the end of operator/autoscaler.go: the shard-to-node ratio and
  the three functions that derive a new number of nodes from it, in float64 as the code
  computes them. The lemmas give the exact integer each returns, for node counts of a realistic
  size, and bound the one function whose rounding is visible.
\<close>

section \<open>Definitions\<close>

definition shardToNodeRatio :: "int32 \<Rightarrow> int32 \<Rightarrow> f64" where
  "shardToNodeRatio shards nodes = fdiv (f64_of_int (sint shards)) (f64_of_int (sint nodes))"

definition calculateNodesWithSameShardToNodeRatio ::
  "(f64 \<Rightarrow> int32) \<Rightarrow> int32 \<Rightarrow> int32 \<Rightarrow> int32 \<Rightarrow> int32" where
  "calculateNodesWithSameShardToNodeRatio cv currentDesiredNodeReplicas currentTotalShards newTotalShards =
     (let currentShardToNodeRatio =
            fmax (shardToNodeRatio currentTotalShards currentDesiredNodeReplicas) (f64_of_int 1)
      in f64_to_int32 cv (fceil (fdiv (f64_of_int (sint newTotalShards)) currentShardToNodeRatio)))"

text \<open>The constant 0.00001 of the source, converted to float64.\<close>

definition ratio_eps :: f64 where
  "ratio_eps = mk_f64 False (1 / 100000)"

definition calculateDecreasedNodes :: "(f64 \<Rightarrow> int32) \<Rightarrow> int32 \<Rightarrow> int32 \<Rightarrow> int32" where
  "calculateDecreasedNodes cv currentDesiredNodeReplicas currentTotalShards =
     (let currentShardToNodeRatio = shardToNodeRatio currentTotalShards currentDesiredNodeReplicas;
          newDesiredNodes =
            f64_to_int32 cv
              (fmin (fsub (f64_of_int (sint currentDesiredNodeReplicas)) (f64_of_int 1))
                 (fceil (fdiv (f64_of_int (sint currentTotalShards))
                    (fceil (fadd currentShardToNodeRatio ratio_eps)))))
      in if sint newDesiredNodes \<le> 1 then 1 else newDesiredNodes)"

definition calculateIncreasedNodes :: "(f64 \<Rightarrow> int32) \<Rightarrow> int32 \<Rightarrow> int32 \<Rightarrow> int32" where
  "calculateIncreasedNodes cv currentDesiredNodeReplicas currentTotalShards =
     (let currentShardToNodeRatio = shardToNodeRatio currentTotalShards currentDesiredNodeReplicas
      in if fle currentShardToNodeRatio (f64_of_int 1) then currentTotalShards
         else f64_to_int32 cv
                (fceil (fdiv (f64_of_int (sint currentTotalShards))
                   (ffloor (fsub currentShardToNodeRatio ratio_eps)))))"

section \<open>The ratio, compared with an integer\<close>

lemma f64_of_int_1: "f64_of_int 1 = Fin 1"
  by simp

lemma ratio_Fin:
  "0 < sint nodes \<Longrightarrow>
   shardToNodeRatio shards nodes = Fin (rnd (of_int (sint shards) / of_int (sint nodes)))"
  by (simp add: shardToNodeRatio_def)

lemma ratio_greater_iff:
  "0 < sint nodes \<Longrightarrow> flt (f64_of_int (sint (k :: int32))) (shardToNodeRatio shards nodes) \<longleftrightarrow>
   sint k * sint nodes < sint shards"
  using rnd_quot_le_iff [of "sint nodes" "sint shards" "sint k"]
  by (auto simp: ratio_Fin)

lemma ratio_le_iff:
  "0 < sint nodes \<Longrightarrow> fle (shardToNodeRatio shards nodes) (f64_of_int (sint (k :: int32))) \<longleftrightarrow>
   sint shards \<le> sint k * sint nodes"
  using rnd_quot_le_iff [of "sint nodes" "sint shards" "sint k"]
  by (auto simp: fle_def is_nan_def ratio_Fin)

lemma ratio_ge_iff:
  "0 < sint nodes \<Longrightarrow> fle (f64_of_int (sint (k :: int32))) (shardToNodeRatio shards nodes) \<longleftrightarrow>
   sint k * sint nodes \<le> sint shards"
  using rnd_quot_ge_iff [of "sint nodes" "sint shards" "sint k"]
  by (auto simp: ratio_Fin fle_def is_nan_def)

lemma ratio_le_one_iff:
  "0 < sint nodes \<Longrightarrow> fle (shardToNodeRatio shards nodes) (f64_of_int 1) \<longleftrightarrow> sint shards \<le> sint nodes"
  using rnd_quot_le_iff [of "sint nodes" "sint shards" 1]
  by (auto simp: fle_def is_nan_def ratio_Fin)

text \<open>Dividing two 32-bit integers and rounding up is exact.\<close>

lemma ceil_fdiv:
  assumes "0 < b" "i50 b" "0 \<le> a" "i50 a"
  shows "fceil (fdiv (Fin (of_int a)) (Fin (of_int b))) = Fin (of_int (ceil_quot a b))"
proof -
  have "of_int 0 \<le> rnd (of_int a / of_int b)"
    by (subst rnd_quot_ge_iff) (use assms in auto)
  then show ?thesis using assms ceiling_rnd_quot [of b a] by (simp)
qed

lemma ceil_fdiv_int32:
  assumes "0 < b" "i50 b" "0 \<le> a" "a < 2147483648"
  shows "f64_to_int32 cv (fceil (fdiv (Fin (of_int a)) (Fin (of_int b)))) = word_of_int (ceil_quot a b)"
proof -
  have "i50 a" using assms(3,4) by (simp add: i50_def)
  then have "fceil (fdiv (Fin (of_int a)) (Fin (of_int b))) = Fin (of_int (ceil_quot a b))"
    by (rule ceil_fdiv [OF assms(1-3)])
  moreover have "0 \<le> ceil_quot a b" "ceil_quot a b \<le> a"
    by (rule ceil_quot_nonneg ceil_quot_le_self, use assms in auto)+
  ultimately show ?thesis using assms f64_to_int32_int [of "ceil_quot a b" cv] by simp
qed

lemma ceil_ratio:
  assumes "0 < sint nodes" "0 \<le> sint shards"
  shows "f64_to_int32 cv (fceil (shardToNodeRatio shards nodes)) =
    word_of_int (ceil_quot (sint shards) (sint nodes))"
  using assms sint32_upper [of shards] ceil_fdiv_int32 [of "sint nodes" "sint shards" cv]
  by (simp add: shardToNodeRatio_def)

section \<open>The epsilon of 0.00001\<close>

lemma normal_if_ge:
  assumes "1 / 1000000 \<le> \<bar>r :: rat\<bar>"
  shows "2 powi (- 1022) \<le> \<bar>r\<bar>"
proof -
  have "(2::rat) powi (- 1022) \<le> 2 powi (- 20)" by (rule power_int_increasing) auto
  also have "\<dots> \<le> 1 / 1000000" by (simp add: power_int_minus)
  finally show ?thesis using assms by linarith
qed

lemma ratio_eps_bounds:
  "\<exists>e. ratio_eps = Fin e \<and> 9 / 1000000 \<le> e \<and> e \<le> 11 / 1000000"
proof -
  let ?r = "1 / 100000 :: rat"
  have n: "2 powi (- 1022) \<le> \<bar>?r\<bar>" by (rule normal_if_ge) simp
  have "\<bar>rnd ?r - ?r\<bar> \<le> \<bar>?r\<bar> / 2 ^ 53" by (rule rnd_error [OF n])
  also have "\<dots> \<le> 1 / 1000000" by simp
  finally have b: "9 / 1000000 \<le> rnd ?r" "rnd ?r \<le> 11 / 1000000" by linarith+
  moreover have "(1::rat) < f64_limit"
    using int_below_limit [of 1] by simp
  ultimately have "ratio_eps = Fin (rnd ?r)"
    unfolding ratio_eps_def using rnd_minus_pos_iff(3) [OF n] by (intro mk_f64_Fin) auto
  with b show ?thesis by blast
qed

text \<open>
  A sum of floats in the range of the node arithmetic, computed with one more rounding.
\<close>

lemma fadd_Fin_range:
  assumes "1 / 1000000 \<le> y" "y \<le> 4294967296" and y: "y = u + v"
  shows "\<exists>z. fadd (Fin u) (Fin v) = Fin z \<and> \<bar>z - y\<bar> \<le> 1 / 1000000"
proof (intro exI conjI)
  have n: "2 powi (- 1022) \<le> \<bar>y\<bar>" by (rule normal_if_ge) (use assms in simp)
  have err: "\<bar>rnd y - y\<bar> \<le> \<bar>y\<bar> / 2 ^ 53" by (rule rnd_error [OF n])
  also have "\<dots> \<le> 4294967296 / 2 ^ 53" using assms(1,2) by (intro divide_right_mono) auto
  also have "\<dots> \<le> 1 / 1000000" by simp
  finally show e: "\<bar>rnd y - y\<bar> \<le> 1 / 1000000" .
  have "\<bar>rnd y\<bar> < 4294967296 + 1" using e assms(1,2) by linarith
  also have "\<dots> < of_int (2 ^ 33)" by simp
  also have "\<dots> < f64_limit" using int_below_limit [of "2 ^ 33"] by simp
  finally show "fadd (Fin u) (Fin v) = Fin (rnd y)"
    using rnd_minus_pos_iff(3) [OF n] by (simp add: fadd.simps mk_f64_Fin y)
qed

lemma fneg_Fin: "r \<noteq> 0 \<Longrightarrow> fneg (Fin r) = Fin (- r)"
  by simp

lemma rnd_quot_close:
  assumes "0 < b" "i50 b" "0 \<le> a" "a < 2147483648"
  shows "\<bar>rnd (of_int a / of_int b) - of_int a / of_int b\<bar> \<le> 1 / 1000000"
proof -
  have bq: "1 \<le> (of_int b :: rat)" using assms(1) by simp
  have "(of_int a :: rat) \<le> of_int (2147483648)" using assms(4) by (simp only: of_int_le_iff)
  then have aq: "of_int a / of_int b \<le> (2147483648 :: rat)" "0 \<le> of_int a / (of_int b :: rat)"
    using bq assms(3) by (auto simp: divide_le_eq intro: order_trans)
  have "\<bar>rnd (of_int a / of_int b) - of_int a / of_int b\<bar> \<le> \<bar>of_int a / of_int b\<bar> / 2 ^ 53"
    by (rule rnd_quot_error) (use assms i50_D in auto)
  also have "\<dots> \<le> 2147483648 / 2 ^ 53" using aq by (intro divide_right_mono) auto
  also have "\<dots> \<le> 1 / 1000000" by simp
  finally show ?thesis .
qed

text \<open>
  With at most 50000 nodes two distinct ratios, and a ratio and an integer, are at least 0.00002
  apart: the epsilon separates integer ratios from the rest and moves nothing else.
\<close>

lemma quot_gap:
  assumes "0 < b" "b \<le> 50000" "k * b < (a::int)"
  shows "of_int k + 2 / 100000 \<le> (of_int a / of_int b :: rat)"
proof -
  have bq: "0 < (of_int b :: rat)" "of_int b \<le> (50000 :: rat)" using assms by simp_all
  have "of_int k * of_int b + 1 \<le> (of_int a :: rat)"
    using assms(3) by (metis of_int_1 of_int_add of_int_le_iff of_int_mult zless_imp_add1_zle)
  moreover have "2 / 100000 * of_int b \<le> (1 :: rat)" using bq(2) by simp
  ultimately have "(of_int k + 2 / 100000) * of_int b \<le> (of_int a :: rat)"
    by (simp add: algebra_simps)
  then show ?thesis using bq(1) by (simp add: pos_le_divide_eq)
qed

lemma quot_gap_above:
  assumes "0 < b" "b \<le> 50000" "(a::int) < k * b"
  shows "(of_int a / of_int b :: rat) \<le> of_int k - 2 / 100000"
  using quot_gap [of b "- k" "- a"] assms by simp

lemma floor_ratio_minus_eps:
  assumes "0 < b" "b \<le> 50000" "b < a" "a < 2147483648"
  shows "ffloor (fsub (Fin (rnd (of_int a / of_int b))) ratio_eps) =
    Fin (of_int (ceil_quot a b - 1))"
proof -
  let ?r = "of_int a / of_int b :: rat" and ?k = "ceil_quot a b - 1"
  obtain e where e: "ratio_eps = Fin e" "9 / 1000000 \<le> e" "e \<le> 11 / 1000000"
    using ratio_eps_bounds by blast
  have close: "\<bar>rnd ?r - ?r\<bar> \<le> 1 / 1000000"
    by (rule rnd_quot_close) (use assms in \<open>auto simp: i50_def\<close>)
  have k1: "1 \<le> ?k" using less_ceil_quot_iff [OF assms(1), of 1 a] assms(3) by simp
  have "?k * b < a" using less_ceil_quot_iff [OF assms(1), of ?k a] by simp
  then have lo: "of_int ?k + 2 / 100000 \<le> ?r" by (rule quot_gap [OF assms(1,2)])
  have hi: "?r \<le> of_int ?k + 1"
    by (simp add: ceil_quot_ceiling)
  have "?k \<le> 2147483648" using ceil_quot_le_self [OF assms(1), of a] assms by simp
  then have "(of_int ?k :: rat) \<le> of_int (2147483648)" by (simp only: of_int_le_iff)
  then have kq: "1 \<le> (of_int ?k :: rat)" "of_int ?k \<le> (2147483648 :: rat)"
    using k1 by simp_all
  let ?y = "rnd ?r + - e"
  have y: "1 / 1000000 \<le> ?y" "?y \<le> 4294967296" using close e lo hi kq by linarith+
  obtain z where z: "fadd (Fin (rnd ?r)) (Fin (- e)) = Fin z" "\<bar>z - ?y\<bar> \<le> 1 / 1000000"
    using fadd_Fin_range [OF y refl] by blast
  have "of_int ?k \<le> z" "z < of_int ?k + 1" using z(2) close e lo hi by linarith+
  then have "\<lfloor>z\<rfloor> = ?k" by (rule floor_unique)
  moreover have "fneg (Fin e) = Fin (- e)" using e(2) by simp
  ultimately show ?thesis using z(1) by (simp add: fsub_def e(1))
qed

lemma ceil_ratio_plus_eps:
  assumes "0 < b" "b \<le> 50000" "0 \<le> a" "a < 2147483648"
  shows "fceil (fadd (Fin (rnd (of_int a / of_int b))) ratio_eps) = Fin (of_int (a div b + 1))"
proof -
  let ?r = "of_int a / of_int b :: rat" and ?k = "a div b"
  obtain e where e: "ratio_eps = Fin e" "9 / 1000000 \<le> e" "e \<le> 11 / 1000000"
    using ratio_eps_bounds by blast
  have close: "\<bar>rnd ?r - ?r\<bar> \<le> 1 / 1000000"
    by (rule rnd_quot_close) (use assms in \<open>auto simp: i50_def\<close>)
  have k0: "0 \<le> ?k" using assms by (simp add: pos_imp_zdiv_nonneg_iff)
  have lo: "of_int ?k \<le> ?r" by (metis floor_divide_of_int_eq of_int_floor_le)
  have "a < (?k + 1) * b"
    using pos_mod_bound [OF assms(1), of a] minus_mod_eq_div_mult [of a b]
    unfolding distrib_right by linarith
  then have hi: "?r \<le> of_int (?k + 1) - 2 / 100000" by (rule quot_gap_above [OF assms(1,2)])
  have "?k \<le> 2147483648" using div_abs [OF assms(1), of a "2147483648"] assms by simp
  then have "(of_int ?k :: rat) \<le> of_int (2147483648)" by (simp only: of_int_le_iff)
  then have kq: "0 \<le> (of_int ?k :: rat)" "of_int ?k \<le> (2147483648 :: rat)" using k0 by simp_all
  let ?y = "rnd ?r + e"
  have hi': "?r \<le> of_int ?k + 1 - 2 / 100000" using hi by simp
  have y: "1 / 1000000 \<le> ?y" "?y \<le> 4294967296" using close e lo hi' kq by linarith+
  obtain z where z: "fadd (Fin (rnd ?r)) (Fin e) = Fin z" "\<bar>z - ?y\<bar> \<le> 1 / 1000000"
    using fadd_Fin_range [OF y refl] by blast
  have zb: "of_int (?k + 1) - 1 < z" "z \<le> of_int (?k + 1)" "0 < z"
    using z(2) close e lo hi' kq by (simp_all only: of_int_add of_int_1)
  then have "\<lceil>z\<rceil> = ?k + 1" by (intro ceiling_unique)
  then show ?thesis using e z(1) zb(3) by (simp)
qed

section \<open>The exact results\<close>

text \<open>
  A scale-up by nodes takes the next smaller integer shard-to-node ratio and rounds the node
  count up: with t shards on n nodes, n < t, the new count is the ceiling of
  t / (ceiling (t / n) - 1).
\<close>

lemma calculateIncreasedNodes_exact:
  assumes "0 < sint n" "sint n \<le> 50000" "sint n < sint t"
  shows "calculateIncreasedNodes cv n t =
    word_of_int (ceil_quot (sint t) (ceil_quot (sint t) (sint n) - 1))"
proof -
  let ?k = "ceil_quot (sint t) (sint n) - 1"
  have t: "0 \<le> sint t" "sint t < 2147483648" using assms sint32_upper [of t] by linarith+
  have k: "0 < ?k" using less_ceil_quot_iff [OF assms(1), of 1 "sint t"] assms(3) by simp
  have "?k \<le> sint t" using ceil_quot_le_self [OF assms(1) t(1)] by simp
  then have i: "i50 ?k" using k t(2) by (simp add: i50_def)
  have fl: "ffloor (fsub (shardToNodeRatio t n) ratio_eps) = Fin (of_int ?k)"
    using floor_ratio_minus_eps [OF assms t(2)] assms(1) by (simp add: ratio_Fin)
  have "\<not> fle (shardToNodeRatio t n) (f64_of_int 1)"
    using ratio_le_one_iff [OF assms(1), of t] assms(3) by simp
  then have "calculateIncreasedNodes cv n t =
    f64_to_int32 cv (fceil (fdiv (f64_of_int (sint t)) (ffloor (fsub (shardToNodeRatio t n) ratio_eps))))"
    by (simp only: calculateIncreasedNodes_def Let_def if_False)
  also have "\<dots> = word_of_int (ceil_quot (sint t) ?k)"
    unfolding fl f64_of_int [OF i50_sint32] by (rule ceil_fdiv_int32 [OF k i t])
  finally show ?thesis .
qed

lemma calculateIncreasedNodes_few_shards:
  assumes "0 < sint n" "sint t \<le> sint n"
  shows "calculateIncreasedNodes cv n t = t"
  using assms ratio_le_one_iff [of n t] by (simp add: calculateIncreasedNodes_def Let_def)

lemma calculateIncreasedNodes_sint:
  assumes "0 < sint n" "sint n \<le> 50000" "sint n < sint t"
  shows "sint (calculateIncreasedNodes cv n t) = ceil_quot (sint t) (ceil_quot (sint t) (sint n) - 1)"
proof -
  let ?k = "ceil_quot (sint t) (sint n) - 1"
  have t: "0 \<le> sint t" "sint t < 2147483648" using assms sint32_upper [of t] by linarith+
  have k: "0 < ?k" using less_ceil_quot_iff [OF assms(1), of 1 "sint t"] assms(3) by simp
  show ?thesis
    using ceil_quot_nonneg [OF k t(1)] ceil_quot_le_self [OF k t(1)] t(2)
    by (simp add: calculateIncreasedNodes_exact [OF assms] sint32_word_of_int)
qed

lemma calculateIncreasedNodes_grows:
  assumes "0 < sint n" "sint n \<le> 50000" "sint n < sint t"
  shows "sint n < sint (calculateIncreasedNodes cv n t)"
    "sint (calculateIncreasedNodes cv n t) \<le> sint t"
proof -
  let ?k = "ceil_quot (sint t) (sint n) - 1"
  have k: "0 < ?k" using less_ceil_quot_iff [OF assms(1), of 1 "sint t"] assms(3) by simp
  have "?k * sint n < sint t" using less_ceil_quot_iff [OF assms(1), of ?k "sint t"] by simp
  then show "sint n < sint (calculateIncreasedNodes cv n t)"
    using less_ceil_quot_iff [OF k] by (simp add: calculateIncreasedNodes_sint [OF assms] mult.commute)
  show "sint (calculateIncreasedNodes cv n t) \<le> sint t"
    using ceil_quot_le_self [OF k, of "sint t"] assms
    by (simp add: calculateIncreasedNodes_sint [OF assms])
qed

text \<open>
  A scale-down by nodes takes the next larger integer ratio, but removes at least one node and
  keeps at least one.
\<close>

definition decreased_nodes :: "int \<Rightarrow> int \<Rightarrow> int" where
  "decreased_nodes n t = max 1 (min (n - 1) (ceil_quot t (t div n + 1)))"

lemma calculateDecreasedNodes_exact:
  assumes "0 < sint n" "sint n \<le> 50000" "0 \<le> sint t"
  shows "sint (calculateDecreasedNodes cv n t) = decreased_nodes (sint n) (sint t)"
proof -
  let ?k = "sint t div sint n + 1" and ?q = "ceil_quot (sint t) (sint t div sint n + 1)"
  have t: "sint t < 2147483648" by (rule sint32_upper)
  have k: "0 < ?k" using assms by (simp add: pos_imp_zdiv_nonneg_iff)
  have "sint t div sint n \<le> sint t" using div_abs [OF assms(1), of "sint t" "sint t"] assms(3) by simp
  then have i: "i50 ?k" using k t by (simp add: i50_def)
  have ce: "fceil (fadd (shardToNodeRatio t n) ratio_eps) = Fin (of_int ?k)"
    using ceil_ratio_plus_eps [OF assms t] assms(1) by (simp add: ratio_Fin)
  have q: "fceil (fdiv (Fin (of_int (sint t))) (Fin (of_int ?k))) = Fin (of_int ?q)"
    by (rule ceil_fdiv) (use k i assms(3) in auto)
  have qb: "0 \<le> ?q" "?q \<le> sint t"
    using ceil_quot_nonneg [OF k assms(3)] ceil_quot_le_self [OF k assms(3)] .
  have n1: "fsub (Fin (of_int (sint n))) (Fin 1) = Fin (of_int (sint n - 1))"
  proof -
    have i: "i50 (sint n - 1)" using assms(1,2) by (simp add: i50_def)
    show ?thesis
    proof (cases "sint n = 1")
      case False
      then have "(of_int (sint n - 1) :: rat) \<noteq> 0" by (simp only: of_int_eq_0_iff)
      then have "mk_f64 False (of_int (sint n - 1)) = Fin (of_int (sint n - 1))"
        using f64_of_int [OF i] by (simp add: f64_of_int_def)
      then show ?thesis by (simp add: fsub_def fadd.simps)
    qed (simp add: fsub_def fadd.simps mk_f64_def)
  qed
  have mn: "fmin (Fin (of_int a)) (Fin (of_int b)) = Fin (of_int (min a b))" for a b :: int
    by (auto simp: fmin_def is_nan_def is_zero_def min_def)
  have b: "- 2147483648 \<le> min (sint n - 1) ?q" "min (sint n - 1) ?q < 2147483648"
    using qb assms(1,2) t by auto
  have "f64_to_int32 cv (fmin (fsub (f64_of_int (sint n)) (f64_of_int 1))
      (fceil (fdiv (f64_of_int (sint t)) (fceil (fadd (shardToNodeRatio t n) ratio_eps))))) =
    word_of_int (min (sint n - 1) ?q)"
    unfolding ce f64_of_int [OF i50_sint32] f64_of_int_1 n1 q mn by (rule f64_to_int32_int [OF b])
  then have "calculateDecreasedNodes cv n t =
    (if min (sint n - 1) ?q \<le> 1 then 1 else word_of_int (min (sint n - 1) ?q))"
    using sint32_word_of_int [OF b] by (simp add: calculateDecreasedNodes_def Let_def)
  then show ?thesis
    using sint32_word_of_int [OF b] by (auto simp: decreased_nodes_def max_def)
qed

lemma decreased_nodes_bounds:
  "1 \<le> decreased_nodes n t" "2 \<le> n \<Longrightarrow> decreased_nodes n t < n"
  by (auto simp: decreased_nodes_def)

section \<open>Keeping the ratio\<close>

text \<open>
  \<open>calculateNodesWithSameShardToNodeRatio\<close> divides by a ratio that is itself rounded, so its
  result is the exact ceiling of newTotalShards * nodes / totalShards or, where that quotient is
  an integer, possibly one more.
\<close>

definition same_ratio_nodes :: "int \<Rightarrow> int \<Rightarrow> int \<Rightarrow> int" where
  "same_ratio_nodes n t u = (if t \<le> n then u else ceil_quot (u * n) t)"

lemma same_ratio_few_shards:
  assumes "0 < sint n" "sint t \<le> sint n" "0 \<le> sint u"
  shows "calculateNodesWithSameShardToNodeRatio cv n t u = u"
proof -
  have le: "rnd (of_int (sint t) / of_int (sint n)) \<le> of_int 1"
    by (subst rnd_quot_le_iff) (use assms in auto)
  have "fmax (Fin r) (Fin 1) = Fin 1" if "r \<le> 1" for r
    using that by (auto simp: fmax_def is_nan_def is_zero_def)
  with le have m: "fmax (shardToNodeRatio t n) (Fin 1) = Fin 1"
    using assms(1) by (simp add: ratio_Fin)
  have "ceil_quot (sint u) 1 = sint u" by (simp add: ceil_quot_def)
  then show ?thesis
    using ceil_fdiv_int32 [of 1 "sint u" cv] assms(3) sint32_upper [of u]
    by (simp add: calculateNodesWithSameShardToNodeRatio_def m)
qed

lemma double_rounding_close:
  assumes "0 < x" "x < 2 ^ 50" "0 < R" "\<bar>R - r\<bar> \<le> r / 2 ^ 53" "0 < (r::rat)"
    and "\<bar>q - x * r / R\<bar> \<le> x * r / R / 2 ^ 53"
  shows "\<bar>q - x\<bar> \<le> x / 2 ^ 51"
proof -
  let ?u = "1 / 2 ^ 53 :: rat"
  have abs1: "R - r \<le> r / 2 ^ 53" "r - R \<le> r / 2 ^ 53" using assms(4) by linarith+
  have R: "r * (1 - ?u) \<le> R" "R \<le> r * (1 + ?u)" using abs1 by (simp_all add: algebra_simps)
  have "r / R \<le> 1 / (1 - ?u)" using R(1) assms(3,5) by (simp add: divide_simps mult.commute)
  moreover have "1 / (1 + ?u) \<le> r / R" using R(2) assms(3,5) by (simp add: divide_simps mult.commute)
  moreover have "1 / (1 - ?u) \<le> 1 + 3 / 2 * ?u" "1 - 3 / 2 * ?u \<le> 1 / (1 + ?u)" by simp_all
  ultimately have f: "r / R \<le> 1 + 3 / 2 * ?u" "1 - 3 / 2 * ?u \<le> r / R" by linarith+
  let ?y = "x * (r / R)"
  have y: "?y \<le> x * (1 + 3 / 2 * ?u)" "x * (1 - 3 / 2 * ?u) \<le> ?y"
    using f assms(1) by (simp_all only: mult_left_mono less_imp_le)
  have "?y / 2 ^ 53 \<le> x * (1 + 3 / 2 * ?u) / 2 ^ 53" using y(1) by (intro divide_right_mono) auto
  moreover have "\<bar>q - ?y\<bar> \<le> ?y / 2 ^ 53" using assms(6) by simp
  ultimately have q: "\<bar>q - ?y\<bar> \<le> x * (1 + 3 / 2 * ?u) / 2 ^ 53" by linarith
  have "q - x \<le> x * (1 + 3 / 2 * ?u) / 2 ^ 53 + x * (3 / 2 * ?u)"
    "x - q \<le> x * (1 + 3 / 2 * ?u) / 2 ^ 53 + x * (3 / 2 * ?u)"
  proof -
    have "?y \<le> x + x * (3 / 2 * ?u)" "x - x * (3 / 2 * ?u) \<le> ?y"
      using y by (simp_all only: distrib_left right_diff_distrib mult_1_right)
    moreover have "q - ?y \<le> x * (1 + 3 / 2 * ?u) / 2 ^ 53" "?y - q \<le> x * (1 + 3 / 2 * ?u) / 2 ^ 53"
      using q by linarith+
    ultimately show "q - x \<le> x * (1 + 3 / 2 * ?u) / 2 ^ 53 + x * (3 / 2 * ?u)"
      "x - q \<le> x * (1 + 3 / 2 * ?u) / 2 ^ 53 + x * (3 / 2 * ?u)"
      by linarith+
  qed
  moreover have "x * (1 + 3 / 2 * ?u) / 2 ^ 53 + x * (3 / 2 * ?u) \<le> x / 2 ^ 51"
    using assms(1) by simp
  ultimately show ?thesis by linarith
qed

lemma ceiling_near_quot:
  assumes t: "0 < t" and q: "\<bar>q - of_int m / of_int t\<bar> * (2 * of_int t) < (1 :: rat)"
  shows "\<lceil>q\<rceil> = ceil_quot m t \<or> (t dvd m \<and> \<lceil>q\<rceil> = ceil_quot m t + 1)"
proof -
  let ?x = "of_int m / of_int t :: rat" and ?z = "ceil_quot m t"
  have tq: "0 < (of_int t :: rat)" "1 \<le> (of_int t :: rat)" using t by simp_all
  have dq: "\<bar>q - ?x\<bar> < 1 / (2 * of_int t)" using q tq by (simp add: pos_less_divide_eq)
  have "1 / (2 * of_int t) \<le> (1 / 2 :: rat)" using tq by (simp add: divide_simps)
  with dq have half: "\<bar>q - ?x\<bar> < 1 / 2" by linarith
  have up: "?x \<le> of_int ?z" "of_int ?z - 1 < ?x"
    using ceiling_correct [of ?x] by (simp_all add: ceil_quot_ceiling)
  have "(?z - 1) * t + 1 \<le> m" using less_ceil_quot_iff [OF t, of "?z - 1" m] by simp
  then have "of_int ((?z - 1) * t + 1) \<le> (of_int m :: rat)" by (simp only: of_int_le_iff)
  then have "(of_int ?z - 1) * of_int t \<le> (of_int m - 1 :: rat)" by (simp add: algebra_simps)
  then have "of_int ?z - 1 \<le> (of_int m - 1) / (of_int t :: rat)"
    by (simp only: pos_le_divide_eq [OF tq(1)])
  then have "(of_int ?z - 1) + 1 / of_int t \<le> ?x" by (simp add: diff_divide_distrib)
  moreover have "1 / (2 * of_int t) < 1 / (of_int t :: rat)" using tq by (simp add: divide_simps)
  ultimately have lo: "of_int ?z - 1 < q" using dq by linarith
  show ?thesis
  proof (cases "t dvd m")
    case True
    then have "?x = of_int ?z" using t by (auto simp: ceil_quot_ceiling)
    with half have "q < of_int ?z + 1" by linarith
    then have "\<lceil>q\<rceil> = ?z \<or> \<lceil>q\<rceil> = ?z + 1"
      using lo by (auto simp: ceiling_eq_iff)
    with True show ?thesis by blast
  next
    case False
    have "m \<le> ?z * t" using ceil_quot_le_iff [OF t, of m ?z] by simp
    moreover have "m \<noteq> ?z * t" using False by (metis dvd_triv_right)
    ultimately have "of_int (m + 1) \<le> (of_int (?z * t) :: rat)" by (simp only: of_int_le_iff)
    then have "(of_int m + 1) / of_int t \<le> (of_int ?z :: rat)"
      using tq by (simp add: pos_divide_le_eq)
    then have "?x + 1 / of_int t \<le> of_int ?z" by (simp add: add_divide_distrib)
    moreover have "1 / (2 * of_int t) < 1 / (of_int t :: rat)" using tq by (simp add: divide_simps)
    ultimately have "q \<le> of_int ?z" using dq by linarith
    with lo have "\<lceil>q\<rceil> = ?z" by (intro ceiling_unique)
    then show ?thesis by blast
  qed
qed

lemma rnd_ratio_bounds:
  assumes "0 < n" "n < t" "t < 2147483648"
  shows "1 \<le> rnd (of_int t / of_int n)" "rnd (of_int t / of_int n) \<le> 2147483648"
proof -
  have i: "i50 n" "i50 t" "i50 2147483648" using assms by (simp_all add: i50_def)
  have "of_int 1 \<le> rnd (of_int t / of_int n)"
    by (subst rnd_quot_ge_iff) (use assms i in auto)
  then show "1 \<le> rnd (of_int t / of_int n)" by simp
  have "t \<le> 2147483648 * n" using assms by linarith
  then have "rnd (of_int t / of_int n) \<le> of_int 2147483648"
    by (subst rnd_quot_le_iff) (use assms i in auto)
  then show "rnd (of_int t / of_int n) \<le> 2147483648" by simp
qed

lemma quot_by_float_normal:
  assumes "1 \<le> U" "1 \<le> R" "R \<le> (2147483648 :: rat)"
  shows "2 powi (- 1022) \<le> \<bar>U / R\<bar>"
proof -
  have "1 / 2147483648 \<le> 1 / R" using assms by (intro divide_left_mono) auto
  also have "\<dots> \<le> U / R" using assms by (intro divide_right_mono) auto
  finally have pos: "1 / 2147483648 \<le> \<bar>U / R\<bar>" by linarith
  have "(2::rat) powi (- 1022) \<le> 2 powi (- 31)" by (rule power_int_increasing) auto
  also have "\<dots> = 1 / 2147483648" by (simp add: power_int_minus)
  finally show ?thesis using pos by linarith
qed

lemma same_ratio_close:
  assumes n: "0 < n" and tn: "n < t" and t: "t < 2147483648" and u: "0 < u"
    and small: "u * n < 2 ^ 49"
  defines "R \<equiv> rnd (of_int t / of_int n)"
  shows "\<bar>rnd (of_int u / R) - of_int (u * n) / of_int t\<bar> * (2 * of_int t) < 1"
proof -
  let ?r = "of_int t / of_int n :: rat" and ?U = "of_int u :: rat"
  let ?x = "of_int (u * n) / of_int t :: rat"
  define q where "q = rnd (?U / R)"
  have nq: "0 < (of_int n :: rat)" "0 < (of_int t :: rat)" "1 \<le> (of_int t :: rat)"
    using n tn by simp_all
  have u1: "1 \<le> ?U" using u by simp
  note R = rnd_ratio_bounds [OF n tn t, folded R_def]
  have rx: "?U = ?x * ?r" using nq by simp
  have r0: "0 < ?r" using nq by simp
  have n62: "n \<le> 2 ^ 62" using tn t by simp
  have "\<bar>R - ?r\<bar> \<le> \<bar>?r\<bar> / 2 ^ 53" unfolding R_def by (rule rnd_quot_error [OF n n62])
  then have Rerr: "\<bar>R - ?r\<bar> \<le> ?r / 2 ^ 53" using r0 by simp
  have "0 \<le> ?U / R" using u1 R by simp
  with rnd_error [OF quot_by_float_normal [OF u1 R]]
  have qerr: "\<bar>q - ?U / R\<bar> \<le> ?U / R / 2 ^ 53"
    unfolding q_def by (simp only: abs_of_nonneg)
  have x0: "0 < ?x" using nq u1 by simp
  have "(of_int (u * n) :: rat) < of_int (2 ^ 49)" using small by (simp only: of_int_less_iff)
  then have mq: "(of_int (u * n) :: rat) < 2 ^ 49" by simp
  have "?x \<le> of_int (u * n) / 1" by (rule divide_left_mono) (use nq u n in auto)
  also have "\<dots> < 2 ^ 50" using mq by simp
  finally have xs: "?x < 2 ^ 50" .
  have R0: "0 < R" using R by simp
  have "\<bar>q - ?x\<bar> \<le> ?x / 2 ^ 51"
    by (rule double_rounding_close [OF x0 xs R0 Rerr r0]) (rule qerr [unfolded rx])
  then have "\<bar>q - ?x\<bar> * (2 * of_int t) \<le> ?x / 2 ^ 51 * (2 * of_int t)"
    using nq by (intro mult_right_mono) auto
  also have "\<dots> = of_int (u * n) / 2 ^ 50" using nq by simp
  also have "\<dots> < 1" using mq by simp
  finally show ?thesis unfolding q_def .
qed

lemma same_ratio_quot:
  assumes n: "0 < n" and tn: "n < t" and t: "t < 2147483648" and u: "0 \<le> u" "u < 2147483648"
  defines "R \<equiv> rnd (of_int t / of_int n)"
  shows "fdiv (Fin (of_int u)) (Fin R) = Fin (rnd (of_int u / R))" "0 \<le> rnd (of_int u / R)"
proof -
  note R = rnd_ratio_bounds [OF n tn t, folded R_def]
  have "fdiv (Fin (of_int u)) (Fin R) = Fin (rnd (of_int u / R)) \<and> 0 \<le> rnd (of_int u / R)"
  proof (cases "u = 0")
    case True
    then show ?thesis using R by (simp add: fdiv.simps mk_f64_def)
  next
    case False
    let ?y = "of_int u / R"
    have u1: "1 \<le> (of_int u :: rat)" "(of_int u :: rat) \<le> of_int 2147483648"
      using u False by simp_all
    have nrm: "2 powi (- 1022) \<le> \<bar>?y\<bar>" by (rule quot_by_float_normal [OF u1(1) R])
    have y: "0 < ?y" "?y \<le> of_int u" using u1 R by (simp_all add: divide_simps)
    then have p: "0 < rnd ?y" using rnd_minus_pos_iff(1) [OF nrm] by simp
    have "\<bar>rnd ?y - ?y\<bar> \<le> ?y" using rnd_error [OF nrm] y(1) by simp
    then have "\<bar>rnd ?y\<bar> \<le> of_int 4294967296" using y u1(2) by simp
    also have "\<dots> < f64_limit" using int_below_limit [of 4294967296] by simp
    finally have "fdiv (Fin (of_int u)) (Fin R) = Fin (rnd ?y)"
      using R u1 p by (simp add: fdiv.simps mk_f64_Fin)
    with p show ?thesis by simp
  qed
  then show "fdiv (Fin (of_int u)) (Fin R) = Fin (rnd (of_int u / R))" "0 \<le> rnd (of_int u / R)"
    by simp_all
qed

lemma calculateNodesWithSameShardToNodeRatio_float:
  assumes "0 < sint n" "sint n < sint t" "0 \<le> sint u"
  shows "calculateNodesWithSameShardToNodeRatio cv n t u =
    f64_to_int32 cv (Fin (of_int \<lceil>rnd (of_int (sint u) / rnd (of_int (sint t) / of_int (sint n)))\<rceil>))"
proof -
  let ?R = "rnd (of_int (sint t) / of_int (sint n))"
  note q = same_ratio_quot [OF assms(1,2) sint32_upper assms(3) sint32_upper]
  have "1 \<le> ?R" by (rule rnd_ratio_bounds(1) [OF assms(1,2) sint32_upper])
  then have m: "fmax (shardToNodeRatio t n) (Fin 1) = Fin ?R"
    using assms(1) by (auto simp: ratio_Fin fmax_def is_nan_def is_zero_def)
  have "calculateNodesWithSameShardToNodeRatio cv n t u =
      f64_to_int32 cv (fceil (Fin (rnd (of_int (sint u) / ?R))))"
    unfolding calculateNodesWithSameShardToNodeRatio_def Let_def f64_of_int_1 m
      f64_of_int [OF i50_sint32] q(1) ..
  then show ?thesis using q(2) by simp
qed

lemma same_ratio_ceiling:
  assumes n: "0 < n" and tn: "n < t" and t: "t < 2147483648" and u: "0 \<le> u" and small: "u * n < 2 ^ 49"
  defines "z \<equiv> \<lceil>rnd (of_int u / rnd (of_int t / of_int n))\<rceil>"
  shows "z = ceil_quot (u * n) t \<or> (t dvd u * n \<and> z = ceil_quot (u * n) t + 1)"
proof (cases "u = 0")
  case True
  then show ?thesis by (simp add: z_def ceil_quot_def)
next
  case False
  with u have "0 < u" by simp
  from same_ratio_close [OF n tn t this small] show ?thesis
    unfolding z_def using n tn by (intro ceiling_near_quot) auto
qed

lemma ceil_quot_le_nodes: "0 < t \<Longrightarrow> 0 < n \<Longrightarrow> u < t \<Longrightarrow> ceil_quot (u * n) t \<le> n"
  using ceil_quot_le_iff [of t "u * n" n] mult_right_mono [of u t n] by (simp add: mult.commute)

lemma ceil_quot_dvd_less:
  assumes "0 < t" "0 < n" "u < t" "t dvd u * n"
  shows "ceil_quot (u * n) t + 1 \<le> n"
proof -
  from assms(4) obtain k where k: "u * n = t * k" by (elim dvdE)
  have "t * k < t * n" using assms(2,3) k by (metis mult_strict_right_mono)
  then have "k < n" using assms(1) by simp
  moreover have "ceil_quot (u * n) t = k" using assms(1) by (simp add: ceil_quot_ceiling k)
  ultimately show ?thesis by simp
qed

lemma ceil_quot_greater_nodes:
  "0 < t \<Longrightarrow> 0 < n \<Longrightarrow> t < u \<Longrightarrow> n < ceil_quot (u * n) t"
  using less_ceil_quot_iff [of t n "u * n"] mult_strict_right_mono [of t u n] by (simp add: mult.commute)

lemma same_ratio_nodes_result:
  fixes cv :: "f64 \<Rightarrow> int32"
  assumes n: "0 < sint n" and u: "0 \<le> sint u" and small: "sint u * sint n < 2 ^ 49"
    and fits: "same_ratio_nodes (sint n) (sint t) (sint u) < 2147483647"
  defines "r \<equiv> sint (calculateNodesWithSameShardToNodeRatio cv n t u)"
    and "e \<equiv> same_ratio_nodes (sint n) (sint t) (sint u)"
  shows "r = e \<or> (r = e + 1 \<and> sint n < sint t \<and> sint t dvd sint u * sint n)"
proof (cases "sint t \<le> sint n")
  case True
  then show ?thesis
    using same_ratio_few_shards [OF n True u, of cv] by (simp add: r_def e_def same_ratio_nodes_def)
next
  case False
  then have tn: "sint n < sint t" by simp
  let ?z = "\<lceil>rnd (of_int (sint u) / rnd (of_int (sint t) / of_int (sint n)))\<rceil>"
  have e: "e = ceil_quot (sint u * sint n) (sint t)" using tn by (simp add: e_def same_ratio_nodes_def)
  have z: "?z = e \<or> (sint t dvd sint u * sint n \<and> ?z = e + 1)"
    unfolding e by (rule same_ratio_ceiling [OF n tn sint32_upper u small])
  have "0 \<le> e" unfolding e by (rule ceil_quot_nonneg) (use n tn u in auto)
  then have zb: "- 2147483648 \<le> ?z" "?z < 2147483648" using z fits unfolding e_def by linarith+
  have "r = ?z"
    unfolding r_def calculateNodesWithSameShardToNodeRatio_float [OF n tn u] f64_to_int32_int [OF zb]
    by (rule sint32_word_of_int [OF zb])
  with z tn show ?thesis by auto
qed

lemma same_ratio_nodes_less:
  assumes "0 < n" "0 \<le> u" "u < t" "0 < t"
  shows "same_ratio_nodes n t u \<le> n" "n < t \<Longrightarrow> t dvd u * n \<Longrightarrow> same_ratio_nodes n t u + 1 \<le> n"
    "0 \<le> same_ratio_nodes n t u"
  using assms ceil_quot_le_nodes [of t n u] ceil_quot_dvd_less [of t n u] ceil_quot_nonneg [of t "u * n"]
  by (auto simp: same_ratio_nodes_def)

text \<open>Fewer shards at the same ratio never need more nodes, whatever the rounding.\<close>

lemma same_ratio_shrinks:
  assumes "0 < sint n" "0 \<le> sint u" "sint u < sint t" "sint u * sint n < 2 ^ 49"
  shows "sint (calculateNodesWithSameShardToNodeRatio cv n t u) \<le> sint n"
    "0 \<le> sint (calculateNodesWithSameShardToNodeRatio cv n t u)"
proof -
  have t: "0 < sint t" using assms by linarith
  note b = same_ratio_nodes_less [OF assms(1,2,3) t]
  have "same_ratio_nodes (sint n) (sint t) (sint u) < 2147483647 \<or>
    same_ratio_nodes (sint n) (sint t) (sint u) = 2147483647 \<and> sint n = 2147483647"
    using b(1) sint32_upper [of n] by linarith
  moreover have False if "same_ratio_nodes (sint n) (sint t) (sint u) = 2147483647" "sint n = 2147483647"
  proof -
    have "sint u < sint t" by (rule assms)
    moreover have "sint t \<le> sint n" using that(2) sint32_upper_le [of t] by simp
    ultimately show False using that by (simp add: same_ratio_nodes_def)
  qed
  ultimately have fits: "same_ratio_nodes (sint n) (sint t) (sint u) < 2147483647" by blast
  from same_ratio_nodes_result [OF assms(1,2,4) fits, of cv]
  show "sint (calculateNodesWithSameShardToNodeRatio cv n t u) \<le> sint n"
    "0 \<le> sint (calculateNodesWithSameShardToNodeRatio cv n t u)"
    using b by auto
qed

text \<open>More shards at the same ratio never need fewer nodes, once there are as many as nodes.\<close>

lemma same_ratio_nodes_greater:
  assumes "0 < n" "t < u" "n \<le> u" "0 \<le> t"
  shows "n \<le> same_ratio_nodes n t u"
  using assms ceil_quot_greater_nodes [of t n u] by (auto simp: same_ratio_nodes_def)

end
