(* ===== verification/Autoscaler.thy ===== *)
theory Autoscaler
  imports NodeMath EsTypes EdsTypes
begin

text \<open>
  operator/autoscaler.go: the scaling hint from the metric samples, the managed indices and
  nodes, and the calculation of a scaling operation. Go iterates over a map in an unspecified
  order, so a function that ranges over the map of indices takes, for each of its loops, the list
  of values in the order that loop sees them.
\<close>

section \<open>Scaling operations\<close>

datatype direction = DOWN | NONE | UP

datatype description =
    DesiredReplicasNotSet
  | NoIndicesAllocated
  | BelowMinimumNodes int32
  | DiskUsageTooHigh
  | RatioExceedsLimit f64 int32
  | FitIndexReplicas
  | MaxIndexReplicasReached int32 string
  | IncreasingIndexReplicas
  | KeepingRatioIncreasingReplicas f64
  | IncreasingNodes int32
  | KeepingRatioDecreasingReplicas f64
  | RatioWouldExceedLimit f64 int32
  | DecreasingNodes int32
  | AdjustingToBounds int32
  | NothingToDo

record scaling_operation =
  so_direction :: direction
  so_node_replicas :: "int32 option"
  so_index_replicas :: "es_index list"
  so_description :: description

definition noopScalingOperation :: "description \<Rightarrow> scaling_operation" where
  "noopScalingOperation d =
     \<lparr>so_direction = NONE, so_node_replicas = None, so_index_replicas = [], so_description = d\<rparr>"

section \<open>The scaling hint\<close>

text \<open>\<open>time.Duration.Seconds\<close>: whole seconds and the rest, added as floats.\<close>

definition duration_seconds :: "duration \<Rightarrow> f64" where
  "duration_seconds d =
     (let k = sint d; r = rem_int k 1000000000
      in fadd (f64_of_int ((k - r) div 1000000000))
           (fdiv (f64_of_int r) (f64_of_int 1000000000)))"

definition required_samples :: "(f64 \<Rightarrow> int64) \<Rightarrow> int64 \<Rightarrow> duration \<Rightarrow> int64" where
  "required_samples cv threshold interval =
     f64_to_int64 cv (fceil (fdiv (f64_of_int (sint threshold)) (duration_seconds interval)))"

text \<open>The slice expression \<open>xs[i:]\<close> panics when i is out of range.\<close>

definition slice_from :: "'a list \<Rightarrow> int64 \<Rightarrow> ('e, 'a list) outcome" where
  "slice_from xs i =
     (if 0 \<le> sint i \<and> sint i \<le> int (length xs) then Ok (drop (nat (sint i)) xs) else Panic)"

definition cooldown_over :: "time option \<Rightarrow> time \<Rightarrow> int64 \<Rightarrow> bool" where
  "cooldown_over started now cooldown =
     (case started of None \<Rightarrow> True
      | Some t \<Rightarrow> t < now + sint (- cooldown * 1000000000))"

text \<open>
  The samples of one direction: enough of them, each of the last ones on the right side of the
  boundary, and no cool-down running.
\<close>

definition hint_holds ::
  "(f64 \<Rightarrow> int64) \<Rightarrow> duration \<Rightarrow> metric list \<Rightarrow> int64 \<Rightarrow> (int32 \<Rightarrow> bool) \<Rightarrow> bool \<Rightarrow> ('e, bool) outcome" where
  "hint_holds cv interval metrics threshold beyond cooled =
     (let sampleSize = word_of_int (int (length metrics)) :: int64;
          required = required_samples cv threshold interval
      in if sint required \<le> sint sampleSize
         then bind_outcome (slice_from metrics (sampleSize - required))
                (\<lambda>samples. Ok (list_all (\<lambda>m. beyond (mt_value m)) samples \<and> cooled))
         else Ok False)"

definition scalingHint ::
  "(f64 \<Rightarrow> int64) \<Rightarrow> eds_scaling option \<Rightarrow> eds_status \<Rightarrow> metric_set option \<Rightarrow> duration \<Rightarrow>
   time \<Rightarrow> time \<Rightarrow> ('e, direction) outcome" where
  "scalingHint cv scaling status esMSet interval now_down now_up =
     (case esMSet of None \<Rightarrow> Ok NONE
      | Some ms \<Rightarrow>
          bind_outcome (deref scaling) (\<lambda>sc.
            bind_outcome
              (hint_holds cv interval (ms_metrics ms) (sc_down_threshold_seconds sc)
                 (\<lambda>v. sint v < sint (sc_down_cpu_boundary sc))
                 (cooldown_over (ss_last_down_started status) now_down (sc_down_cooldown_seconds sc)))
              (\<lambda>down. if down then Ok DOWN
                else bind_outcome
                  (hint_holds cv interval (ms_metrics ms) (sc_up_threshold_seconds sc)
                     (\<lambda>v. sint (sc_up_cpu_boundary sc) < sint v)
                     (cooldown_over (ss_last_up_started status) now_up (sc_up_cooldown_seconds sc)))
                  (\<lambda>up. Ok (if up then UP else NONE)))))"

section \<open>Managed nodes and indices\<close>

definition pod_ips :: "pod list \<Rightarrow> string set" where
  "pod_ips pods = set (filter (\<lambda>ip. ip \<noteq> '''') (map pod_ip pods))"

definition getManagedNodes :: "pod list \<Rightarrow> es_node list \<Rightarrow> es_node list" where
  "getManagedNodes pods esNodes = filter (\<lambda>n. nn_ip n \<in> pod_ips pods) esNodes"

fun find_index :: "string \<Rightarrow> es_index list \<Rightarrow> es_index option" where
  "find_index name [] = None"
| "find_index name (ix # ixs) = (if name = ix_index ix then Some ix else find_index name ixs)"

definition getManagedIndices ::
  "pod list \<Rightarrow> es_index list \<Rightarrow> es_shard list \<Rightarrow> (string \<times> es_index) list" where
  "getManagedIndices pods esIndices esShards =
     foldl (\<lambda>m sh. if sh_ip sh \<in> pod_ips pods
                   then (case find_index (sh_index sh) esIndices of None \<Rightarrow> m
                         | Some ix \<Rightarrow> AList.update (sh_index sh) ix m)
                   else m) [] esShards"

definition getMaxDiskUsage :: "es_node list \<Rightarrow> f64" where
  "getMaxDiskUsage managedNodes =
     foldl (\<lambda>maxDisk n. fmax maxDisk (nn_disk_used_percent n)) (Fin 0) managedNodes"

section \<open>The scaling calculation\<close>

definition ensureBoundsNodeReplicas :: "eds_scaling \<Rightarrow> int32 \<Rightarrow> int32" where
  "ensureBoundsNodeReplicas sc newDesiredNodeReplicas =
     (if sint newDesiredNodeReplicas < 1 then 1
      else if 0 < sint (sc_max_replicas sc) \<and> sint (sc_max_replicas sc) < sint newDesiredNodeReplicas
      then sc_max_replicas sc
      else (let effectiveMinReplicas =
                  (if sint (sc_min_replicas sc) < 1 then 1 else sc_min_replicas sc)
            in if sint newDesiredNodeReplicas < sint effectiveMinReplicas then effectiveMinReplicas
               else newDesiredNodeReplicas))"

definition calculateScalingDirection :: "int32 \<Rightarrow> int32 \<Rightarrow> direction" where
  "calculateScalingDirection oldNodeReplicas newNodeReplicas =
     (if sint oldNodeReplicas < sint newNodeReplicas then UP
      else if sint newNodeReplicas < sint oldNodeReplicas then DOWN
      else NONE)"

text \<open>The first loop: the total number of shards, and the indices outside their replica bounds.\<close>

type_synonym scan = "es_index list \<times> direction \<times> int32"

definition scan_index :: "eds_scaling \<Rightarrow> scan \<Rightarrow> es_index \<Rightarrow> scan" where
  "scan_index sc s ix =
     (case s of (acc, dir, totalShards) \<Rightarrow>
        let totalShards' = totalShards + ix_primaries ix * (ix_replicas ix + 1);
            (acc1, dir1) =
              (if sint (ix_replicas ix) < sint (sc_min_index_replicas sc)
               then (acc @ [ix\<lparr>ix_replicas := sc_min_index_replicas sc\<rparr>], UP) else (acc, dir));
            (acc2, dir2) =
              (if sint (sc_max_index_replicas sc) < sint (ix_replicas ix)
               then (acc1 @ [ix\<lparr>ix_replicas := sc_max_index_replicas sc\<rparr>], DOWN) else (acc1, dir1))
        in (acc2, dir2, totalShards'))"

definition scan_indices :: "eds_scaling \<Rightarrow> es_index list \<Rightarrow> scan" where
  "scan_indices sc ixs = foldl (scan_index sc) ([], NONE, 0) ixs"

text \<open>The loop of a scale-up by index replicas: it returns at the first index that is at its maximum.\<close>

fun raise_indices ::
  "eds_scaling \<Rightarrow> es_index list \<Rightarrow> int32 \<Rightarrow> es_index list \<Rightarrow> es_index + (es_index list \<times> int32)" where
  "raise_indices sc acc totalShards [] = Inr (acc, totalShards)"
| "raise_indices sc acc totalShards (ix # ixs) =
     (if sint (sc_max_index_replicas sc) \<le> sint (ix_replicas ix) then Inl ix
      else raise_indices sc (acc @ [ix\<lparr>ix_replicas := ix_replicas ix + 1\<rparr>])
             (totalShards + ix_primaries ix) ixs)"

fun lower_indices ::
  "eds_scaling \<Rightarrow> es_index list \<Rightarrow> int32 \<Rightarrow> es_index list \<Rightarrow> es_index list \<times> int32" where
  "lower_indices sc acc totalShards [] = (acc, totalShards)"
| "lower_indices sc acc totalShards (ix # ixs) =
     (if sint (sc_min_index_replicas sc) < sint (ix_replicas ix)
      then lower_indices sc (acc @ [ix\<lparr>ix_replicas := ix_replicas ix - 1\<rparr>])
             (totalShards - ix_primaries ix) ixs
      else lower_indices sc acc totalShards ixs)"

definition node_operation :: "int32 \<Rightarrow> int32 \<Rightarrow> es_index list \<Rightarrow> description \<Rightarrow> scaling_operation" where
  "node_operation cur new ixs d =
     \<lparr>so_direction = calculateScalingDirection cur new, so_node_replicas = Some new,
      so_index_replicas = ixs, so_description = d\<rparr>"

definition scale_up :: "(f64 \<Rightarrow> int32) \<Rightarrow> eds_scaling \<Rightarrow> es_index list \<Rightarrow> es_index list \<Rightarrow> int32 \<Rightarrow> int32
    \<Rightarrow> scaling_operation" where
  "scale_up cv sc ixs acc totalShards cur =
     (let by_nodes =
            (let new = ensureBoundsNodeReplicas sc (calculateIncreasedNodes cv cur totalShards)
             in node_operation cur new [] (IncreasingNodes new))
      in if fle (shardToNodeRatio totalShards cur) (f64_of_int (sint (sc_min_shards_per_node sc)))
         then (case raise_indices sc acc totalShards ixs of
             Inl ix \<Rightarrow>
               noopScalingOperation (MaxIndexReplicasReached (sc_max_index_replicas sc) (ix_index ix))
           | Inr (newIxs, newTotal) \<Rightarrow>
               if sint totalShards < sint newTotal
               then (let (new, msg) =
                       (if fle (f64_of_int (sint (sc_min_shards_per_node sc)))
                             (shardToNodeRatio newTotal cur)
                        then (let n = ensureBoundsNodeReplicas sc
                                    (calculateNodesWithSameShardToNodeRatio cv cur totalShards newTotal)
                              in (n, if n \<noteq> cur
                                     then KeepingRatioIncreasingReplicas (shardToNodeRatio newTotal n)
                                     else IncreasingIndexReplicas))
                        else (cur, IncreasingIndexReplicas))
                     in \<lparr>so_direction = UP, so_node_replicas = Some new,
                         so_index_replicas = newIxs, so_description = msg\<rparr>)
               else by_nodes)
         else by_nodes)"

definition scale_down :: "(f64 \<Rightarrow> int32) \<Rightarrow> eds_scaling \<Rightarrow> es_index list \<Rightarrow> es_index list \<Rightarrow> int32 \<Rightarrow> int32
    \<Rightarrow> scaling_operation" where
  "scale_down cv sc ixs acc totalShards cur =
     (let (newIxs, newTotal) = lower_indices sc acc totalShards ixs
      in if newTotal \<noteq> totalShards
         then (let new = ensureBoundsNodeReplicas sc
                     (calculateNodesWithSameShardToNodeRatio cv cur totalShards newTotal)
               in node_operation cur new newIxs
                    (KeepingRatioDecreasingReplicas (shardToNodeRatio totalShards cur)))
         else (let new = ensureBoundsNodeReplicas sc (calculateDecreasedNodes cv cur totalShards);
                   ratio = shardToNodeRatio newTotal new
               in if flt (f64_of_int (sint (sc_max_shards_per_node sc))) ratio
                  then noopScalingOperation (RatioWouldExceedLimit ratio (sc_max_shards_per_node sc))
                  else node_operation cur new [] (DecreasingNodes new)))"

definition scaleUpOrDown ::
  "(f64 \<Rightarrow> int32) \<Rightarrow> eds_scaling \<Rightarrow> es_index list \<Rightarrow> es_index list \<Rightarrow> direction \<Rightarrow> int32
    \<Rightarrow> scaling_operation" where
  "scaleUpOrDown cv sc ixs1 ixs2 hint cur =
     (let (newIxs, indexDirection, totalShards) = scan_indices sc ixs1;
          ratio = shardToNodeRatio totalShards cur
      in if flt (f64_of_int (sint (sc_max_shards_per_node sc))) ratio
         then (let new = ensureBoundsNodeReplicas sc
                     (f64_to_int32 cv (fceil (shardToNodeRatio totalShards (sc_max_shards_per_node sc))))
               in node_operation cur new [] (RatioExceedsLimit ratio (sc_max_shards_per_node sc)))
         else if newIxs \<noteq> []
         then \<lparr>so_direction = indexDirection, so_node_replicas = None,
               so_index_replicas = newIxs, so_description = FitIndexReplicas\<rparr>
         else (case hint of
             UP \<Rightarrow> scale_up cv sc ixs2 newIxs totalShards cur
           | DOWN \<Rightarrow> scale_down cv sc ixs2 newIxs totalShards cur
           | NONE \<Rightarrow>
               (let bounded = ensureBoundsNodeReplicas sc cur
                in if bounded \<noteq> cur then node_operation cur bounded [] (AdjustingToBounds bounded)
                   else noopScalingOperation NothingToDo)))"

definition calculateScalingOperation ::
  "(f64 \<Rightarrow> int32) \<Rightarrow> (es_index list \<Rightarrow> es_index list) \<Rightarrow> (es_index list \<Rightarrow> es_index list) \<Rightarrow>
   eds_spec \<Rightarrow> (string \<times> es_index) list \<Rightarrow> es_node list \<Rightarrow> direction \<Rightarrow>
   ('e, scaling_operation) outcome" where
  "calculateScalingOperation cv ord1 ord2 spec managedIndices managedNodes hint =
     (case sp_replicas spec of
        None \<Rightarrow> Ok (noopScalingOperation DesiredReplicasNotSet)
      | Some cur \<Rightarrow>
          if managedIndices = [] then Ok (noopScalingOperation NoIndicesAllocated)
          else bind_outcome (deref (sp_scaling spec)) (\<lambda>sc.
            let ixs = map snd managedIndices;
                op = scaleUpOrDown cv sc (ord1 ixs) (ord2 ixs) hint cur
            in if (case so_node_replicas op of None \<Rightarrow> False
                   | Some n \<Rightarrow> sint n < sint (sc_min_index_replicas sc + 1))
               then Ok (noopScalingOperation (BelowMinimumNodes (sc_min_index_replicas sc)))
               else if so_direction op = DOWN \<and> 0 < sint (sc_disk_watermark sc) \<and>
                       flt (f64_of_int (sint (sc_disk_watermark sc))) (getMaxDiskUsage managedNodes)
               then Ok (noopScalingOperation DiskUsageTooHigh)
               else Ok op))"

end
