(* ===== verification/OperationJson.thy ===== *)
theory OperationJson
  imports Autoscaler Io
begin

text \<open>
  The scaling operation of operator/autoscaler.go as it is stored in an annotation of the data
  set: what \<open>json.Marshal\<close> writes and \<open>json.Unmarshal\<close> reads. A JSON text is reached through two
  parameters, the reader and the writer of JSON texts; which value a struct becomes, and which
  values a struct can be read from, is defined here.
\<close>

section \<open>JSON values\<close>

datatype json_value =
    NullV
  | BoolV bool
  | IntV int
  | FractionV
  | TextV string
  | ListV "json_value list"
  | ObjectV "(string \<times> json_value) list"

record json_texts =
  jt_read :: "string \<Rightarrow> json_value option"
  jt_write :: "json_value \<Rightarrow> string"

section \<open>The stored operation\<close>

text \<open>
  The directions are the numbers of the Go constants: any number can be read. The zero value of
  the struct has the direction DOWN.
\<close>

record stored_operation =
  op_direction :: int64
  op_node_replicas :: "int32 option"
  op_index_replicas :: "es_index list"
  op_description :: string

fun direction_code :: "direction \<Rightarrow> int64" where
  "direction_code DOWN = 0"
| "direction_code NONE = 1"
| "direction_code UP = 2"

fun direction_string :: "direction \<Rightarrow> string" where
  "direction_string DOWN = ''DOWN''"
| "direction_string UP = ''UP''"
| "direction_string NONE = ''NONE''"

definition zero_operation :: stored_operation where
  "zero_operation = \<lparr>op_direction = 0, op_node_replicas = None, op_index_replicas = [], op_description = ''''\<rparr>"

section \<open>Writing\<close>

definition index_value :: "es_index \<Rightarrow> json_value" where
  "index_value ix = ObjectV
     [(''index'', TextV (ix_index ix)), (''pri'', IntV (sint (ix_primaries ix))), (''rep'', IntV (sint (ix_replicas ix)))]"

text \<open>The slice of an operation without index changes is nil, which is written as null.\<close>

definition operation_value :: "(description \<Rightarrow> string) \<Rightarrow> scaling_operation \<Rightarrow> json_value" where
  "operation_value describe op = ObjectV
     [(''ScalingDirection'', IntV (sint (direction_code (so_direction op)))),
      (''NodeReplicas'', case so_node_replicas op of None \<Rightarrow> NullV | Some n \<Rightarrow> IntV (sint n)),
      (''IndexReplicas'', if so_index_replicas op = [] then NullV else ListV (map index_value (so_index_replicas op))),
      (''Description'', TextV (describe (so_description op)))]"

definition stored :: "(description \<Rightarrow> string) \<Rightarrow> scaling_operation \<Rightarrow> stored_operation" where
  "stored describe op =
     \<lparr>op_direction = direction_code (so_direction op), op_node_replicas = so_node_replicas op,
      op_index_replicas = so_index_replicas op, op_description = describe (so_description op)\<rparr>"

section \<open>Reading\<close>

text \<open>
  A null leaves the field as it is, a value of the wrong kind or a number out of range is an
  error of the whole text, and unknown names are skipped. Field names match up to the case of
  their letters.
\<close>

definition lower :: "char \<Rightarrow> char" where
  "lower c = (if CHR ''A'' \<le> c \<and> c \<le> CHR ''Z'' then char_of (of_char c + 32 :: nat) else c)"

definition same_name :: "string \<Rightarrow> string \<Rightarrow> bool" where
  "same_name a b \<longleftrightarrow> map lower a = map lower b"

definition read_int :: "int \<Rightarrow> json_value \<Rightarrow> int \<Rightarrow> int option" where
  "read_int bound v old =
     (case v of
        NullV \<Rightarrow> Some old
      | IntV n \<Rightarrow> if - bound \<le> n \<and> n < bound then Some n else None
      | _ \<Rightarrow> None)"

definition read_int32 :: "json_value \<Rightarrow> int32 \<Rightarrow> int32 option" where
  "read_int32 v old = map_option word_of_int (read_int 2147483648 v (sint old))"

definition read_text :: "json_value \<Rightarrow> string \<Rightarrow> string option" where
  "read_text v old = (case v of NullV \<Rightarrow> Some old | TextV s \<Rightarrow> Some s | _ \<Rightarrow> None)"

fun read_index_fields :: "(string \<times> json_value) list \<Rightarrow> es_index \<Rightarrow> es_index option" where
  "read_index_fields [] ix = Some ix"
| "read_index_fields ((k, v) # kvs) ix =
     (if same_name k ''index''
      then Option.bind (read_text v (ix_index ix)) (\<lambda>s. read_index_fields kvs (ix\<lparr>ix_index := s\<rparr>))
      else if same_name k ''pri''
      then Option.bind (read_int32 v (ix_primaries ix)) (\<lambda>n. read_index_fields kvs (ix\<lparr>ix_primaries := n\<rparr>))
      else if same_name k ''rep''
      then Option.bind (read_int32 v (ix_replicas ix)) (\<lambda>n. read_index_fields kvs (ix\<lparr>ix_replicas := n\<rparr>))
      else read_index_fields kvs ix)"

definition zero_index :: es_index where
  "zero_index = \<lparr>ix_index = '''', ix_primaries = 0, ix_replicas = 0\<rparr>"

definition read_index :: "json_value \<Rightarrow> es_index option" where
  "read_index v = (case v of NullV \<Rightarrow> Some zero_index | ObjectV kvs \<Rightarrow> read_index_fields kvs zero_index | _ \<Rightarrow> None)"

fun read_all :: "('a \<Rightarrow> 'b option) \<Rightarrow> 'a list \<Rightarrow> 'b list option" where
  "read_all f [] = Some []"
| "read_all f (x # xs) = Option.bind (f x) (\<lambda>y. map_option ((#) y) (read_all f xs))"

definition read_indices :: "json_value \<Rightarrow> es_index list option" where
  "read_indices v = (case v of NullV \<Rightarrow> Some [] | ListV vs \<Rightarrow> read_all read_index vs | _ \<Rightarrow> None)"

text \<open>For the pointer field a null is the nil pointer.\<close>

definition read_pointer32 :: "json_value \<Rightarrow> int32 option option" where
  "read_pointer32 v = (case v of NullV \<Rightarrow> Some None | _ \<Rightarrow> map_option Some (read_int32 v 0))"

fun read_fields :: "(string \<times> json_value) list \<Rightarrow> stored_operation \<Rightarrow> stored_operation option" where
  "read_fields [] op = Some op"
| "read_fields ((k, v) # kvs) op =
     (if same_name k ''ScalingDirection''
      then Option.bind (read_int 9223372036854775808 v (sint (op_direction op)))
             (\<lambda>n. read_fields kvs (op\<lparr>op_direction := word_of_int n\<rparr>))
      else if same_name k ''NodeReplicas''
      then Option.bind (read_pointer32 v) (\<lambda>n. read_fields kvs (op\<lparr>op_node_replicas := n\<rparr>))
      else if same_name k ''IndexReplicas''
      then Option.bind (read_indices v) (\<lambda>ixs. read_fields kvs (op\<lparr>op_index_replicas := ixs\<rparr>))
      else if same_name k ''Description''
      then Option.bind (read_text v (op_description op)) (\<lambda>s. read_fields kvs (op\<lparr>op_description := s\<rparr>))
      else read_fields kvs op)"

definition read_operation :: "json_value \<Rightarrow> stored_operation option" where
  "read_operation v =
     (case v of NullV \<Rightarrow> Some zero_operation | ObjectV kvs \<Rightarrow> read_fields kvs zero_operation | _ \<Rightarrow> None)"

section \<open>Round trip\<close>

lemma read_index_value [simp]: "read_index (index_value ix) = Some ix"
  by (simp add: read_index_def index_value_def zero_index_def same_name_def lower_def read_text_def
      read_int32_def read_int_def sint32_lower sint32_upper)

lemma read_all_map: "(\<And>x. x \<in> set xs \<Longrightarrow> f (g x) = Some x) \<Longrightarrow> read_all f (map g xs) = Some xs"
  by (induction xs) auto

lemma read_indices_value [simp]:
  "read_indices (if ixs = [] then NullV else ListV (map index_value ixs)) = Some ixs"
  by (simp add: read_indices_def read_all_map)

lemma direction_code_range:
  "- 9223372036854775808 \<le> sint (direction_code d)" "sint (direction_code d) < 9223372036854775808"
  using sint64_lower sint64_upper by blast+

lemma read_pointer_value [simp]:
  "read_pointer32 (case r of None \<Rightarrow> NullV | Some n \<Rightarrow> IntV (sint n)) = Some r"
  by (cases r) (simp_all add: read_pointer32_def read_int32_def read_int_def sint32_lower sint32_upper)

lemma read_operation_value: "read_operation (operation_value describe op) = Some (stored describe op)"
  by (simp add: read_operation_def operation_value_def zero_operation_def stored_def same_name_def lower_def
      read_text_def read_int_def direction_code_range)

lemma direction_code_NONE [simp]: "direction_code d = 1 \<longleftrightarrow> d = NONE"
  by (cases d) simp_all

end
