(* ===== verification/EdsResource.thy ===== *)
theory EdsResource
  imports Operator EsClient OperationJson
begin

text \<open>
  The data set as a stateful resource, from operator/elasticsearch.go: its attributes, the
  PodDisruptionBudget and the Service it needs, its status, the scaling operation it carries in an
  annotation, and how it is refreshed. A method that changes the data set it works on returns the
  changed one.
\<close>

section \<open>Attributes\<close>

definition es_dataset_label_key :: string where
  "es_dataset_label_key = ''es-operator-dataset''"

definition es_operator_annotation_key :: string where
  "es_operator_annotation_key = ''es-operator.zalando.org/operator''"

definition es_scaling_operation_key :: string where
  "es_scaling_operation_key = ''es-operator.zalando.org/current-scaling-operation''"

abbreviation eds_name :: "eds \<Rightarrow> string" where "eds_name e \<equiv> om_name (eds_meta e)"
abbreviation eds_namespace :: "eds \<Rightarrow> string" where "eds_namespace e \<equiv> om_namespace (eds_meta e)"
abbreviation eds_annotations :: "eds \<Rightarrow> gomap" where "eds_annotations e \<equiv> om_annotations (eds_meta e)"

definition with_type :: "string \<Rightarrow> string \<Rightarrow> eds \<Rightarrow> eds" where
  "with_type apiVersion kind e = e\<lparr>eds_api_version := apiVersion, eds_kind := kind\<rparr>"

abbreviation typed :: "eds \<Rightarrow> eds" where
  "typed \<equiv> with_type ''zalando.org/v1'' ''ElasticsearchDataSet''"

definition LabelSelector :: "eds \<Rightarrow> gomap" where
  "LabelSelector e = Some [(es_dataset_label_key, eds_name e)]"

definition owner_of :: "eds \<Rightarrow> owner_reference" where
  "owner_of e = \<lparr>or_api_version = eds_api_version e, or_kind = eds_kind e, or_name = eds_name e,
     or_uid = om_uid (eds_meta e)\<rparr>"

definition owned_by :: "eds \<Rightarrow> owner_reference list \<Rightarrow> bool" where
  "owned_by e refs = isOwnedReference (eds_api_version e) (eds_kind e) (om_uid (eds_meta e)) (eds_name e) refs"

definition edsReplicas :: "eds \<Rightarrow> int32 option" where
  "edsReplicas e =
     (case sp_scaling (eds_spec e) of
        None \<Rightarrow> sp_replicas (eds_spec e)
      | Some scaling \<Rightarrow>
          if \<not> sc_enabled scaling then sp_replicas (eds_spec e)
          else if sp_replicas (eds_spec e) \<noteq> None then sp_replicas (eds_spec e)
          else if sint (sc_min_replicas scaling) \<le> 0 then None
          else (let base = (if sint (sc_min_replicas scaling) < 1 then 1 else sc_min_replicas scaling);
                    current = ss_replicas (eds_status e)
                in Some (if 0 < sint current \<and> sint base < sint current then current else base)))"

definition PodTemplateSpec :: "eds \<Rightarrow> pod_template" where
  "PodTemplateSpec e =
     (let template = sp_template (eds_spec e)
      in \<lparr>pt_meta = \<lparr>em_labels = em_labels (pt_meta template), em_annotations = em_annotations (pt_meta template)\<rparr>,
          pt_spec = pt_spec template\<rparr>)"

definition VolumeClaimTemplates :: "eds \<Rightarrow> volume_claim list" where
  "VolumeClaimTemplates e =
     map (\<lambda>t. \<lparr>vc_name = vc_name t, vc_labels = vc_labels t, vc_annotations = vc_annotations t, vc_spec = vc_spec t\<rparr>)
       (sp_volume_claims (eds_spec e))"

section \<open>PodDisruptionBudget and Service\<close>

definition new_pdb :: "eds \<Rightarrow> pdb" where
  "new_pdb e =
     \<lparr>pb_name = eds_name e, pb_namespace = eds_namespace e, pb_labels = om_labels (eds_meta e),
      pb_owners = [owner_of e], pb_max_unavailable = Some 0, pb_selector = LabelSelector e\<rparr>"

definition ensurePodDisruptionBudget :: "eds \<Rightarrow> unit io" where
  "ensurePodDisruptionBudget e =
     io_bind (io_call (\<lambda>w tr. w_get_pdb w tr (eds_namespace e) (eds_name e))
                (GetPdb (eds_namespace e) (eds_name e))) (\<lambda>r.
       case r of
         Inl err \<Rightarrow>
           if err \<noteq> KubeNotFound then io_fail (Failed ''failed to get PodDisruptionBudget'' err)
           else io_bind (io_call (\<lambda>w tr. w_create_pdb w tr (new_pdb e)) (CreatePdb (new_pdb e))) (\<lambda>c.
                  io_wrap ''failed to create PodDisruptionBudget'' (io_answer c))
       | Inr pb \<Rightarrow>
           if \<not> owned_by e (pb_owners pb)
           then io_fail (NotOwned ''PodDisruptionBudget'' (pb_namespace pb) (pb_name pb))
           else io_return ())"

definition new_service :: "eds \<Rightarrow> service" where
  "new_service e =
     \<lparr>sv_name = eds_name e, sv_namespace = eds_namespace e, sv_labels = om_labels (eds_meta e),
      sv_owners = [owner_of e], sv_type = ''ClusterIP'', sv_selector = LabelSelector e,
      sv_ports = [(''elasticsearch'', 9200)]\<rparr>"

definition ensureService :: "eds \<Rightarrow> unit io" where
  "ensureService e =
     io_bind (io_call (\<lambda>w tr. w_get_service w tr (eds_namespace e) (eds_name e))
                (GetService (eds_namespace e) (eds_name e))) (\<lambda>r.
       case r of
         Inl err \<Rightarrow>
           if err \<noteq> KubeNotFound then io_fail (Failed ''failed to get Service'' err)
           else io_bind (io_call (\<lambda>w tr. w_create_service w tr (new_service e)) (CreateService (new_service e))) (\<lambda>c.
                  io_wrap ''failed to create Service'' (io_answer c))
       | Inr sv \<Rightarrow>
           if \<not> owned_by e (sv_owners sv)
           then io_fail (NotOwned ''Service'' (sv_namespace sv) (sv_name sv))
           else io_return ())"

definition EnsureResources :: "eds \<Rightarrow> unit io" where
  "EnsureResources e = io_bind (ensurePodDisruptionBudget e) (\<lambda>_. ensureService e)"

section \<open>Status\<close>

definition UpdateStatus :: "eds \<Rightarrow> statefulset \<Rightarrow> eds io" where
  "UpdateStatus e sts =
     (let observedGeneration = (case ss_observed_generation (eds_status e) of None \<Rightarrow> 0 | Some g \<Rightarrow> g);
          replicas = sts_replicas sts
      in if om_generation (eds_meta e) \<noteq> observedGeneration \<or> ss_replicas (eds_status e) \<noteq> replicas
         then (let e' = e\<lparr>eds_status := (eds_status e)\<lparr>ss_replicas := replicas,
                         ss_observed_generation := Some (om_generation (eds_meta e))\<rparr>\<rparr>
               in io_bind (io_call (\<lambda>w tr. w_update_eds_status w tr e') (UpdateEdsStatus e')) (\<lambda>r.
                  io_bind (io_answer r) (\<lambda>updated. io_return (typed updated))))
         else io_return e)"

section \<open>The scaling operation\<close>

definition edsScalingOperation :: "json_texts \<Rightarrow> eds \<Rightarrow> (error, stored_operation option) outcome" where
  "edsScalingOperation jt e =
     (case map_get (eds_annotations e) es_scaling_operation_key of
        None \<Rightarrow> Ok None
      | Some op \<Rightarrow>
          (case Option.bind (jt_read jt op) read_operation of
             None \<Rightarrow> Err BadJson
           | Some scalingOperation \<Rightarrow> Ok (Some scalingOperation)))"

definition set_annotations :: "gomap \<Rightarrow> eds \<Rightarrow> eds" where
  "set_annotations m e = e\<lparr>eds_meta := (eds_meta e)\<lparr>om_annotations := m\<rparr>\<rparr>"

definition removeScalingOperationAnnotation :: "eds \<Rightarrow> eds io" where
  "removeScalingOperationAnnotation e =
     (if map_get (eds_annotations e) es_scaling_operation_key \<noteq> None
      then (let e' = set_annotations (map_delete (eds_annotations e) es_scaling_operation_key) e
            in io_bind (io_call (\<lambda>w tr. w_update_eds w tr e') (UpdateEds e')) (\<lambda>r.
               io_bind (io_wrap ''failed to remove annotation'' (io_answer r)) (\<lambda>_. io_return e')))
      else io_return e)"

definition applyScalingOperation :: "json_texts \<Rightarrow> eds \<Rightarrow> eds io" where
  "applyScalingOperation jt e =
     io_bind (io_lift (edsScalingOperation jt e)) (\<lambda>operation.
       case operation of
         None \<Rightarrow> io_return e
       | Some op \<Rightarrow>
           if op_direction op \<noteq> direction_code NONE
           then io_bind (UpdateIndexSettings (op_index_replicas op)) (\<lambda>_. removeScalingOperationAnnotation e)
           else io_return e)"

definition PreScaleDownHook :: "json_texts \<Rightarrow> eds \<Rightarrow> unit io" where
  "PreScaleDownHook jt e = io_bind (applyScalingOperation jt e) (\<lambda>_. io_return ())"

definition OnStableReplicasHook :: "json_texts \<Rightarrow> eds \<Rightarrow> unit io" where
  "OnStableReplicasHook jt e = io_bind (applyScalingOperation jt e) (\<lambda>_. Cleanup)"

section \<open>The resource\<close>

text \<open>What the client of one data set depends on: JSON texts, the retry loop, and its settings.\<close>

record eds_env =
  en_json :: json_texts
  en_retry :: retrier
  en_draining :: draining_config

definition DrainPod :: "eds_env \<Rightarrow> eds \<Rightarrow> pod \<Rightarrow> unit io" where
  "DrainPod env e p =
     (if sp_skip_draining (eds_spec e) then io_return ()
      else Drain (en_retry env) (en_draining env) p)"

definition eds_resource :: "eds_env \<Rightarrow> eds \<Rightarrow> stateful_resource" where
  "eds_resource env e =
     \<lparr>sr_name = eds_name e, sr_namespace = eds_namespace e, sr_api_version = eds_api_version e,
      sr_kind = eds_kind e, sr_generation = om_generation (eds_meta e), sr_uid = om_uid (eds_meta e),
      sr_labels = om_labels (eds_meta e), sr_label_selector = LabelSelector e, sr_replicas = edsReplicas e,
      sr_pod_template = PodTemplateSpec e, sr_volume_claims = VolumeClaimTemplates e,
      sr_ensure_resources = EnsureResources e,
      sr_update_status = (\<lambda>sts. io_bind (UpdateStatus e sts) (\<lambda>_. io_return ())),
      sr_pre_scale_down = PreScaleDownHook (en_json env) e,
      sr_on_stable = OnStableReplicasHook (en_json env) e,
      sr_drain = DrainPod env e\<rparr>"

definition GetResource :: "eds_env \<Rightarrow> eds \<Rightarrow> getter" where
  "GetResource env e =
     io_bind (io_call (\<lambda>w tr. w_get_eds w tr (eds_namespace e) (eds_name e))
                (GetEds (eds_namespace e) (eds_name e))) (\<lambda>r.
       io_bind (io_answer r) (\<lambda>newEds.
         io_return (eds_resource env (with_type (eds_api_version e) (eds_kind e) newEds))))"

end
