(* ===== verification/Controller.thy ===== *)
theory Controller
  imports EdsResource
begin

text \<open>
  The autoscaling side of operator/elasticsearch.go and \<open>GetScalingOperation\<close> of
  operator/autoscaler.go: which data sets the operator owns, what it collects about them, the
  validation of the scaling settings, and how a scaling operation is calculated and stored in the
  data set. A loop over a map takes the order of its entries as a parameter.
\<close>

section \<open>The operator's settings\<close>

record url =
  url_scheme :: string
  url_host :: string

record operator_config =
  oc_operator_id :: string
  oc_namespace :: string
  oc_cluster_dns_zone :: string
  oc_elasticsearch_endpoint :: "url option"
  oc_metrics_interval :: duration
  oc_interval :: duration
  oc_autoscaler_interval :: duration
  oc_priority_node_selectors :: gomap

definition NewElasticsearchOperator ::
  "gomap \<Rightarrow> duration \<Rightarrow> duration \<Rightarrow> string \<Rightarrow> string \<Rightarrow> string \<Rightarrow> url option \<Rightarrow> operator_config" where
  "NewElasticsearchOperator priorityNodeSelectors interval autoscalerInterval operatorID namespace
     clusterDNSZone elasticsearchEndpoint =
     \<lparr>oc_operator_id = operatorID, oc_namespace = namespace, oc_cluster_dns_zone = clusterDNSZone,
      oc_elasticsearch_endpoint = elasticsearchEndpoint, oc_metrics_interval = 60000000000,
      oc_interval = interval, oc_autoscaler_interval = autoscalerInterval,
      oc_priority_node_selectors = priorityNodeSelectors\<rparr>"

definition hasOwnership :: "string \<Rightarrow> eds \<Rightarrow> bool" where
  "hasOwnership operatorID e =
     (case map_get (eds_annotations e) es_operator_annotation_key of
        None \<Rightarrow> operatorID = ''''
      | Some owner \<Rightarrow> owner = operatorID)"

definition getElasticsearchEndpoint :: "operator_config \<Rightarrow> eds \<Rightarrow> url" where
  "getElasticsearchEndpoint oc e =
     (case oc_elasticsearch_endpoint oc of
        Some u \<Rightarrow> u
      | None \<Rightarrow> \<lparr>url_scheme = ''http'',
          url_host = eds_name e @ ''.'' @ eds_namespace e @ ''.svc.'' @ oc_cluster_dns_zone oc @ '':9200''\<rparr>)"

definition getDrainingConfig :: "eds \<Rightarrow> draining_config" where
  "getDrainingConfig e =
     (case Option.bind (sp_experimental (eds_spec e)) ex_draining of
        None \<Rightarrow> \<lparr>dc_max_retries = 999, dc_minimum_wait = 10 * 1000000000, dc_maximum_wait = 30 * 1000000000\<rparr>
      | Some d \<Rightarrow> \<lparr>dc_max_retries = to_int64 (dr_max_retries d),
          dc_minimum_wait = dr_min_wait_seconds d * 1000000000,
          dc_maximum_wait = dr_max_wait_seconds d * 1000000000\<rparr>)"

section \<open>Collected resources\<close>

record es_resource =
  rs_eds :: eds
  rs_metric_set :: "metric_set option"
  rs_pods :: "pod list"

definition Replicas :: "es_resource \<Rightarrow> int32 option" where
  "Replicas es = edsReplicas (rs_eds es)"

type_synonym resources = "(string \<times> es_resource) list"

definition getOwnerUID :: "object_meta \<Rightarrow> string option" where
  "getOwnerUID m = (case om_owners m of [r] \<Rightarrow> Some (or_uid r) | _ \<Rightarrow> None)"

definition add_eds :: "string \<Rightarrow> resources \<Rightarrow> eds \<Rightarrow> resources" where
  "add_eds operatorID rs e =
     (if \<not> hasOwnership operatorID e then rs
      else AList.update (om_uid (eds_meta e)) \<lparr>rs_eds = typed e, rs_metric_set = None, rs_pods = []\<rparr> rs)"

definition add_metric_set :: "resources \<Rightarrow> metric_set \<Rightarrow> resources" where
  "add_metric_set rs ms =
     (case getOwnerUID (ms_meta ms) of
        None \<Rightarrow> rs
      | Some uid \<Rightarrow>
          (case map_of rs uid of
             None \<Rightarrow> rs
           | Some er \<Rightarrow> AList.update uid (er\<lparr>rs_metric_set := Some ms\<rparr>) rs))"

definition labelled_for :: "pod \<Rightarrow> es_resource \<Rightarrow> bool" where
  "labelled_for p es \<longleftrightarrow> map_get (pod_labels p) es_dataset_label_key = Some (eds_name (rs_eds es))"

text \<open>A pod goes to the first matching data set in the order the loop over the map sees them.\<close>

definition add_pod :: "(pod \<Rightarrow> resources \<Rightarrow> resources) \<Rightarrow> resources \<Rightarrow> pod \<Rightarrow> resources" where
  "add_pod order rs p =
     (case find (\<lambda>(uid, es). labelled_for p es) (order p rs) of
        None \<Rightarrow> rs
      | Some (uid, es) \<Rightarrow> AList.update uid (es\<lparr>rs_pods := rs_pods es @ [p]\<rparr>) rs)"

definition collectResources ::
  "operator_config \<Rightarrow> (pod \<Rightarrow> resources \<Rightarrow> resources) \<Rightarrow> resources io" where
  "collectResources oc order =
     io_bind (io_call (\<lambda>w tr. w_list_eds w tr (oc_namespace oc)) (ListEds (oc_namespace oc))) (\<lambda>r.
     io_bind (io_answer r) (\<lambda>edss.
     io_bind (io_call (\<lambda>w tr. w_list_metric_sets w tr (oc_namespace oc)) (ListMetricSets (oc_namespace oc))) (\<lambda>r.
     io_bind (io_answer r) (\<lambda>metricSets.
     io_bind (io_call (\<lambda>w tr. w_list_pods w tr (oc_namespace oc) None) (ListPods (oc_namespace oc) None)) (\<lambda>r.
     io_bind (io_answer r) (\<lambda>pods.
       io_return (foldl (add_pod order)
         (foldl add_metric_set (foldl (add_eds (oc_operator_id oc)) [] edss) metricSets) pods)))))))"

section \<open>Validation\<close>

definition validateScalingSettings :: "eds_scaling option \<Rightarrow> (error, unit) outcome" where
  "validateScalingSettings scaling =
     (case scaling of
        None \<Rightarrow> Ok ()
      | Some sc \<Rightarrow>
          if \<not> sc_enabled sc then Ok ()
          else if sint (sc_min_replicas sc) < 1
          then Err (InvalidScaling ''minReplicas must be at least 1 when autoscaling is enabled'')
          else if sint (sc_max_replicas sc) < sint (sc_min_replicas sc)
          then Err (InvalidScaling ''minReplicas can't be greater than maxReplicas'')
          else if sint (sc_max_index_replicas sc) < sint (sc_min_index_replicas sc)
          then Err (InvalidScaling ''minIndexReplicas can't be greater than maxIndexReplicas'')
          else if sint (sc_max_shards_per_node sc) < sint (sc_min_shards_per_node sc)
          then Err (InvalidScaling ''minShardsPerNode can't be greater than maxShardsPerNode'')
          else if sint (sc_min_replicas sc) < sint (sc_min_index_replicas sc + 1)
          then Err (InvalidScaling ''minReplicas can not be less than minIndexReplicas+1'')
          else if sint (sc_max_replicas sc) < sint (sc_max_index_replicas sc + 1)
          then Err (InvalidScaling ''maxReplicas can not be less than maxIndexReplicas+1'')
          else Ok ())"

section \<open>Scaling\<close>

text \<open>
  What the calculation depends on besides the world: the JSON texts, the wording of a description,
  the float conversions, the iteration orders, and the metrics interval.
\<close>

record scaling_env =
  sn_json :: json_texts
  sn_describe :: "description \<Rightarrow> string"
  sn_cv32 :: "f64 \<Rightarrow> int32"
  sn_cv64 :: "f64 \<Rightarrow> int64"
  sn_order1 :: "es_index list \<Rightarrow> es_index list"
  sn_order2 :: "es_index list \<Rightarrow> es_index list"
  sn_interval :: duration

text \<open>The clock is read for each of the two cool-downs; reading it has no effect.\<close>

definition GetScalingOperation :: "scaling_env \<Rightarrow> es_resource \<Rightarrow> scaling_operation io" where
  "GetScalingOperation env es =
     (let spec = eds_spec (rs_eds es) in
      io_bind (io_call w_now Now) (\<lambda>now_down.
      io_bind (io_call w_now Now) (\<lambda>now_up.
      io_bind (io_lift (scalingHint (sn_cv64 env) (sp_scaling spec) (eds_status (rs_eds es)) (rs_metric_set es)
                          (sn_interval env) now_down now_up)) (\<lambda>direction.
      io_bind (GetIndices (sp_exclude_system_indices spec)) (\<lambda>esIndices.
      io_bind GetShards (\<lambda>esShards.
      io_bind GetNodes (\<lambda>esNodes.
        io_lift (calculateScalingOperation (sn_cv32 env) (sn_order1 env) (sn_order2 env) spec
          (getManagedIndices (rs_pods es) esIndices esShards) (getManagedNodes (rs_pods es) esNodes)
          direction))))))))"

definition set_replicas :: "int32 option \<Rightarrow> eds \<Rightarrow> eds" where
  "set_replicas n e = e\<lparr>eds_spec := (eds_spec e)\<lparr>sp_replicas := n\<rparr>\<rparr>"

definition mark_scaling :: "time \<Rightarrow> int32 \<Rightarrow> int32 \<Rightarrow> eds \<Rightarrow> eds" where
  "mark_scaling now n currentReplicas e =
     (if sint currentReplicas < sint n
      then e\<lparr>eds_status := (eds_status e)\<lparr>ss_last_up_started := Some now\<rparr>\<rparr>
      else e\<lparr>eds_status := (eds_status e)\<lparr>ss_last_down_started := Some now\<rparr>\<rparr>)"

text \<open>The status is updated when the number of nodes changes; the answer is the data set from then on.\<close>

definition record_scaling :: "scaling_operation \<Rightarrow> int32 \<Rightarrow> eds \<Rightarrow> eds io" where
  "record_scaling op currentReplicas e =
     (case so_node_replicas op of
        None \<Rightarrow> io_return e
      | Some n \<Rightarrow>
          if n = currentReplicas then io_return e
          else io_bind (io_call w_now Now) (\<lambda>now.
               let e' = mark_scaling now n currentReplicas e
               in io_bind (io_call (\<lambda>w tr. w_update_eds_status w tr e') (UpdateEdsStatus e')) (\<lambda>r.
                  io_bind (io_answer r) (\<lambda>updated. io_return (set_replicas (Some n) updated)))))"

definition updateScalingOperation :: "scaling_env \<Rightarrow> es_resource \<Rightarrow> int32 \<Rightarrow> unit io" where
  "updateScalingOperation env es currentReplicas =
     io_bind (GetScalingOperation env es) (\<lambda>op.
     io_bind (record_scaling op currentReplicas (rs_eds es)) (\<lambda>e.
       let json = jt_write (sn_json env) (operation_value (sn_describe env) op)
       in if so_direction op \<noteq> NONE
          then io_bind (io_lift (map_set (eds_annotations e) es_scaling_operation_key json)) (\<lambda>annotations.
               let e' = set_annotations annotations e
               in io_bind (io_call (\<lambda>w tr. w_update_eds w tr e') (UpdateEds e')) (\<lambda>r.
                  io_bind (io_answer r) (\<lambda>_. io_return ())))
          else io_return ()))"

definition fallback_replicas :: "eds \<Rightarrow> int32" where
  "fallback_replicas e =
     (let current = ss_replicas (eds_status e);
          desired = (case sp_scaling (eds_spec e) of
              Some sc \<Rightarrow>
                if 0 < sint (sc_min_replicas sc)
                then (if 0 < sint current \<and> sint (sc_min_replicas sc) < sint current then current else sc_min_replicas sc)
                else if 0 < sint current then current else 1
            | None \<Rightarrow> if 0 < sint current then current else 1)
      in if sint desired < 1 then 1 else desired)"

text \<open>
  The data set of the resource is the data set that is scaled: setting its replicas is seen by the
  calculation.
\<close>

definition scaleEDS :: "scaling_env \<Rightarrow> es_resource \<Rightarrow> unit io" where
  "scaleEDS env es =
     (let e = rs_eds es; scaling = sp_scaling (eds_spec e) in
      io_bind (io_lift (validateScalingSettings scaling)) (\<lambda>_.
      io_bind (io_lift (edsScalingOperation (sn_json env) e)) (\<lambda>pending.
        if (case pending of None \<Rightarrow> False | Some op \<Rightarrow> op_direction op \<noteq> direction_code NONE)
        then io_return ()
        else (let currentReplicas = (case edsReplicas e of None \<Rightarrow> fallback_replicas e | Some n \<Rightarrow> n)
              in if (case scaling of None \<Rightarrow> False | Some sc \<Rightarrow> sc_enabled sc)
                 then updateScalingOperation env (es\<lparr>rs_eds := set_replicas (Some currentReplicas) e\<rparr>) currentReplicas
                 else io_return ()))))"

section \<open>One round of the autoscaler\<close>

definition scaling_enabled :: "es_resource \<Rightarrow> bool" where
  "scaling_enabled es = (case sp_scaling (eds_spec (rs_eds es)) of None \<Rightarrow> False | Some sc \<Rightarrow> sc_enabled sc)"

text \<open>Errors are logged and the round goes on; a panic ends the process.\<close>

fun scale_each :: "scaling_env \<Rightarrow> es_resource list \<Rightarrow> unit io" where
  "scale_each env [] = io_return ()"
| "scale_each env (es # ess) =
     io_bind (if scaling_enabled es then io_bind (io_try (scaleEDS env es)) (\<lambda>_. io_return ()) else io_return ())
       (\<lambda>_. scale_each env ess)"

definition autoscaler_round ::
  "operator_config \<Rightarrow> scaling_env \<Rightarrow> (pod \<Rightarrow> resources \<Rightarrow> resources) \<Rightarrow> (resources \<Rightarrow> es_resource list) \<Rightarrow> unit io" where
  "autoscaler_round oc env order visit =
     io_bind (io_try (collectResources oc order)) (\<lambda>r.
       case r of Inl _ \<Rightarrow> io_return () | Inr resources \<Rightarrow> scale_each env (visit resources))"

end
