(* ===== verification/OperatorProps.thy ===== *)
theory OperatorProps
  imports Operator PodProps
begin

text \<open>
  The contract of a stateful resource, as the operator of operator/operator.go relies on it, and
  what the operator guarantees on top of it: no pod is deleted before it has been drained, the
  StatefulSet is only written in the steps the rescaling allows, foreign StatefulSets are left
  alone.
\<close>

section \<open>Kinds of events\<close>

fun is_delete :: "event \<Rightarrow> bool" where
  "is_delete (DeletePod ns n g r) = True"
| "is_delete _ = False"

fun is_sts_write :: "event \<Rightarrow> bool" where
  "is_sts_write (CreateSts s r) = True"
| "is_sts_write (UpdateSts s r) = True"
| "is_sts_write _ = False"

fun is_eds_update :: "event \<Rightarrow> bool" where
  "is_eds_update (UpdateEds e a) = True"
| "is_eds_update _ = False"

definition resource_event :: "event \<Rightarrow> bool" where
  "resource_event e \<longleftrightarrow> \<not> is_delete e \<and> \<not> is_sts_write e"

definition sts_writes :: "trace \<Rightarrow> event list" where
  "sts_writes tr = filter is_sts_write tr"

lemma sts_writes_append [simp]: "sts_writes (tr @ es) = sts_writes tr @ sts_writes es"
  by (simp add: sts_writes_def)

definition steady :: "event \<Rightarrow> bool" where
  "steady e \<longleftrightarrow> \<not> is_sts_write e"

lemma sts_writes_steady: "adds steady tr tr' \<Longrightarrow> sts_writes tr' = sts_writes tr"
  by (auto simp: adds_def sts_writes_def steady_def filter_empty_conv)

lemma sts_writes_resource: "adds resource_event tr tr' \<Longrightarrow> sts_writes tr' = sts_writes tr"
  by (rule sts_writes_steady, erule adds_mono) (simp add: resource_event_def steady_def)

lemma resource_steady: "emits resource_event m \<Longrightarrow> emits steady m"
  by (rule emits_mono, assumption) (simp add: resource_event_def steady_def)

lemma bind_assoc: "io_bind (io_bind m f) g = io_bind m (\<lambda>a. io_bind (f a) g)"
  by (intro ext) (auto simp: io_bind_def split: prod.split outcome.split)

lemma bind_return: "io_bind (io_return a) f = f a"
  by (simp add: io_bind_def io_return_def)

lemma emits_prod [emits_intros]: "(\<And>a b. emits K (f a b)) \<Longrightarrow> emits K (case x of (a, b) \<Rightarrow> f a b)"
  by (cases x) simp

section \<open>The backoff package\<close>

text \<open>
  Its documented behaviour: the check is run at least once, again only after an error that is not
  marked permanent, and the last result is the result, with the permanent mark removed.
\<close>

fun unwrap_permanent :: "(error, unit) outcome \<Rightarrow> (error, unit) outcome" where
  "unwrap_permanent (Err (Permanent e)) = Err e"
| "unwrap_permanent r = r"

inductive backoff_run :: "unit io \<Rightarrow> world \<Rightarrow> trace \<Rightarrow> (error, unit) outcome \<Rightarrow> trace \<Rightarrow> bool" where
  last_run: "check w tr = (r, tr') \<Longrightarrow> backoff_run check w tr (unwrap_permanent r) tr'"
| run_again: "check w tr = (Err e, t) \<Longrightarrow> (\<forall>e'. e \<noteq> Permanent e') \<Longrightarrow> backoff_run check w t r tr' \<Longrightarrow>
    backoff_run check w tr r tr'"

definition documented_backoff :: "backoff \<Rightarrow> bool" where
  "documented_backoff bo \<longleftrightarrow>
     (\<forall>d check w tr. backoff_run check w tr (fst (bo d check w tr)) (snd (bo d check w tr)))"

lemma backoff_adds: "backoff_run check w tr r tr' \<Longrightarrow> emits K check \<Longrightarrow> adds K tr tr'"
proof (induction rule: backoff_run.induct)
  case (last_run check w tr r tr')
  then show ?case unfolding emits_def by (metis snd_conv)
next
  case (run_again check w tr e t r tr')
  then have "adds K tr t" unfolding emits_def by (metis snd_conv)
  with run_again show ?case by (blast intro: adds_trans)
qed

lemma backoff_emits:
  assumes "documented_backoff bo" "emits K check"
  shows "emits K (bo d check)"
  using assms backoff_adds unfolding documented_backoff_def emits_def by blast

lemma unwrap_Ok [simp]: "unwrap_permanent r = Ok u \<longleftrightarrow> r = Ok u"
  by (cases r rule: unwrap_permanent.cases) auto

lemma backoff_Ok: "backoff_run check w tr r tr' \<Longrightarrow> r = Ok u \<Longrightarrow> \<exists>t. check w t = (Ok u, tr')"
  by (induction rule: backoff_run.induct) auto

lemma check_sts_emits: "emits resource_event (check_sts_replicas sts)"
  unfolding check_sts_replicas_def by (intro emits_intros | simp add: resource_event_def)+

lemma stable_emits: "documented_backoff bo \<Longrightarrow> emits resource_event (waitForStableStatefulSet bo sts)"
  unfolding waitForStableStatefulSet_def by (rule backoff_emits [OF _ check_sts_emits])

lemma check_terminated_emits: "emits resource_event (check_terminated p)"
  unfolding check_terminated_def by (intro emits_intros | simp add: resource_event_def)+

lemma termination_emits: "documented_backoff bo \<Longrightarrow> emits resource_event (waitForPodTermination bo p)"
  unfolding waitForPodTermination_def
  by (cases "pod_grace_seconds p") (auto intro: emits_return backoff_emits check_terminated_emits)

definition harmless :: "event \<Rightarrow> bool" where
  "harmless e \<longleftrightarrow> \<not> is_delete e"

lemma resource_harmless: "emits resource_event m \<Longrightarrow> emits harmless m"
  by (rule emits_mono, assumption) (simp add: resource_event_def harmless_def)

text \<open>
  One step of a rescaling: up in one go, down by one replica.
\<close>

definition scale_step :: "int \<Rightarrow> int \<Rightarrow> int" where
  "scale_step current desired =
     (if current < desired then desired else if current = 0 then 0 else current - 1)"

lemma resource_adds: "adds resource_event tr tr' \<Longrightarrow> adds harmless tr tr'"
  by (erule adds_mono) (simp add: resource_event_def harmless_def)

section \<open>The contract of a stateful resource\<close>

text \<open>
  A family of resources: none of their own operations touches a pod or a StatefulSet, and a
  drain that succeeds leaves evidence at the end of the trace. What was fetched stays fetched.
\<close>

locale stateful_resources =
  fixes res :: "'r \<Rightarrow> stateful_resource"
    and good :: "'r \<Rightarrow> bool"
    and fetched :: "'r \<Rightarrow> trace \<Rightarrow> bool"
    and drained :: "'r \<Rightarrow> pod \<Rightarrow> trace \<Rightarrow> bool"
  assumes ensure_emits: "good r \<Longrightarrow> emits resource_event (sr_ensure_resources (res r))"
    and status_emits: "good r \<Longrightarrow> emits resource_event (sr_update_status (res r) sts)"
    and pre_emits: "good r \<Longrightarrow> emits resource_event (sr_pre_scale_down (res r))"
    and stable_hook_emits: "good r \<Longrightarrow> emits resource_event (sr_on_stable (res r))"
    and drain_emits: "good r \<Longrightarrow> emits resource_event (sr_drain (res r) p)"
    and drain_evidence: "good r \<Longrightarrow> sr_drain (res r) p w tr = (Ok u, tr') \<Longrightarrow> drained r p tr'"
    and fetched_mono: "fetched r tr \<Longrightarrow> fetched r (tr @ es)"
begin

definition yields :: "getter \<Rightarrow> bool" where
  "yields get \<longleftrightarrow> emits resource_event get \<and>
     (\<forall>w tr sr tr'. get w tr = (Ok sr, tr') \<longrightarrow> (\<exists>r. good r \<and> sr = res r \<and> fetched r tr'))"

definition evidence :: "pod \<Rightarrow> trace \<Rightarrow> bool" where
  "evidence p tr \<longleftrightarrow> (\<exists>r. good r \<and> fetched r tr \<and> drained r p tr)"

definition deletes_drained :: "trace \<Rightarrow> bool" where
  "deletes_drained tr \<longleftrightarrow> (\<forall>i < length tr. \<forall>ns n g a. tr ! i = DeletePod ns n g a \<longrightarrow>
     (\<exists>p. pod_namespace p = ns \<and> pod_name p = n \<and> pod_grace_seconds p = g \<and> evidence p (take i tr)))"

lemma deletes_drained_snoc:
  assumes "deletes_drained tr"
    and "\<And>ns n g a. e = DeletePod ns n g a \<Longrightarrow>
      \<exists>p. pod_namespace p = ns \<and> pod_name p = n \<and> pod_grace_seconds p = g \<and> evidence p tr"
  shows "deletes_drained (tr @ [e])"
  using assms by (auto simp: deletes_drained_def nth_append less_Suc_eq)

lemma deletes_drained_harmless:
  assumes "deletes_drained tr" "adds harmless tr tr'"
  shows "deletes_drained tr'"
proof -
  from assms(2) obtain es where es: "tr' = tr @ es" "\<forall>e \<in> set es. harmless e" by (auto simp: adds_def)
  have "deletes_drained (tr @ es)" using es(2)
  proof (induction es rule: rev_induct)
    case (snoc e es)
    then have "deletes_drained ((tr @ es) @ [e])"
      by (intro deletes_drained_snoc) (auto simp: harmless_def)
    then show ?case by simp
  qed (use assms(1) in simp)
  then show ?thesis by (simp add: es(1))
qed

lemma deletes_drained_valid:
  "emits harmless m \<Longrightarrow> valid deletes_drained m (\<lambda>_. deletes_drained) deletes_drained"
  by (rule valid_emits) (auto intro: deletes_drained_harmless)

text \<open>The assertion that is kept while the operator works with the resource r.\<close>

definition working :: "'r \<Rightarrow> trace \<Rightarrow> bool" where
  "working r tr \<longleftrightarrow> deletes_drained tr \<and> fetched r tr"

lemma working_valid: "emits harmless m \<Longrightarrow> valid (working r) m (\<lambda>_. working r) (working r)"
proof (rule valid_emits)
  fix tr tr' assume "working r tr" "adds harmless tr tr'"
  then show "working r tr'"
    using fetched_mono by (auto simp: working_def adds_def intro: deletes_drained_harmless)
qed

subsection \<open>Handlers that delete nothing\<close>

lemma resource_emits:
  assumes "good r"
  shows "emits harmless (sr_ensure_resources (res r))" "emits harmless (sr_update_status (res r) sts)"
    "emits harmless (sr_pre_scale_down (res r))" "emits harmless (sr_on_stable (res r))"
    "emits harmless (sr_drain (res r) p)"
  using assms by (auto intro: resource_harmless ensure_emits status_emits pre_emits stable_hook_emits drain_emits)

lemma yields_returns: "yields get \<Longrightarrow> returns (\<lambda>sr. \<exists>r. good r \<and> sr = res r) get"
  unfolding yields_def returns_def by blast

lemma emits_get:
  assumes "yields get" "\<And>e. resource_event e \<Longrightarrow> K e" "\<And>r. good r \<Longrightarrow> emits K (f (res r))"
  shows "emits K (io_bind get f)" "emits K (io_bind (io_wrap s get) f)"
proof -
  have e: "emits K get" using assms(1) unfolding yields_def by (blast intro: emits_mono assms(2))
  have r: "returns (\<lambda>sr. \<exists>r. good r \<and> sr = res r) get" by (rule yields_returns [OF assms(1)])
  show "emits K (io_bind get f)"
    by (rule emits_bind_returns [OF e r]) (auto intro: assms(3))
  show "emits K (io_bind (io_wrap s get) f)"
    by (rule emits_bind_returns [OF emits_wrap [OF e] returns_wrap [OF r]]) (auto intro: assms(3))
qed

lemma desired_returns:
  "yields get \<Longrightarrow> returns (\<lambda>(sr, d). \<exists>r. good r \<and> sr = res r) (getDesiredReplicas get)"
  unfolding getDesiredReplicas_def
  by (rule returns_bind [where P = "\<lambda>sr. \<exists>r. good r \<and> sr = res r"])
    (auto intro: returns_return returns_wrap yields_returns)

lemma desired_emits: "yields get \<Longrightarrow> emits resource_event (getDesiredReplicas get)"
  unfolding getDesiredReplicas_def by (rule emits_get) (auto intro: emits_return)

lemma emits_desired:
  assumes "yields get" "\<And>r d. good r \<Longrightarrow> emits resource_event (f (res r, d))"
  shows "emits resource_event (io_bind (getDesiredReplicas get) f)"
  using assms by (auto intro!: emits_bind_returns [OF desired_emits desired_returns])

lemma drain_pods_emits:
  assumes "yields get" "documented_backoff bo"
  shows "emits resource_event (drain_pods bo sts get desired ps)"
proof (induction ps)
  case (Cons p ps)
  then show ?case
    by (auto intro!: emits_desired [OF assms(1)] emits_intros Cons drain_emits stable_emits [OF assms(2)])
qed (simp add: emits_return)

lemma drain_scale_down_emits:
  assumes "yields get" "documented_backoff bo"
  shows "emits resource_event (drainPodsForScaleDown bo sts get pods n desired)"
  unfolding drainPodsForScaleDown_def by (intro emits_intros drain_pods_emits [OF assms])

lemma list_pods_emits: "emits resource_event (listStatefulSetPods sts)"
  unfolding listStatefulSetPods_def by (intro emits_intros) (simp add: resource_event_def)

lemma scale_target_emits: "good r \<Longrightarrow> emits resource_event (srScaleTarget (res r) c d)"
  unfolding srScaleTarget_def by (intro emits_intros pre_emits)

lemma rescale_emits:
  assumes "yields get" "documented_backoff bo"
  shows "emits harmless (rescaleStatefulSet bo sts get)"
  unfolding rescaleStatefulSet_def updateStatefulSetReplicas_def Let_def
proof (rule emits_bind_returns [OF resource_harmless [OF desired_emits] desired_returns], goal_cases)
  case (3 a)
  then obtain r d where a: "a = (res r, d)" "good r" by auto
  from a(2) show ?case
    unfolding a(1) prod.case
    by (auto intro!: emits_intros resource_harmless [OF scale_target_emits]
        resource_harmless [OF list_pods_emits] resource_harmless [OF drain_scale_down_emits [OF assms]]
        resource_harmless [OF stable_emits [OF assms(2)]] simp: harmless_def)
qed (use assms in auto)

lemma reconcile_emits:
  assumes "yields get"
  shows "emits harmless (reconcileStatefulset get)"
  unfolding reconcileStatefulset_def fetch_statefulset_def Let_def
  by (rule emits_get [OF assms]) (intro emits_intros | simp add: harmless_def resource_event_def)+

lemma update_to_quiet: "emits resource_event (getPodToUpdate selectors pods sts sr)"
  unfolding getPodToUpdate_def by (intro emits_intros | simp add: resource_event_def Let_def)+

lemmas update_to_emits = update_to_quiet [THEN resource_harmless]

lemma annotate_emits: "emits harmless (annotatePod p k v)"
  unfolding annotatePod_def by (intro emits_intros | simp add: harmless_def)+

subsection \<open>A pod is deleted after it has been drained\<close>

lemma drain_valid:
  assumes "good r"
  shows "valid (working r) (sr_drain (res r) p) (\<lambda>_ tr. working r tr \<and> evidence p tr) (working r)"
proof (rule validI)
  fix w tr assume "working r tr"
  then have h: "holds (\<lambda>_. working r) (working r) (sr_drain (res r) p w tr)"
    using validD [OF working_valid [OF resource_emits(5) [OF assms]]] by blast
  then show "holds (\<lambda>_ tr. working r tr \<and> evidence p tr) (working r) (sr_drain (res r) p w tr)"
    using drain_evidence [OF assms] assms unfolding evidence_def working_def
    by (cases "sr_drain (res r) p w tr" rule: result_cases) auto
qed

lemma delete_valid:
  "valid (\<lambda>tr. working r tr \<and> evidence p tr) (delete_pod p) (\<lambda>_. working r) (working r)"
  unfolding delete_pod_def
  by (intro valid_bind [where R = "\<lambda>_. working r"] valid_call valid_answer)
    (auto simp: working_def intro: deletes_drained_snoc fetched_mono)

lemma stable_valid:
  "documented_backoff bo \<Longrightarrow>
   valid (working r) (io_wrap s (waitForStableStatefulSet bo sts)) (\<lambda>_. working r) (working r)"
  by (intro working_valid emits_wrap resource_harmless stable_emits)

lemma update_pod_valid:
  assumes "good r" "documented_backoff bo"
  shows "valid (working r) (update_pod bo sts (res r) p) (\<lambda>_. working r) (working r)"
proof -
  have "valid (working r) (sr_on_stable (res r)) (\<lambda>_. working r) (working r)"
    using assms(1) by (intro working_valid resource_emits)
  moreover have "valid (working r) (io_try (waitForPodTermination bo p)) (\<lambda>_. working r) (working r)"
    by (intro working_valid emits_try resource_harmless termination_emits assms)
  moreover have "valid (working r) (io_wrap s (annotatePod p k v)) (\<lambda>_. working r) (working r)" for s k v
    by (intro working_valid emits_wrap annotate_emits)
  ultimately show ?thesis
    unfolding update_pod_def
    by (intro valid_bind [where R = "\<lambda>_. working r"] stable_valid [OF assms(2)]
        valid_bind [where R = "\<lambda>_ tr. working r tr \<and> evidence p tr"]
        valid_wrap [OF drain_valid [OF assms(1)]] valid_wrap [OF delete_valid])
qed

text \<open>A handler that goes on with the resource it has fetched.\<close>

lemma valid_fetch:
  assumes "yields get" "\<And>tr tr'. I tr \<Longrightarrow> adds resource_event tr tr' \<Longrightarrow> I tr'" "\<And>tr. I tr \<Longrightarrow> E tr"
    and "\<And>r. good r \<Longrightarrow> valid (\<lambda>tr. I tr \<and> fetched r tr) (f (res r)) Q E"
  shows "valid I (io_bind get f) Q E"
proof (rule validI)
  fix w tr assume "I tr"
  moreover have "adds resource_event tr (snd (get w tr))"
    using assms(1) unfolding yields_def emits_def by blast
  ultimately have I: "I (snd (get w tr))" by (rule assms(2))
  show "holds Q E (io_bind get f w tr)"
  proof (cases "get w tr" rule: result_cases)
    case (Ok sr t)
    then obtain r where "good r" "sr = res r" "I t \<and> fetched r t"
      using assms(1) I unfolding yields_def by force
    then show ?thesis using validD [OF assms(4)] by (simp add: io_bind_def Ok)
  qed (use I assms(3) in \<open>simp_all add: io_bind_def\<close>)
qed

lemma yields_wrap: "yields get \<Longrightarrow> yields (io_wrap s get)"
  unfolding yields_def
proof (intro conjI allI impI; elim conjE)
  fix w tr sr tr'
  assume y: "\<forall>w tr sr tr'. get w tr = (Ok sr, tr') \<longrightarrow> (\<exists>r. good r \<and> sr = res r \<and> fetched r tr')"
    and "io_wrap s get w tr = (Ok sr, tr')"
  then have "get w tr = (Ok sr, tr')" by (cases "get w tr" rule: result_cases) (auto simp: io_wrap_def)
  with y show "\<exists>r. good r \<and> sr = res r \<and> fetched r tr'" by blast
qed (rule emits_wrap)

lemma valid_get:
  assumes "yields get" "\<And>r. good r \<Longrightarrow> valid (working r) (f (res r)) (\<lambda>_. deletes_drained) deletes_drained"
  shows "valid deletes_drained (io_bind (io_wrap s get) f) (\<lambda>_. deletes_drained) deletes_drained"
proof (rule valid_fetch [OF yields_wrap [OF assms(1)]])
  fix tr tr' assume "deletes_drained tr" "adds resource_event tr tr'"
  then show "deletes_drained tr'"
    by (rule deletes_drained_harmless [OF _ resource_adds])
qed (use assms(2) in \<open>auto simp: working_def [abs_def]\<close>)

lemma working_weaken:
  "valid (working r) m (\<lambda>_. working r) (working r) \<Longrightarrow> valid (working r) m (\<lambda>_. deletes_drained) deletes_drained"
  by (erule valid_weaken) (auto simp: working_def)

lemma operate_pods_valid:
  assumes "yields get" "documented_backoff bo"
  shows "valid deletes_drained (operatePods bo selectors sts get) (\<lambda>_. deletes_drained) deletes_drained"
  unfolding operatePods_def Let_def
proof (rule valid_get [OF assms(1)], rule working_weaken, goal_cases)
  case (1 r)
  have call: "valid (working r) (io_call g ev) (\<lambda>_. working r) (working r)"
    if "\<And>r. harmless (ev r)" for g :: "world \<Rightarrow> trace \<Rightarrow> 'x" and ev
    using that by (intro working_valid emits_call)
  have answer: "valid (working r) (io_wrap s (io_answer x)) (\<lambda>_. working r) (working r)"
    for s and x :: "'x answer"
    by (intro working_valid emits_wrap emits_answer)
  have rescale: "valid (working r) (io_wrap s (rescaleStatefulSet bo sts get)) (\<lambda>_. working r) (working r)" for s
    by (intro working_valid emits_wrap rescale_emits assms)
  have hook: "valid (working r) (sr_on_stable (res r)) (\<lambda>_. working r) (working r)"
    using 1 by (intro working_valid resource_emits)
  have pick: "valid (working r) (io_wrap s (getPodToUpdate selectors pods sts (res r))) (\<lambda>_. working r) (working r)"
    for s pods by (intro working_valid emits_wrap update_to_emits)
  show ?case
    by (intro valid_if valid_bind [where R = "\<lambda>_. working r"] valid_option call answer rescale hook pick
        stable_valid [OF assms(2)] update_pod_valid [OF 1 assms(2)] | simp add: harmless_def)+
qed

lemma operate_valid:
  assumes "yields get" "documented_backoff bo"
  shows "valid deletes_drained (operate bo selectors get) (\<lambda>_. deletes_drained) deletes_drained"
  unfolding operate_def
proof (rule valid_get [OF assms(1)], goal_cases)
  case (1 r)
  have "valid deletes_drained
    (io_bind (io_wrap ''failed to ensure resources'' (sr_ensure_resources (res r))) (\<lambda>_.
     io_bind (io_wrap ''failed to reconcile StatefulSet'' (reconcileStatefulset get)) (\<lambda>sts.
     io_bind (io_wrap ''failed to update status'' (sr_update_status (res r) sts)) (\<lambda>_.
       operatePods bo selectors sts get)))) (\<lambda>_. deletes_drained) deletes_drained"
    by (intro valid_bind [where R = "\<lambda>_. deletes_drained"] deletes_drained_valid emits_wrap
        resource_emits [OF 1] reconcile_emits [OF assms(1)] operate_pods_valid [OF assms])
  then show ?case by (rule valid_pre) (simp add: working_def)
qed

subsection \<open>How the StatefulSet is scaled\<close>

text \<open>
  While the operator works with r, the StatefulSet has been written as in ws; or it has been
  scaled one step of a rescaling towards the replicas that r asks for.
\<close>

definition unwritten :: "'r \<Rightarrow> event list \<Rightarrow> trace \<Rightarrow> bool" where
  "unwritten r ws tr \<longleftrightarrow> sts_writes tr = ws \<and> fetched r tr"

definition rescaled :: "statefulset \<Rightarrow> event list \<Rightarrow> trace \<Rightarrow> bool" where
  "rescaled sts ws tr \<longleftrightarrow> sts_writes tr = ws \<or>
     (\<exists>r d a. good r \<and> fetched r tr \<and> sr_replicas (res r) = Some d \<and> d \<noteq> sts_replicas sts \<and>
        sts_writes tr = ws @ [UpdateSts (sts\<lparr>st_replicas := Some (word_of_int
          (scale_step (sint (sts_replicas sts)) (sint d)))\<rparr>) a])"

lemma unwritten_valid: "emits resource_event m \<Longrightarrow> valid (unwritten r ws) m (\<lambda>_. unwritten r ws) (unwritten r ws)"
proof (rule valid_emits)
  fix tr tr' assume "unwritten r ws tr" "adds resource_event tr tr'"
  then show "unwritten r ws tr'"
    using fetched_mono sts_writes_resource by (auto simp: unwritten_def adds_def)
qed

lemma rescaled_valid: "emits resource_event m \<Longrightarrow> valid (rescaled sts ws) m (\<lambda>_. rescaled sts ws) (rescaled sts ws)"
proof (rule valid_emits)
  fix tr tr' assume "rescaled sts ws tr" "adds resource_event tr tr'"
  moreover from this(2) have "sts_writes tr' = sts_writes tr" by (rule sts_writes_resource)
  ultimately show "rescaled sts ws tr'"
    using fetched_mono unfolding rescaled_def adds_def by metis
qed

lemma valid_get_unwritten:
  assumes "yields get" "\<And>r. good r \<Longrightarrow> valid (unwritten r ws) (f (res r)) Q E" "\<And>tr. sts_writes tr = ws \<Longrightarrow> E tr"
  shows "valid (\<lambda>tr. sts_writes tr = ws) (io_bind get f) Q E"
  by (rule valid_fetch [OF assms(1)])
    (use assms(2,3) in \<open>auto simp: unwritten_def [abs_def] sts_writes_resource\<close>)

lemma valid_desired:
  assumes "yields get"
    and "\<And>r. good r \<Longrightarrow> valid (unwritten r ws) (f (res r, map_option sint (sr_replicas (res r)))) Q E"
    and "\<And>tr. sts_writes tr = ws \<Longrightarrow> E tr"
  shows "valid (\<lambda>tr. sts_writes tr = ws) (io_bind (getDesiredReplicas get) f) Q E"
proof -
  have "io_bind (getDesiredReplicas get) f =
      io_bind (io_wrap ''failed to refresh EDS'' get) (\<lambda>sr. f (sr, map_option sint (sr_replicas sr)))"
    by (simp add: getDesiredReplicas_def bind_assoc bind_return)
  then show ?thesis
    using valid_get_unwritten [OF yields_wrap [OF assms(1)],
        where f = "\<lambda>sr. f (sr, map_option sint (sr_replicas sr))", OF assms(2,3)] by simp
qed

lemma scale_target_valid:
  assumes "good r"
  shows "valid (unwritten r ws) (srScaleTarget (res r) c (d - c))
    (\<lambda>n tr. unwritten r ws tr \<and> n = scale_step c d) (unwritten r ws)"
  unfolding srScaleTarget_def
  by (intro valid_if valid_bind [OF unwritten_valid [OF pre_emits [OF assms]]] valid_return)
    (auto simp: scale_step_def)

lemma rescale_valid:
  assumes "yields get" "documented_backoff bo"
  shows "valid (\<lambda>tr. sts_writes tr = ws) (rescaleStatefulSet bo sts get) (\<lambda>_. rescaled sts ws) (rescaled sts ws)"
  unfolding rescaleStatefulSet_def Let_def
proof (rule valid_desired [OF assms(1)], goal_cases)
  case (1 r)
  let ?c = "sint (sts_replicas sts)"
  have skip: "unwritten r ws tr \<Longrightarrow> rescaled sts ws tr" for tr
    by (simp add: unwritten_def rescaled_def)
  show ?case
  proof (cases "sr_replicas (res r)")
    case None
    then show ?thesis by (auto intro: valid_return skip)
  next
    case (Some d)
    let ?n = "scale_step ?c (sint d)"
    let ?sts = "sts\<lparr>st_replicas := Some (word_of_int ?n)\<rparr>"
    have wait: "valid (rescaled sts ws) (io_wrap s (waitForStableStatefulSet bo x)) (\<lambda>_. rescaled sts ws) (rescaled sts ws)"
      for s x by (intro rescaled_valid emits_wrap stable_emits assms)
    have answer: "valid (rescaled sts ws) (io_wrap s (io_answer x)) (\<lambda>_. rescaled sts ws) (rescaled sts ws)" for s x
      by (intro rescaled_valid emits_wrap emits_answer)
    have update: "valid (unwritten r ws) (updateStatefulSetReplicas bo sts ?n) (\<lambda>_. rescaled sts ws) (rescaled sts ws)"
      if "sint d \<noteq> ?c"
      unfolding updateStatefulSetReplicas_def Let_def
    proof (rule valid_bind)
      show "valid (unwritten r ws) (io_call (\<lambda>w tr. w_update_sts w tr ?sts) (UpdateSts ?sts)) (\<lambda>_. rescaled sts ws) (rescaled sts ws)"
        using 1 Some that fetched_mono
        by (intro valid_call) (auto simp: rescaled_def unwritten_def sts_writes_def)
    qed (intro valid_bind [OF answer] wait)
    have drained: "valid (unwritten r ws) (io_bind (listStatefulSetPods sts) (\<lambda>pods.
        io_bind (drainPodsForScaleDown bo sts get pods ?n (sint d)) (\<lambda>_. updateStatefulSetReplicas bo sts ?n)))
      (\<lambda>_. rescaled sts ws) (rescaled sts ws)" if "sint d \<noteq> ?c"
      using update [OF that] skip
      by (intro valid_bind [where R = "\<lambda>_. unwritten r ws"])
        (auto intro!: valid_weaken [OF unwritten_valid [OF list_pods_emits]]
          valid_weaken [OF unwritten_valid [OF drain_scale_down_emits [OF assms]]])
    have "valid (unwritten r ws) (io_bind (srScaleTarget (res r) ?c (sint d - ?c)) (\<lambda>n.
        io_bind (listStatefulSetPods sts) (\<lambda>pods.
        io_bind (drainPodsForScaleDown bo sts get pods n (sint d)) (\<lambda>_. updateStatefulSetReplicas bo sts n))))
      (\<lambda>_. rescaled sts ws) (rescaled sts ws)" if "sint d \<noteq> ?c"
    proof (rule valid_bind)
      show "valid (unwritten r ws) (srScaleTarget (res r) ?c (sint d - ?c))
        (\<lambda>n tr. unwritten r ws tr \<and> n = ?n) (rescaled sts ws)"
        by (rule valid_weaken [OF scale_target_valid [OF 1, where ws = ws]]) (auto intro: skip)
    qed (use drained that in \<open>auto simp: valid_def\<close>)
    then show ?thesis using skip by (auto simp: Some intro: valid_return)
  qed
qed (simp add: rescaled_def)

text \<open>Scaled by a rescaling, or out by one replica to make room for an update.\<close>

definition scaled :: "statefulset \<Rightarrow> event list \<Rightarrow> trace \<Rightarrow> bool" where
  "scaled sts ws tr \<longleftrightarrow> rescaled sts ws tr \<or>
     (\<exists>r a. good r \<and> fetched r tr \<and> sr_replicas (res r) = Some (sts_replicas sts) \<and>
        sts_writes tr = ws @ [UpdateSts (sts\<lparr>st_replicas := Some (sts_replicas sts + 1)\<rparr>) a])"

lemma scaled_valid: "emits steady m \<Longrightarrow> valid (scaled sts ws) m (\<lambda>_. scaled sts ws) (scaled sts ws)"
proof (rule valid_emits)
  fix tr tr' assume "scaled sts ws tr" "adds steady tr tr'"
  moreover from this(2) have "sts_writes tr' = sts_writes tr" by (rule sts_writes_steady)
  ultimately show "scaled sts ws tr'"
    using fetched_mono unfolding scaled_def rescaled_def adds_def by metis
qed

lemma unwritten_scaled: "unwritten r ws tr \<Longrightarrow> scaled sts ws tr"
  by (simp add: scaled_def rescaled_def unwritten_def)

lemma update_pod_steady:
  assumes "good r" "documented_backoff bo"
  shows "emits steady (update_pod bo sts (res r) p)"
  unfolding update_pod_def annotatePod_def delete_pod_def
  using assms by (auto intro!: emits_intros resource_steady [OF stable_emits] resource_steady [OF drain_emits]
      resource_steady [OF termination_emits] resource_steady [OF stable_hook_emits] simp: steady_def)

lemma rescale_scaled:
  assumes "yields get" "documented_backoff bo"
  shows "valid (unwritten r ws) (io_wrap s (rescaleStatefulSet bo sts get)) (\<lambda>_. scaled sts ws) (scaled sts ws)"
  by (rule valid_wrap, rule valid_weaken [OF rescale_valid [OF assms, where ws = ws]])
    (auto simp: scaled_def unwritten_def)

lemma operate_pods_scaled:
  assumes "yields get" "documented_backoff bo"
  shows "valid (\<lambda>tr. sts_writes tr = ws) (operatePods bo selectors sts get) (\<lambda>_. scaled sts ws) (scaled sts ws)"
  unfolding operatePods_def Let_def
proof (rule valid_get_unwritten [OF yields_wrap [OF assms(1)]], goal_cases)
  case (1 r)
  let ?sts = "sts\<lparr>st_replicas := Some (sts_replicas sts + 1)\<rparr>"
  have keep: "valid (unwritten r ws) (io_wrap s (getPodToUpdate selectors pods sts (res r))) (\<lambda>_. unwritten r ws) (scaled sts ws)"
    "valid (unwritten r ws) (io_wrap s (io_answer x)) (\<lambda>_. unwritten r ws) (scaled sts ws)"
    "valid (unwritten r ws) (io_call g (ListPods a b)) (\<lambda>_. unwritten r ws) (scaled sts ws)"
    for s pods g a b and x :: "pod list answer"
    by (rule valid_weaken [OF unwritten_valid], intro emits_intros update_to_quiet;
        auto simp: resource_event_def intro: unwritten_scaled)+
  have hook: "valid (scaled sts ws) (sr_on_stable (res r)) (\<lambda>_. scaled sts ws) (scaled sts ws)"
    using 1 by (intro scaled_valid resource_steady stable_hook_emits)
  have stable: "valid (scaled sts ws) (io_wrap s (waitForStableStatefulSet bo x)) (\<lambda>_. scaled sts ws) (scaled sts ws)"
    for s x by (intro scaled_valid emits_wrap resource_steady stable_emits assms)
  have answer: "valid (scaled sts ws) (io_wrap s (io_answer x)) (\<lambda>_. scaled sts ws) (scaled sts ws)"
    for s and x :: "statefulset answer" by (intro scaled_valid emits_wrap emits_answer)
  have update: "valid (scaled sts ws) (update_pod bo x (res r) p) (\<lambda>_. scaled sts ws) (scaled sts ws)" for x p
    by (intro scaled_valid update_pod_steady 1 assms)
  have update': "valid (unwritten r ws) (update_pod bo x (res r) p) (\<lambda>_. scaled sts ws) (scaled sts ws)" for x p
    by (rule valid_pre [OF update]) (rule unwritten_scaled)
  have surge: "valid (unwritten r ws) (io_call (\<lambda>w tr. w_update_sts w tr ?sts) (UpdateSts ?sts)) (\<lambda>_. scaled sts ws) (scaled sts ws)"
    if "sr_replicas (res r) = Some (sts_replicas sts)"
    using 1 that fetched_mono by (intro valid_call) (auto simp: scaled_def unwritten_def sts_writes_def)
  note rescale = rescale_scaled [OF assms]
  note later = valid_bind [where R = "\<lambda>_. unwritten r ws"] and after = valid_bind [where R = "\<lambda>_. scaled sts ws"]
  show ?case
  proof (rule valid_if)
    show "valid (unwritten r ws) (io_bind (io_wrap s (rescaleStatefulSet bo sts get)) (\<lambda>_. sr_on_stable (res r)))
      (\<lambda>_. scaled sts ws) (scaled sts ws)" for s
      by (rule after [OF rescale hook])
  next
    show "valid (unwritten r ws) (io_bind (io_call (\<lambda>w tr. w_list_pods w tr (sr_namespace (res r)) (sr_label_selector (res r)))
        (ListPods (sr_namespace (res r)) (sr_label_selector (res r)))) (\<lambda>x.
      io_bind (io_wrap ''failed to list pods'' (io_answer x)) (\<lambda>pods.
      io_bind (io_wrap ''failed to get Pod to update'' (getPodToUpdate selectors pods sts (res r))) (\<lambda>next.
        case next of
          None \<Rightarrow> io_bind (io_wrap ''failed to rescale StatefulSet'' (rescaleStatefulSet bo sts get)) (\<lambda>_.
            io_bind (io_wrap ''StatefulSet is not stable'' (waitForStableStatefulSet bo sts)) (\<lambda>_. sr_on_stable (res r)))
        | Some p \<Rightarrow>
            if sr_replicas (res r) = Some (sts_replicas sts)
            then io_bind (io_call (\<lambda>w tr. w_update_sts w tr ?sts) (UpdateSts ?sts)) (\<lambda>x.
              io_bind (io_wrap ''failed to scale StatefulSet'' (io_answer x)) (\<lambda>_. update_pod bo ?sts (res r) p))
            else update_pod bo sts (res r) p)))) (\<lambda>_. scaled sts ws) (scaled sts ws)"
      by (rule later [OF keep(3)], rule later [OF keep(2)], rule later [OF keep(1)], rule valid_option,
          rule after [OF rescale], rule after [OF stable hook], rule valid_if, rule after [OF surge], assumption,
          rule after [OF answer update], rule update')
  qed
qed (simp add: scaled_def rescaled_def)

end

end
