(* ===== verification/ScalingLemmas.thy ===== *)
theory ScalingLemmas
  imports Autoscaler
begin

text \<open>
  The lemma library of the scaling calculation: what the loops over the indices compute, the
  bounds of the node counts, and each branch of \<open>scaleUpOrDown\<close> as a fact of its own.
\<close>

section \<open>Bounding a node count\<close>

text \<open>
  The contract of a function that forces a node count into the bounds of the scaling settings;
  the client's facts on scaling follow from it alone.
\<close>

definition valid_bounds :: "eds_scaling \<Rightarrow> bool" where
  "valid_bounds sc \<longleftrightarrow> 1 \<le> sint (sc_min_replicas sc) \<and>
     sint (sc_min_replicas sc) \<le> sint (sc_max_replicas sc)"

definition within_bounds :: "eds_scaling \<Rightarrow> int32 \<Rightarrow> bool" where
  "within_bounds sc n \<longleftrightarrow> sint (sc_min_replicas sc) \<le> sint n \<and> sint n \<le> sint (sc_max_replicas sc)"

locale node_bounder =
  fixes bnd :: "eds_scaling \<Rightarrow> int32 \<Rightarrow> int32"
  assumes bnd_positive: "1 \<le> sint (bnd sc n)"
    and bnd_upper: "valid_bounds sc \<Longrightarrow> sint (bnd sc n) \<le> sint (sc_max_replicas sc)"
    and bnd_lower: "valid_bounds sc \<Longrightarrow> 1 \<le> sint n \<Longrightarrow> sint (sc_min_replicas sc) \<le> sint (bnd sc n)"
    and bnd_id: "valid_bounds sc \<Longrightarrow> within_bounds sc n \<Longrightarrow> bnd sc n = n"
    and bnd_mono: "valid_bounds sc \<Longrightarrow> sint m \<le> sint n \<Longrightarrow> sint (bnd sc m) \<le> sint (bnd sc n)"
begin

lemma bnd_within: "valid_bounds sc \<Longrightarrow> 1 \<le> sint n \<Longrightarrow> within_bounds sc (bnd sc n)"
  by (simp add: within_bounds_def bnd_upper bnd_lower)

lemma bnd_idem: "valid_bounds sc \<Longrightarrow> 1 \<le> sint n \<Longrightarrow> bnd sc (bnd sc n) = bnd sc n"
  by (rule bnd_id) (simp_all add: bnd_within)

lemma bnd_le_current:
  "valid_bounds sc \<Longrightarrow> within_bounds sc cur \<Longrightarrow> sint n \<le> sint cur \<Longrightarrow> sint (bnd sc n) \<le> sint cur"
  using bnd_mono [of sc n cur] by (simp add: bnd_id)

lemma bnd_ge_current:
  "valid_bounds sc \<Longrightarrow> within_bounds sc cur \<Longrightarrow> sint cur \<le> sint n \<Longrightarrow> sint cur \<le> sint (bnd sc n)"
  using bnd_mono [of sc cur n] by (simp add: bnd_id)

lemma bnd_ge_if_le_current:
  "valid_bounds sc \<Longrightarrow> within_bounds sc cur \<Longrightarrow> sint n \<le> sint cur \<Longrightarrow> sint n \<le> sint (bnd sc n)"
  using bnd_positive [of sc n] bnd_lower [of sc n] bnd_id [of sc n] bnd_upper [of sc n]
  by (cases "within_bounds sc n"; cases "1 \<le> sint n") (auto simp: within_bounds_def)

end

interpretation ensure_bounds: node_bounder ensureBoundsNodeReplicas
  by unfold_locales
    (auto simp: ensureBoundsNodeReplicas_def valid_bounds_def within_bounds_def Let_def)

text \<open>Below one node the function returns one, whatever the minimum.\<close>

lemma ensureBoundsNodeReplicas_below_one:
  "sint n < 1 \<Longrightarrow> ensureBoundsNodeReplicas sc n = 1"
  by (simp add: ensureBoundsNodeReplicas_def)

section \<open>The loops over the indices\<close>

definition word_shards :: "es_index list \<Rightarrow> int32" where
  "word_shards ixs = (\<Sum>ix\<leftarrow>ixs. ix_primaries ix * (ix_replicas ix + 1))"

definition index_fixes :: "eds_scaling \<Rightarrow> es_index \<Rightarrow> es_index list" where
  "index_fixes sc ix =
     (if sint (ix_replicas ix) < sint (sc_min_index_replicas sc)
      then [ix\<lparr>ix_replicas := sc_min_index_replicas sc\<rparr>] else []) @
     (if sint (sc_max_index_replicas sc) < sint (ix_replicas ix)
      then [ix\<lparr>ix_replicas := sc_max_index_replicas sc\<rparr>] else [])"

lemma scan_index_eq:
  "\<exists>dir'. scan_index sc (acc, dir, t) ix =
     (acc @ index_fixes sc ix, dir', t + ix_primaries ix * (ix_replicas ix + 1)) \<and>
     (index_fixes sc ix = [] \<longrightarrow> dir' = dir) \<and> (index_fixes sc ix \<noteq> [] \<longrightarrow> dir' \<noteq> NONE)"
  by (auto simp: scan_index_def index_fixes_def Let_def)

lemma scan_fold:
  "\<exists>dir'. foldl (scan_index sc) (acc, dir, t) ixs =
     (acc @ concat (map (index_fixes sc) ixs), dir', t + word_shards ixs) \<and>
     (concat (map (index_fixes sc) ixs) = [] \<longrightarrow> dir' = dir) \<and>
     (concat (map (index_fixes sc) ixs) \<noteq> [] \<longrightarrow> dir' \<noteq> NONE)"
proof (induction ixs arbitrary: acc dir t)
  case Nil
  show ?case by (simp add: word_shards_def)
next
  case (Cons ix ixs)
  obtain d1 where d1: "scan_index sc (acc, dir, t) ix =
     (acc @ index_fixes sc ix, d1, t + ix_primaries ix * (ix_replicas ix + 1))"
     "index_fixes sc ix = [] \<longrightarrow> d1 = dir" "index_fixes sc ix \<noteq> [] \<longrightarrow> d1 \<noteq> NONE"
    using scan_index_eq by blast
  obtain d2 where "foldl (scan_index sc)
      (acc @ index_fixes sc ix, d1, t + ix_primaries ix * (ix_replicas ix + 1)) ixs =
     ((acc @ index_fixes sc ix) @ concat (map (index_fixes sc) ixs), d2,
      t + ix_primaries ix * (ix_replicas ix + 1) + word_shards ixs)"
     "concat (map (index_fixes sc) ixs) = [] \<longrightarrow> d2 = d1"
     "concat (map (index_fixes sc) ixs) \<noteq> [] \<longrightarrow> d2 \<noteq> NONE"
    using Cons.IH by blast
  with d1 show ?case by (auto simp: word_shards_def add.assoc)
qed

lemma scan_indices_eq:
  "\<exists>dir. scan_indices sc ixs = (concat (map (index_fixes sc) ixs), dir, word_shards ixs) \<and>
     (dir = NONE \<longleftrightarrow> concat (map (index_fixes sc) ixs) = [])"
  using scan_fold [of sc "[]" NONE 0 ixs] by (auto simp: scan_indices_def)

definition fixes_of :: "eds_scaling \<Rightarrow> es_index list \<Rightarrow> es_index list" where
  "fixes_of sc ixs = concat (map (index_fixes sc) ixs)"

definition fix_direction :: "eds_scaling \<Rightarrow> es_index list \<Rightarrow> direction" where
  "fix_direction sc ixs = fst (snd (scan_indices sc ixs))"

lemma scan_indices_split:
  "scan_indices sc ixs = (fixes_of sc ixs, fix_direction sc ixs, word_shards ixs)"
  using scan_indices_eq [of sc ixs] by (auto simp: fixes_of_def fix_direction_def)

lemma fix_direction_NONE_iff: "fix_direction sc ixs = NONE \<longleftrightarrow> fixes_of sc ixs = []"
  using scan_indices_eq [of sc ixs] by (auto simp: fixes_of_def fix_direction_def)

lemma fixes_of_Nil_iff:
  "fixes_of sc ixs = [] \<longleftrightarrow>
   (\<forall>ix \<in> set ixs. sint (sc_min_index_replicas sc) \<le> sint (ix_replicas ix) \<and>
      sint (ix_replicas ix) \<le> sint (sc_max_index_replicas sc))"
  by (auto simp: fixes_of_def index_fixes_def split: if_splits)

lemma raise_indices_Inr:
  "raise_indices sc acc t ixs = Inr (newIxs, t') \<Longrightarrow>
   newIxs = acc @ map (\<lambda>ix. ix\<lparr>ix_replicas := ix_replicas ix + 1\<rparr>) ixs \<and>
   t' = t + (\<Sum>ix\<leftarrow>ixs. ix_primaries ix) \<and>
   (\<forall>ix \<in> set ixs. sint (ix_replicas ix) < sint (sc_max_index_replicas sc))"
proof (induction ixs arbitrary: acc t)
  case (Cons ix ixs)
  from Cons.prems have lt: "sint (ix_replicas ix) < sint (sc_max_index_replicas sc)"
    and rec: "raise_indices sc (acc @ [ix\<lparr>ix_replicas := ix_replicas ix + 1\<rparr>])
      (t + ix_primaries ix) ixs = Inr (newIxs, t')"
    by (auto split: if_splits)
  from Cons.IH [OF rec] lt show ?case by (auto simp: add.assoc)
qed simp

lemma raise_indices_Inl_iff:
  "(\<exists>ix. raise_indices sc acc t ixs = Inl ix) \<longleftrightarrow>
   (\<exists>ix \<in> set ixs. sint (sc_max_index_replicas sc) \<le> sint (ix_replicas ix))"
  by (induction ixs arbitrary: acc t) auto

definition lowerable :: "eds_scaling \<Rightarrow> es_index \<Rightarrow> bool" where
  "lowerable sc ix \<longleftrightarrow> sint (sc_min_index_replicas sc) < sint (ix_replicas ix)"

lemma lower_indices_eq:
  "lower_indices sc acc t ixs =
   (acc @ map (\<lambda>ix. ix\<lparr>ix_replicas := ix_replicas ix - 1\<rparr>) (filter (lowerable sc) ixs),
    t - (\<Sum>ix\<leftarrow>filter (lowerable sc) ixs. ix_primaries ix))"
  by (induction ixs arbitrary: acc t) (auto simp: lowerable_def algebra_simps)

section \<open>Regular indices: no overflow\<close>

definition int_shards :: "es_index list \<Rightarrow> int" where
  "int_shards ixs = (\<Sum>ix\<leftarrow>ixs. sint (ix_primaries ix) * (sint (ix_replicas ix) + 1))"

definition int_primaries :: "es_index list \<Rightarrow> int" where
  "int_primaries ixs = (\<Sum>ix\<leftarrow>ixs. sint (ix_primaries ix))"

definition regular_index :: "es_index \<Rightarrow> bool" where
  "regular_index ix \<longleftrightarrow> 1 \<le> sint (ix_primaries ix) \<and> 0 \<le> sint (ix_replicas ix)"

definition regular :: "es_index list \<Rightarrow> bool" where
  "regular ixs \<longleftrightarrow> (\<forall>ix \<in> set ixs. regular_index ix) \<and> int_shards ixs < 2147483648"

lemma int_shards_simps [simp]:
  "int_shards [] = 0"
  "int_shards (ix # ixs) = sint (ix_primaries ix) * (sint (ix_replicas ix) + 1) + int_shards ixs"
  by (simp_all add: int_shards_def)

lemma int_primaries_simps [simp]:
  "int_primaries [] = 0"
  "int_primaries (ix # ixs) = sint (ix_primaries ix) + int_primaries ixs"
  by (simp_all add: int_primaries_def)

lemma index_shards_ge:
  "regular_index ix \<Longrightarrow> sint (ix_primaries ix) \<le> sint (ix_primaries ix) * (sint (ix_replicas ix) + 1)"
  "regular_index ix \<Longrightarrow> sint (ix_replicas ix) + 1 \<le> sint (ix_primaries ix) * (sint (ix_replicas ix) + 1)"
  using mult_left_mono [of 1 "sint (ix_replicas ix) + 1" "sint (ix_primaries ix)"]
    mult_right_mono [of 1 "sint (ix_primaries ix)" "sint (ix_replicas ix) + 1"]
  by (auto simp: regular_index_def)

lemma index_shards_pos:
  assumes "regular_index ix"
  shows "1 \<le> sint (ix_primaries ix) * (sint (ix_replicas ix) + 1)"
proof -
  have "1 \<le> sint (ix_primaries ix)" using assms by (simp add: regular_index_def)
  also have "\<dots> \<le> sint (ix_primaries ix) * (sint (ix_replicas ix) + 1)"
    by (rule index_shards_ge(1) [OF assms])
  finally show ?thesis .
qed

lemma int_shards_ge_primaries:
  "\<forall>ix \<in> set ixs. regular_index ix \<Longrightarrow> int_primaries ixs \<le> int_shards ixs"
  by (induction ixs) (auto dest: index_shards_ge(1))

lemma int_primaries_ge: "\<forall>ix \<in> set ixs. regular_index ix \<Longrightarrow> int (length ixs) \<le> int_primaries ixs"
  by (induction ixs) (auto simp: regular_index_def)

lemma int_primaries_nonneg: "\<forall>ix \<in> set ixs. regular_index ix \<Longrightarrow> 0 \<le> int_primaries ixs"
  using int_primaries_ge [of ixs] by linarith

lemma regular_Cons:
  assumes "regular (ix # ixs)"
  shows "regular_index ix \<and> regular ixs"
proof -
  have r: "regular_index ix" "\<forall>ix \<in> set ixs. regular_index ix" using assms by (auto simp: regular_def)
  have "int_shards (ix # ixs) < 2147483648" using assms by (simp only: regular_def)
  then have "int_shards ixs < 2147483648"
    using index_shards_pos [OF r(1)] unfolding int_shards_simps by linarith
  with r show ?thesis by (simp add: regular_def)
qed

lemma word_index_shards:
  assumes "regular_index ix" "sint (ix_primaries ix) * (sint (ix_replicas ix) + 1) < 2147483648"
  shows "sint (ix_primaries ix * (ix_replicas ix + 1)) = sint (ix_primaries ix) * (sint (ix_replicas ix) + 1)"
proof -
  have "sint (ix_replicas ix + 1) = sint (ix_replicas ix) + 1"
    using index_shards_ge(2) [OF assms(1)] assms sint32_add [of "ix_replicas ix" 1]
    by (simp add: regular_index_def)
  moreover have "0 \<le> sint (ix_primaries ix) * (sint (ix_replicas ix) + 1)"
    using assms(1) by (simp add: regular_index_def)
  ultimately show ?thesis
    using assms(2) sint32_mult [of "ix_primaries ix" "ix_replicas ix + 1"] by simp
qed

lemma sint_word_shards: "regular ixs \<Longrightarrow> sint (word_shards ixs) = int_shards ixs"
proof (induction ixs)
  case (Cons ix ixs)
  let ?w = "ix_primaries ix * (ix_replicas ix + 1)"
  from regular_Cons [OF Cons.prems] have r: "regular_index ix" "regular ixs" by auto
  then have pos: "0 \<le> int_shards ixs" "0 \<le> int_primaries ixs"
    using int_shards_ge_primaries int_primaries_nonneg by (force simp: regular_def)+
  have ge: "1 \<le> sint (ix_primaries ix) * (sint (ix_replicas ix) + 1)"
    by (rule index_shards_pos [OF r(1)])
  have bd: "sint (ix_primaries ix) * (sint (ix_replicas ix) + 1) + int_shards ixs < 2147483648"
    using Cons.prems by (simp add: regular_def)
  then have w: "sint ?w = sint (ix_primaries ix) * (sint (ix_replicas ix) + 1)"
    using pos by (intro word_index_shards [OF r(1)]) simp
  have "sint (?w + word_shards ixs) = sint ?w + sint (word_shards ixs)"
    using bd ge pos Cons.IH [OF r(2)] w by (intro sint32_add) simp_all
  then show ?case using w Cons.IH [OF r(2)] by (simp add: word_shards_def)
qed (simp add: word_shards_def)

lemma sint_word_primaries:
  "\<forall>ix \<in> set ixs. regular_index ix \<Longrightarrow> int_primaries ixs < 2147483648 \<Longrightarrow>
   sint (\<Sum>ix\<leftarrow>ixs. ix_primaries ix) = int_primaries ixs"
proof (induction ixs)
  case (Cons ix ixs)
  have "0 \<le> int_primaries ixs" using Cons.prems by (intro int_primaries_nonneg) simp
  moreover have "1 \<le> sint (ix_primaries ix)" using Cons.prems by (simp add: regular_index_def)
  ultimately show ?case using Cons by (simp add: sint32_add)
qed simp

section \<open>What the calculators return within the bounds\<close>

definition realistic :: "int32 \<Rightarrow> bool" where
  "realistic n \<longleftrightarrow> 0 < sint n \<and> sint n \<le> 50000"

lemma same_ratio_fits:
  fixes t u :: int32
  assumes "realistic n" "sint t < sint u" "0 < sint t"
  shows "sint u * sint n < 2 ^ 49" "sint n < sint t \<Longrightarrow> same_ratio_nodes (sint n) (sint t) (sint u) < 2147483647"
proof -
  have n: "0 < sint n" "sint n \<le> 50000" using assms(1) by (auto simp: realistic_def)
  have "sint u * sint n \<le> sint u * 50000" using n assms by (intro mult_left_mono) auto
  then show "sint u * sint n < 2 ^ 49" using sint32_upper [of u] by simp
  assume nt: "sint n < sint t"
  have "sint u * sint n \<le> sint u * (sint t - 1)" using nt assms by (intro mult_left_mono) auto
  also have "\<dots> \<le> (sint u - 1) * sint t" using assms by (simp add: algebra_simps)
  finally have "ceil_quot (sint u * sint n) (sint t) \<le> sint u - 1"
    using ceil_quot_le_iff [OF assms(3)] by blast
  then show "same_ratio_nodes (sint n) (sint t) (sint u) < 2147483647"
    using nt sint32_upper [of u] by (simp add: same_ratio_nodes_def)
qed

lemma same_ratio_grows:
  assumes "realistic n" "sint t < sint u" "0 < sint t" "sint n \<le> sint u"
  shows "sint n \<le> sint (calculateNodesWithSameShardToNodeRatio cv n t u)"
proof (cases "sint t \<le> sint n")
  case True
  then show ?thesis using assms by (simp add: same_ratio_few_shards realistic_def)
next
  case False
  note f = same_ratio_fits [OF assms(1-3)]
  have "sint n \<le> same_ratio_nodes (sint n) (sint t) (sint u)"
    using assms by (intro same_ratio_nodes_greater) (auto simp: realistic_def)
  with same_ratio_nodes_result [of n u t cv] f False assms show ?thesis
    by (auto simp: realistic_def)
qed

lemma same_ratio_down:
  assumes "realistic n" "0 \<le> sint u" "sint u < sint t"
  shows "sint (calculateNodesWithSameShardToNodeRatio cv n t u) \<le> sint n"
    "0 \<le> sint (calculateNodesWithSameShardToNodeRatio cv n t u)"
    "sint u * sint n \<le> sint (calculateNodesWithSameShardToNodeRatio cv n t u) * max (sint t) (sint n)"
proof -
  have n: "0 < sint n" "sint n \<le> 50000" using assms(1) by (auto simp: realistic_def)
  have "sint u * sint n \<le> sint u * 50000" using n assms by (intro mult_left_mono) auto
  then have small: "sint u * sint n < 2 ^ 49" using sint32_upper [of u] by simp
  note b = same_ratio_shrinks [OF n(1) assms(2,3) small, of cv]
  show "sint (calculateNodesWithSameShardToNodeRatio cv n t u) \<le> sint n"
    "0 \<le> sint (calculateNodesWithSameShardToNodeRatio cv n t u)"
    using b .
  show "sint u * sint n \<le> sint (calculateNodesWithSameShardToNodeRatio cv n t u) * max (sint t) (sint n)"
  proof (cases "sint t \<le> sint n")
    case True
    then show ?thesis using n assms by (simp add: same_ratio_few_shards max_def)
  next
    case False
    let ?e = "ceil_quot (sint u * sint n) (sint t)"
    have t: "0 < sint t" using assms by linarith
    have e: "same_ratio_nodes (sint n) (sint t) (sint u) = ?e" using False by (simp add: same_ratio_nodes_def)
    have "?e \<le> sint n" using ceil_quot_le_nodes [OF t n(1) assms(3)] .
    then have "?e \<le> sint (calculateNodesWithSameShardToNodeRatio cv n t u)"
      using same_ratio_nodes_result [OF n(1) assms(2) small, of t cv] n(2) unfolding e by auto
    moreover have "sint u * sint n \<le> ?e * sint t" using ceil_quot_le_iff [OF t] by blast
    ultimately show ?thesis
      using False t mult_right_mono [of ?e _ "sint t"] by (auto simp: max_def intro: order_trans)
  qed
qed

lemma increased_ge:
  assumes "realistic n" "0 \<le> sint t" "sint n \<le> sint t"
  shows "sint n \<le> sint (calculateIncreasedNodes cv n t)"
  using assms calculateIncreasedNodes_grows [of n t cv] calculateIncreasedNodes_few_shards [of n t cv]
  by (cases "sint n < sint t") (auto simp: realistic_def)

lemma decreased_le:
  assumes "realistic n" "0 \<le> sint t"
  shows "1 \<le> sint (calculateDecreasedNodes cv n t)" "sint (calculateDecreasedNodes cv n t) \<le> sint n"
    "2 \<le> sint n \<Longrightarrow> sint (calculateDecreasedNodes cv n t) < sint n"
  using assms decreased_nodes_bounds [of "sint n" "sint t"]
  by (auto simp: calculateDecreasedNodes_exact realistic_def decreased_nodes_def)

lemma calculateScalingDirection_simps [simp]:
  "calculateScalingDirection cur n = UP \<longleftrightarrow> sint cur < sint n"
  "calculateScalingDirection cur n = DOWN \<longleftrightarrow> sint n < sint cur"
  "calculateScalingDirection cur n = NONE \<longleftrightarrow> n = cur"
  by (auto simp: calculateScalingDirection_def not_less dest: order_antisym simp flip: sint32_eq_iff)

lemma node_operation_simps [simp]:
  "so_direction (node_operation cur n ixs d) = calculateScalingDirection cur n"
  "so_node_replicas (node_operation cur n ixs d) = Some n"
  "so_index_replicas (node_operation cur n ixs d) = ixs"
  by (simp_all add: node_operation_def)

lemma noop_simps [simp]:
  "so_direction (noopScalingOperation d) = NONE"
  "so_node_replicas (noopScalingOperation d) = None"
  "so_index_replicas (noopScalingOperation d) = []"
  by (simp_all add: noopScalingOperation_def)

end
