(* ===== verification/ScalingBranches.thy ===== *)
theory ScalingBranches
  imports ScalingLemmas
begin

text \<open>
  The branches of \<open>scaleUpOrDown\<close> (operator/autoscaler.go) on valid settings and regular
  indices: which operation each of them returns, with the guards and the node counts read in
  integers.
\<close>

section \<open>The situation the calculation is made for\<close>

text \<open>
  Settings as \<open>validateScalingSettings\<close> and the resource schema allow them, a current node count
  within the bounds and of a realistic size, and indices whose shards a 32-bit sum can count.
\<close>

definition good_settings :: "eds_scaling \<Rightarrow> bool" where
  "good_settings sc \<longleftrightarrow> valid_bounds sc \<and> 0 \<le> sint (sc_min_index_replicas sc) \<and>
     sint (sc_min_index_replicas sc) \<le> sint (sc_max_index_replicas sc) \<and>
     1 \<le> sint (sc_min_shards_per_node sc) \<and>
     sint (sc_min_shards_per_node sc) \<le> sint (sc_max_shards_per_node sc)"

definition good_cluster :: "eds_scaling \<Rightarrow> es_index list \<Rightarrow> int32 \<Rightarrow> bool" where
  "good_cluster sc ixs cur \<longleftrightarrow> good_settings sc \<and> within_bounds sc cur \<and> realistic cur \<and>
     ixs \<noteq> [] \<and> regular ixs"

lemma good_cluster_facts:
  assumes "good_cluster sc ixs cur"
  shows "valid_bounds sc" "within_bounds sc cur" "realistic cur" "0 < sint cur"
    "sint (word_shards ixs) = int_shards ixs" "0 < int_shards ixs" "regular ixs"
    "1 \<le> sint (sc_min_shards_per_node sc)" "1 \<le> sint (sc_max_shards_per_node sc)"
proof -
  from assms have r: "regular ixs" and ne: "ixs \<noteq> []" by (auto simp: good_cluster_def)
  show "valid_bounds sc" "within_bounds sc cur" "realistic cur" "0 < sint cur" "regular ixs"
    "1 \<le> sint (sc_min_shards_per_node sc)" "1 \<le> sint (sc_max_shards_per_node sc)"
    using assms by (auto simp: good_cluster_def good_settings_def realistic_def)
  show "sint (word_shards ixs) = int_shards ixs" by (rule sint_word_shards [OF r])
  have "int (length ixs) \<le> int_primaries ixs" "int_primaries ixs \<le> int_shards ixs"
    using r by (auto simp: regular_def intro: int_primaries_ge int_shards_ge_primaries)
  with ne show "0 < int_shards ixs" by (cases ixs) auto
qed

text \<open>The guard of the first branch, in integers.\<close>

lemma ratio_exceeds_iff:
  assumes "good_cluster sc ixs cur"
  shows "flt (f64_of_int (sint (sc_max_shards_per_node sc))) (shardToNodeRatio (word_shards ixs) cur) \<longleftrightarrow>
    sint (sc_max_shards_per_node sc) * sint cur < int_shards ixs"
  using good_cluster_facts [OF assms] by (simp add: ratio_greater_iff del: f64_of_int)

definition exceeds :: "eds_scaling \<Rightarrow> es_index list \<Rightarrow> int32 \<Rightarrow> bool" where
  "exceeds sc ixs cur \<longleftrightarrow> sint (sc_max_shards_per_node sc) * sint cur < int_shards ixs"

lemma scaleUpOrDown_branches:
  assumes g: "good_cluster sc ixs1 cur"
  shows "exceeds sc ixs1 cur \<Longrightarrow> \<exists>d. scaleUpOrDown cv sc ixs1 ixs2 hint cur =
      node_operation cur (ensureBoundsNodeReplicas sc
        (word_of_int (ceil_quot (int_shards ixs1) (sint (sc_max_shards_per_node sc))))) [] d"
    and "\<not> exceeds sc ixs1 cur \<Longrightarrow> fixes_of sc ixs1 \<noteq> [] \<Longrightarrow>
      scaleUpOrDown cv sc ixs1 ixs2 hint cur =
        \<lparr>so_direction = fix_direction sc ixs1, so_node_replicas = None,
         so_index_replicas = fixes_of sc ixs1, so_description = FitIndexReplicas\<rparr>"
    and "\<not> exceeds sc ixs1 cur \<Longrightarrow> fixes_of sc ixs1 = [] \<Longrightarrow>
      scaleUpOrDown cv sc ixs1 ixs2 hint cur =
        (case hint of UP \<Rightarrow> scale_up cv sc ixs2 [] (word_shards ixs1) cur
         | DOWN \<Rightarrow> scale_down cv sc ixs2 [] (word_shards ixs1) cur
         | NONE \<Rightarrow>
             (let bounded = ensureBoundsNodeReplicas sc cur
              in if bounded \<noteq> cur then node_operation cur bounded [] (AdjustingToBounds bounded)
                 else noopScalingOperation NothingToDo))"
proof -
  note f = good_cluster_facts [OF g]
  have "f64_to_int32 cv (fceil (shardToNodeRatio (word_shards ixs1) (sc_max_shards_per_node sc))) =
    word_of_int (ceil_quot (int_shards ixs1) (sint (sc_max_shards_per_node sc)))"
    using ceil_ratio [of "sc_max_shards_per_node sc" "word_shards ixs1" cv] f by simp
  then show "exceeds sc ixs1 cur \<Longrightarrow> \<exists>d. scaleUpOrDown cv sc ixs1 ixs2 hint cur =
      node_operation cur (ensureBoundsNodeReplicas sc
        (word_of_int (ceil_quot (int_shards ixs1) (sint (sc_max_shards_per_node sc))))) [] d"
    using ratio_exceeds_iff [OF g]
    by (auto simp: scaleUpOrDown_def scan_indices_split exceeds_def Let_def simp del: f64_of_int)
qed (use ratio_exceeds_iff [OF g] in
    \<open>auto simp: scaleUpOrDown_def scan_indices_split exceeds_def Let_def simp del: f64_of_int\<close>)

text \<open>Nodes needed to respect the shard limit: always at least the current ones.\<close>

lemma exceeding_nodes:
  assumes g: "good_cluster sc ixs cur" and ex: "exceeds sc ixs cur"
  defines "n \<equiv> word_of_int (ceil_quot (int_shards ixs) (sint (sc_max_shards_per_node sc))) :: int32"
  shows "sint n = ceil_quot (int_shards ixs) (sint (sc_max_shards_per_node sc))" "sint cur < sint n"
    "sint cur \<le> sint (ensureBoundsNodeReplicas sc n)"
proof -
  note f = good_cluster_facts [OF g]
  let ?m = "sint (sc_max_shards_per_node sc)" and ?z = "ceil_quot (int_shards ixs) (sint (sc_max_shards_per_node sc))"
  have m: "0 < ?m" using f by linarith
  have "sint cur < ?z"
    using less_ceil_quot_iff [OF m, of "sint cur" "int_shards ixs"] ex
    by (simp add: exceeds_def mult.commute)
  moreover have "?z \<le> int_shards ixs" by (rule ceil_quot_le_self [OF m]) (use f in simp)
  moreover have "int_shards ixs < 2147483648" using f(7) by (simp add: regular_def)
  ultimately show z: "sint n = ?z" and lt: "sint cur < sint n"
    using f(4) by (auto simp: n_def sint32_word_of_int)
  show "sint cur \<le> sint (ensureBoundsNodeReplicas sc n)"
    using lt by (intro ensure_bounds.bnd_ge_current f) simp
qed

section \<open>The two hints\<close>

lemma int_primaries_pos:
  assumes "ixs \<noteq> []" "\<forall>ix \<in> set ixs. regular_index ix"
  shows "0 < int_primaries ixs"
  using int_primaries_ge [OF assms(2)] assms(1) by (cases ixs) auto

lemma sum_list_mset_cong:
  fixes f :: "'a \<Rightarrow> 'b::comm_monoid_add"
  assumes "mset xs = mset ys"
  shows "sum_list (map f xs) = sum_list (map f ys)"
proof -
  have "sum_mset (mset (map f xs)) = sum_mset (mset (map f ys))" using assms by simp
  then show ?thesis unfolding sum_mset_sum_list .
qed

lemma int_shards_mset: "mset ixs = mset ixs' \<Longrightarrow> int_shards ixs = int_shards ixs'"
  unfolding int_shards_def by (rule sum_list_mset_cong)

lemma word_shards_mset: "mset ixs = mset ixs' \<Longrightarrow> word_shards ixs = word_shards ixs'"
  unfolding word_shards_def by (rule sum_list_mset_cong)

lemma same_indices:
  assumes "good_cluster sc ixs cur" "mset ixs2 = mset ixs"
  shows "set ixs2 = set ixs" "good_cluster sc ixs2 cur" "int_shards ixs2 = int_shards ixs"
    "\<forall>ix \<in> set ixs2. regular_index ix"
proof -
  show s: "set ixs2 = set ixs" by (rule mset_eq_setD [OF assms(2)])
  show t: "int_shards ixs2 = int_shards ixs" by (rule int_shards_mset [OF assms(2)])
  show "good_cluster sc ixs2 cur" "\<forall>ix \<in> set ixs2. regular_index ix"
    using assms(1) s t by (auto simp: good_cluster_def regular_def)
qed

lemma no_growth_many_shards:
  assumes g: "good_cluster sc ixs cur" and m: "mset ixs2 = mset ixs"
    and u: "\<not> sint (word_shards ixs) < sint (word_shards ixs + (\<Sum>ix\<leftarrow>ixs2. ix_primaries ix))"
  shows "sint cur < int_shards ixs"
proof (rule ccontr)
  assume "\<not> sint cur < int_shards ixs"
  then have t: "int_shards ixs \<le> 50000" using g by (simp add: good_cluster_def realistic_def)
  note f = good_cluster_facts [OF g] and s = same_indices [OF g m]
  have p: "0 < int_primaries ixs2" using s g by (intro int_primaries_pos) (auto simp: good_cluster_def)
  have "int_primaries ixs2 \<le> int_shards ixs" using int_shards_ge_primaries [OF s(4)] s(3) by simp
  moreover from this t have "sint (\<Sum>ix\<leftarrow>ixs2. ix_primaries ix) = int_primaries ixs2"
    by (intro sint_word_primaries [OF s(4)]) simp
  ultimately have "sint (word_shards ixs + (\<Sum>ix\<leftarrow>ixs2. ix_primaries ix)) = int_shards ixs + int_primaries ixs2"
    using f(5,6) p t by (subst sint32_add) simp_all
  with u p f(5) show False by simp
qed

lemma scale_up_op:
  fixes cv :: "f64 \<Rightarrow> int32" and ixs2 :: "es_index list"
  assumes g: "good_cluster sc ixs cur" and m: "mset ixs2 = mset ixs"
  defines "op \<equiv> scale_up cv sc ixs2 [] (word_shards ixs) cur"
    and "n \<equiv> ensureBoundsNodeReplicas sc (calculateIncreasedNodes cv cur (word_shards ixs))"
  obtains (noop) d where "op = noopScalingOperation d"
    "\<exists>ix \<in> set ixs. sint (sc_max_index_replicas sc) \<le> sint (ix_replicas ix)"
  | (indices) r where "so_node_replicas op = Some r" "so_direction op = UP" "sint cur \<le> sint r"
    "within_bounds sc r"
    "raise_indices sc [] (word_shards ixs) ixs2 =
       Inr (so_index_replicas op, word_shards ixs + (\<Sum>ix\<leftarrow>ixs2. ix_primaries ix))"
    "int_shards ixs \<le> sint (sc_min_shards_per_node sc) * sint cur"
  | (nodes) "op = node_operation cur n [] (IncreasingNodes n)" "sint cur < int_shards ixs"
proof (cases "fle (shardToNodeRatio (word_shards ixs) cur) (f64_of_int (sint (sc_min_shards_per_node sc)))")
  case few: True
  note f = good_cluster_facts [OF g]
  have few': "int_shards ixs \<le> sint (sc_min_shards_per_node sc) * sint cur"
    using few f(4,5) by (simp add: ratio_le_iff del: f64_of_int)
  show thesis
  proof (cases "raise_indices sc [] (word_shards ixs) ixs2")
    case (Inl ix)
    then have "op = noopScalingOperation (MaxIndexReplicasReached (sc_max_index_replicas sc) (ix_index ix))"
      using few by (simp add: op_def scale_up_def Let_def del: f64_of_int)
    moreover have "\<exists>ix \<in> set ixs. sint (sc_max_index_replicas sc) \<le> sint (ix_replicas ix)"
      using Inl raise_indices_Inl_iff same_indices(1) [OF g m] by metis
    ultimately show thesis by (rule noop)
  next
    case (Inr p)
    obtain newIxs u where p: "p = (newIxs, u)" by (cases p)
    have u: "u = word_shards ixs + (\<Sum>ix\<leftarrow>ixs2. ix_primaries ix)"
      using raise_indices_Inr [OF Inr [unfolded p]] by simp
    show thesis
    proof (cases "sint (word_shards ixs) < sint u")
      case more: True
      let ?keep = "fle (f64_of_int (sint (sc_min_shards_per_node sc))) (shardToNodeRatio u cur)"
      let ?r = "ensureBoundsNodeReplicas sc (calculateNodesWithSameShardToNodeRatio cv cur (word_shards ixs) u)"
      have op: "so_node_replicas op = Some (if ?keep then ?r else cur)" "so_direction op = UP"
        "so_index_replicas op = newIxs"
        using few more Inr p by (simp_all add: op_def scale_up_def Let_def del: f64_of_int)
      have "sint cur \<le> sint ?r \<and> within_bounds sc ?r" if k: ?keep
      proof -
        have "sint (sc_min_shards_per_node sc) * sint cur \<le> sint u"
          using k f(4) by (simp add: ratio_ge_iff del: f64_of_int)
        moreover have "1 * sint cur \<le> sint (sc_min_shards_per_node sc) * sint cur"
          using f by (intro mult_right_mono) auto
        ultimately have "sint cur \<le> sint u" by linarith
        then have ge: "sint cur \<le> sint (calculateNodesWithSameShardToNodeRatio cv cur (word_shards ixs) u)"
          using more f by (intro same_ratio_grows) auto
        then show ?thesis
          using f by (intro conjI ensure_bounds.bnd_ge_current ensure_bounds.bnd_within) auto
      qed
      then show thesis using indices [OF op(1,2)] op(3) f(2) Inr p u few' by auto
    next
      case False
      moreover from this have "op = node_operation cur n [] (IncreasingNodes n)"
        using few Inr p by (simp add: op_def n_def scale_up_def Let_def del: f64_of_int)
      ultimately show thesis using nodes no_growth_many_shards [OF g m] u by blast
    qed
  qed
next
  case False
  note f = good_cluster_facts [OF g]
  have "sint (sc_min_shards_per_node sc) * sint cur < int_shards ixs"
    using False f(4,5) by (simp add: ratio_le_iff not_le del: f64_of_int)
  moreover have "1 * sint cur \<le> sint (sc_min_shards_per_node sc) * sint cur"
    using f by (intro mult_right_mono) auto
  ultimately have "sint cur < int_shards ixs" by linarith
  then show thesis
    using nodes False by (simp add: op_def n_def scale_up_def Let_def del: f64_of_int)
qed

definition lowered :: "eds_scaling \<Rightarrow> es_index list \<Rightarrow> int" where
  "lowered sc ixs = int_primaries (filter (lowerable sc) ixs)"

lemma lowered_leaves_shards:
  assumes "0 \<le> sint (sc_min_index_replicas sc)"
  shows "\<forall>ix \<in> set ixs. regular_index ix \<Longrightarrow> lowered sc ixs + int (length ixs) \<le> int_shards ixs"
proof (induction ixs)
  case (Cons ix ixs)
  let ?p = "sint (ix_primaries ix)" and ?r = "sint (ix_replicas ix)"
  have r: "1 \<le> ?p" "0 \<le> ?r" using Cons.prems by (auto simp: regular_index_def)
  have split: "?p * (?r + 1) = ?p * ?r + ?p" by (simp add: distrib_left)
  have IH: "lowered sc ixs + int (length ixs) \<le> int_shards ixs" using Cons by simp
  show ?case
  proof (cases "lowerable sc ix")
    case True
    then have "1 \<le> ?r" using assms by (simp add: lowerable_def)
    then have "?p * 1 \<le> ?p * ?r" using r by (intro mult_left_mono) simp_all
    then have "?p \<le> ?p * ?r" unfolding mult_1_right .
    moreover have "lowered sc (ix # ixs) = ?p + lowered sc ixs" using True by (simp add: lowered_def)
    ultimately show ?thesis using IH r split unfolding int_shards_simps length_Cons of_nat_Suc by linarith
  next
    case False
    then have "lowered sc (ix # ixs) = lowered sc ixs" by (simp add: lowered_def)
    moreover have "0 \<le> ?p * ?r" using r by simp
    ultimately show ?thesis using IH r split unfolding int_shards_simps length_Cons of_nat_Suc by linarith
  qed
qed (simp add: lowered_def)

lemma lowered_pos_iff:
  assumes "\<forall>ix \<in> set ixs. regular_index ix"
  shows "0 \<le> lowered sc ixs" "lowered sc ixs = 0 \<longleftrightarrow> filter (lowerable sc) ixs = []"
proof -
  have "int (length (filter (lowerable sc) ixs)) \<le> lowered sc ixs"
    unfolding lowered_def by (rule int_primaries_ge) (use assms in simp)
  then show "0 \<le> lowered sc ixs" "lowered sc ixs = 0 \<longleftrightarrow> filter (lowerable sc) ixs = []"
    by (cases "filter (lowerable sc) ixs"; simp add: lowered_def)+
qed

lemma lower_indices_total:
  assumes g: "good_cluster sc ixs cur" and m: "mset ixs2 = mset ixs"
  shows "sint (snd (lower_indices sc [] (word_shards ixs) ixs2)) = int_shards ixs - lowered sc ixs2"
    and "snd (lower_indices sc [] (word_shards ixs) ixs2) = word_shards ixs \<longleftrightarrow> filter (lowerable sc) ixs2 = []"
    and "1 \<le> int_shards ixs - lowered sc ixs2"
proof -
  note f = good_cluster_facts [OF g]
  let ?w = "\<Sum>ix\<leftarrow>filter (lowerable sc) ixs2. ix_primaries ix"
  have sets: "set ixs2 = set ixs" by (rule mset_eq_setD [OF m])
  have reg: "\<forall>ix \<in> set ixs2. regular_index ix" using f(7) sets by (simp add: regular_def)
  have mi: "0 \<le> sint (sc_min_index_replicas sc)" using g by (simp add: good_cluster_def good_settings_def)
  have "ixs2 \<noteq> []" using g sets by (auto simp: good_cluster_def)
  then have "1 \<le> int (length ixs2)" by (cases ixs2) auto
  with lowered_leaves_shards [OF mi reg] show le: "1 \<le> int_shards ixs - lowered sc ixs2"
    unfolding int_shards_mset [OF m] by linarith
  have lim: "int_shards ixs < 2147483648" using f(7) by (simp add: regular_def)
  have w: "sint ?w = lowered sc ixs2"
    using le lim reg sint_word_primaries [of "filter (lowerable sc) ixs2"] by (simp add: lowered_def)
  have l0: "0 \<le> lowered sc ixs2" by (rule lowered_pos_iff [OF reg])
  show t: "sint (snd (lower_indices sc [] (word_shards ixs) ixs2)) = int_shards ixs - lowered sc ixs2"
    using f(5) w le lim l0 by (simp add: lower_indices_eq sint32_diff)
  show "snd (lower_indices sc [] (word_shards ixs) ixs2) = word_shards ixs \<longleftrightarrow> filter (lowerable sc) ixs2 = []"
    using t f(5) lowered_pos_iff(2) [OF reg, of sc] by (auto simp flip: sint32_eq_iff)
qed

lemma scale_down_branches:
  fixes cv :: "f64 \<Rightarrow> int32"
  assumes g: "good_cluster sc ixs cur" and m: "mset ixs2 = mset ixs"
  defines "newIxs \<equiv> map (\<lambda>ix. ix\<lparr>ix_replicas := ix_replicas ix - 1\<rparr>) (filter (lowerable sc) ixs2)"
    and "u \<equiv> snd (lower_indices sc [] (word_shards ixs) ixs2)"
    and "r \<equiv> ensureBoundsNodeReplicas sc (calculateDecreasedNodes cv cur (word_shards ixs))"
  shows "filter (lowerable sc) ixs2 \<noteq> [] \<Longrightarrow> scale_down cv sc ixs2 [] (word_shards ixs) cur =
      node_operation cur (ensureBoundsNodeReplicas sc
        (calculateNodesWithSameShardToNodeRatio cv cur (word_shards ixs) u)) newIxs
        (KeepingRatioDecreasingReplicas (shardToNodeRatio (word_shards ixs) cur))"
    and "filter (lowerable sc) ixs2 = [] \<Longrightarrow> scale_down cv sc ixs2 [] (word_shards ixs) cur =
      (if sint (sc_max_shards_per_node sc) * sint r < int_shards ixs
       then noopScalingOperation (RatioWouldExceedLimit (shardToNodeRatio (word_shards ixs) r) (sc_max_shards_per_node sc))
       else node_operation cur r [] (DecreasingNodes r))"
proof -
  note f = good_cluster_facts [OF g] and l = lower_indices_total [OF g m]
  show "filter (lowerable sc) ixs2 \<noteq> [] \<Longrightarrow> scale_down cv sc ixs2 [] (word_shards ixs) cur =
      node_operation cur (ensureBoundsNodeReplicas sc
        (calculateNodesWithSameShardToNodeRatio cv cur (word_shards ixs) u)) newIxs
        (KeepingRatioDecreasingReplicas (shardToNodeRatio (word_shards ixs) cur))"
    using l(2) by (auto simp: scale_down_def lower_indices_eq Let_def u_def newIxs_def)
  have "0 < sint r" using ensure_bounds.bnd_positive [of sc "calculateDecreasedNodes cv cur (word_shards ixs)"]
    by (simp add: r_def)
  then have "flt (f64_of_int (sint (sc_max_shards_per_node sc))) (shardToNodeRatio (word_shards ixs) r) \<longleftrightarrow>
      sint (sc_max_shards_per_node sc) * sint r < int_shards ixs"
    using f(5) by (simp add: ratio_greater_iff del: f64_of_int)
  then show "filter (lowerable sc) ixs2 = [] \<Longrightarrow> scale_down cv sc ixs2 [] (word_shards ixs) cur =
      (if sint (sc_max_shards_per_node sc) * sint r < int_shards ixs
       then noopScalingOperation (RatioWouldExceedLimit (shardToNodeRatio (word_shards ixs) r) (sc_max_shards_per_node sc))
       else node_operation cur r [] (DecreasingNodes r))"
    by (simp add: scale_down_def lower_indices_eq Let_def r_def del: f64_of_int)
qed

end
