(* ===== verification/ControllerProps.thy ===== *)
theory ControllerProps
  imports Controller OperatorProps EsClientProps ScalingBranches
begin

text \<open>
  The autoscaling side of the operator: what validation guarantees to the calculation, what a
  scaling run stores in the data set, and that the stored operation is the one that is applied.
\<close>

section \<open>Validation\<close>

text \<open>
  C38. For settings with the minimums that the resource definition demands, validation accepts
  exactly the settings the calculation is proved for, in which moreover the least number of nodes
  has room for the least number of copies, and the largest for the largest number.
\<close>

theorem validated_settings:
  assumes "sc_enabled sc" "0 \<le> sint (sc_min_index_replicas sc)" "1 \<le> sint (sc_min_shards_per_node sc)"
    and "sint (sc_max_index_replicas sc) < 2147483647"
  shows "validateScalingSettings (Some sc) = Ok () \<longleftrightarrow>
    good_settings sc \<and> sint (sc_min_index_replicas sc) + 1 \<le> sint (sc_min_replicas sc) \<and>
    sint (sc_max_index_replicas sc) + 1 \<le> sint (sc_max_replicas sc)"
proof (cases "sint (sc_min_index_replicas sc) \<le> sint (sc_max_index_replicas sc)")
  case True
  then have "sint (sc_min_index_replicas sc + 1) = sint (sc_min_index_replicas sc) + 1"
    "sint (sc_max_index_replicas sc + 1) = sint (sc_max_index_replicas sc) + 1"
    using assms by (subst sint32_add; simp)+
  with assms True show ?thesis
    by (auto simp: validateScalingSettings_def good_settings_def valid_bounds_def)
next
  case False
  then show ?thesis
    using assms by (auto simp: validateScalingSettings_def good_settings_def)
qed

text \<open>
  Outside these minimums validation accepts settings that make no sense: the comment promises
  that no minimum is below zero, and the sums wrap around.
\<close>

definition odd_settings :: eds_scaling where
  "odd_settings =
     \<lparr>sc_enabled = True, sc_min_replicas = 1, sc_max_replicas = 3, sc_min_index_replicas = -5,
      sc_max_index_replicas = 2147483647, sc_min_shards_per_node = -1, sc_max_shards_per_node = 0,
      sc_up_cpu_boundary = 0, sc_up_threshold_seconds = 0, sc_up_cooldown_seconds = 0,
      sc_down_cpu_boundary = 0, sc_down_threshold_seconds = 0, sc_down_cooldown_seconds = 0,
      sc_disk_watermark = 0\<rparr>"

lemma odd_settings_accepted: "validateScalingSettings (Some odd_settings) = Ok ()"
  by code_simp

section \<open>Desired replicas\<close>


section \<open>The stored operation is the applied operation\<close>

lemma read_back:
  assumes "map_get m es_scaling_operation_key = Some (jt_write jt (operation_value describe op))"
    and "jt_read jt (jt_write jt (operation_value describe op)) = Some (operation_value describe op)"
  shows "edsScalingOperation jt (set_annotations m e) = Ok (Some (stored describe op))"
  using assms by (simp add: edsScalingOperation_def set_annotations_def read_operation_value)

text \<open>
  C15. What the autoscaler stores is what the operator applies: with the operation written into the
  annotations of a data set, applying its scaling operation updates the index settings to exactly
  the indices of the operation and then takes the annotation away, after which the data set has no
  scaling operation any more. The JSON texts are only assumed to read back what they wrote.
\<close>

theorem stored_operation_applied:
  assumes "jt_read jt (jt_write jt (operation_value describe op)) = Some (operation_value describe op)"
    and "map_set (eds_annotations e) es_scaling_operation_key (jt_write jt (operation_value describe op)) = Ok m"
    and "so_direction op \<noteq> NONE" "wf_map (eds_annotations e)"
  shows "applyScalingOperation jt (set_annotations m e) =
      io_bind (UpdateIndexSettings (so_index_replicas op)) (\<lambda>_. removeScalingOperationAnnotation (set_annotations m e)) \<and>
    (\<forall>w tr e' tr'. removeScalingOperationAnnotation (set_annotations m e) w tr = (Ok e', tr') \<longrightarrow>
      edsScalingOperation jt e' = Ok None)"
proof -
  have get: "map_get m es_scaling_operation_key = Some (jt_write jt (operation_value describe op))"
    using map_set_get [OF assms(2)] by simp
  have "applyScalingOperation jt (set_annotations m e) =
      io_bind (UpdateIndexSettings (so_index_replicas op)) (\<lambda>_. removeScalingOperationAnnotation (set_annotations m e))"
    using assms(3) by (intro ext)
      (simp add: applyScalingOperation_def read_back [OF get assms(1)] io_lift_def io_bind_def stored_def)
  moreover have "wf_map m" by (rule wf_map_set [OF assms(4,2)])
  from this have "map_get (map_delete m es_scaling_operation_key) es_scaling_operation_key = None"
    by (simp add: map_get_delete)
  then have "\<forall>w tr e' tr'. removeScalingOperationAnnotation (set_annotations m e) w tr = (Ok e', tr') \<longrightarrow>
      edsScalingOperation jt e' = Ok None"
    using get by (auto simp: removeScalingOperationAnnotation_def io_ok Let_def edsScalingOperation_def
        set_annotations_def get split: if_splits)
  ultimately show ?thesis by blast
qed

section \<open>A pending operation is left alone\<close>

text \<open>
  While an operation is pending, the autoscaler sends nothing for the data set: no request to
  Elasticsearch and no update, so an operation is never replaced before it has been applied.
\<close>

theorem pending_operation_kept:
  assumes "edsScalingOperation (sn_json env) (rs_eds es) = Ok (Some op)" "op_direction op \<noteq> direction_code NONE"
  shows "snd (scaleEDS env es w tr) = tr \<and>
    (validateScalingSettings (sp_scaling (eds_spec (rs_eds es))) = Ok () \<longrightarrow>
      scaleEDS env es w tr = (Ok (), tr))"
  using assms
  by (cases "validateScalingSettings (sp_scaling (eds_spec (rs_eds es)))")
    (auto simp: scaleEDS_def io_bind_def io_lift_def io_return_def Let_def)

section \<open>What a scaling run stores\<close>

lemma ensured_in_range:
  assumes "1 \<le> sint (sc_min_replicas sc)" "sint (sc_min_replicas sc) \<le> sint (sc_max_replicas sc)"
  shows "1 \<le> sint (ensureBoundsNodeReplicas sc n) \<and>
    sint (ensureBoundsNodeReplicas sc n) \<le> sint (sc_max_replicas sc)"
  using assms by (auto simp: ensureBoundsNodeReplicas_def Let_def)

definition in_range :: "eds_scaling \<Rightarrow> int32 \<Rightarrow> int32 option \<Rightarrow> bool" where
  "in_range sc cur r \<longleftrightarrow>
     (case r of None \<Rightarrow> True | Some n \<Rightarrow> n = cur \<or> 1 \<le> sint n \<and> sint n \<le> sint (sc_max_replicas sc))"

lemma in_range_simps [simp]:
  "in_range sc cur None" "in_range sc cur (Some cur)"
  "1 \<le> sint (sc_min_replicas sc) \<Longrightarrow> sint (sc_min_replicas sc) \<le> sint (sc_max_replicas sc) \<Longrightarrow>
   in_range sc cur (Some (ensureBoundsNodeReplicas sc n))"
  using ensured_in_range [of sc n] by (simp_all add: in_range_def)

text \<open>Whatever the cluster looks like, the calculation asks for a number of nodes in the range.\<close>

lemma operation_in_range:
  assumes "1 \<le> sint (sc_min_replicas sc)" "sint (sc_min_replicas sc) \<le> sint (sc_max_replicas sc)"
  shows "in_range sc cur (so_node_replicas (scaleUpOrDown cv sc ixs1 ixs2 hint cur))"
  using assms
  by (auto simp: scaleUpOrDown_def scale_up_def scale_down_def node_operation_def noopScalingOperation_def Let_def
      split: prod.splits direction.splits sum.splits)

lemma calculation_in_range:
  assumes "1 \<le> sint (sc_min_replicas sc)" "sint (sc_min_replicas sc) \<le> sint (sc_max_replicas sc)"
    and "sp_scaling spec = Some sc" "sp_replicas spec = Some cur"
    and "calculateScalingOperation cv ord1 ord2 spec managed nodes hint = Ok op"
  shows "in_range sc cur (so_node_replicas op)"
  using assms(3-5) operation_in_range [OF assms(1,2)]
  by (auto simp: calculateScalingOperation_def noopScalingOperation_def Let_def split: if_splits)

definition no_eds_update :: "event \<Rightarrow> bool" where
  "no_eds_update e \<longleftrightarrow> \<not> is_eds_update e"

lemma no_eds_updateD: "\<forall>e \<in> set es. no_eds_update e \<Longrightarrow> UpdateEds e a \<notin> set es"
  by (auto simp: no_eds_update_def)

lemma get_operation_emits: "emits no_eds_update (GetScalingOperation env es)"
  unfolding GetScalingOperation_def GetIndices_def GetShards_def GetNodes_def decode_def Let_def
  by (intro emits_intros | simp add: no_eds_update_def)+

lemma record_emits: "emits no_eds_update (record_scaling op cur e)"
  unfolding record_scaling_def Let_def by (intro emits_intros | simp add: no_eds_update_def)+

lemma emits_no_update: "emits no_eds_update m \<Longrightarrow> m w [] = (r, tr) \<Longrightarrow> UpdateEds e a \<notin> set tr"
  using emits_run [of no_eds_update m w "[]" r tr] no_eds_updateD by auto

lemma record_run:
  assumes "record_scaling op cur e w tr = (Ok e1, tr1)"
  shows "case so_node_replicas op of
      None \<Rightarrow> e1 = e
    | Some n \<Rightarrow> if n = cur then e1 = e
        else sp_replicas (eds_spec e1) = Some n \<and> (\<exists>s b. UpdateEdsStatus s (Inr b) \<in> set tr1)"
proof (cases "so_node_replicas op")
  case (Some n)
  show ?thesis
  proof (cases "n = cur")
    case False
    then obtain now b where "tr1 = tr @ [Now now, UpdateEdsStatus (mark_scaling now n cur e) (Inr b)]"
      "sp_replicas (eds_spec e1) = Some n"
      using assms by (auto simp: record_scaling_def io_ok set_replicas_def Let_def Some)
    then have "UpdateEdsStatus (mark_scaling now n cur e) (Inr b) \<in> set tr1" "sp_replicas (eds_spec e1) = Some n"
      by auto
    then show ?thesis using Some False by auto
  qed (use assms Some in \<open>simp add: record_scaling_def io_ok\<close>)
qed (use assms in \<open>simp add: record_scaling_def io_ok\<close>)

lemma get_operation_range:
  assumes "GetScalingOperation env es w tr = (Ok op, tr')"
    and "sp_scaling (eds_spec (rs_eds es)) = Some sc" "sp_replicas (eds_spec (rs_eds es)) = Some cur"
    and "1 \<le> sint (sc_min_replicas sc)" "sint (sc_min_replicas sc) \<le> sint (sc_max_replicas sc)"
  shows "in_range sc cur (so_node_replicas op)"
  using assms(1) calculation_in_range [OF assms(4,5,2,3)]
  by (auto simp: GetScalingOperation_def io_ok Let_def)

lemma update_operation_run:
  assumes "updateScalingOperation env es cur w [] = (r, tr)" "UpdateEds e' a \<in> set tr"
  shows "\<exists>op t e1 t1 m. GetScalingOperation env es w [] = (Ok op, t) \<and>
    record_scaling op cur (rs_eds es) w t = (Ok e1, t1) \<and> so_direction op \<noteq> NONE \<and>
    map_set (eds_annotations e1) es_scaling_operation_key
      (jt_write (sn_json env) (operation_value (sn_describe env) op)) = (Ok m :: (error, gomap) outcome) \<and>
    e' = set_annotations m e1 \<and> tr = t1 @ [UpdateEds e' a]"
proof (cases "GetScalingOperation env es w []" rule: result_cases)
  case op: (Ok op t)
  have t: "UpdateEds e b \<notin> set t" for e b by (rule emits_no_update [OF get_operation_emits op])
  have t1: "UpdateEds e b \<notin> set t1" if "record_scaling op cur (rs_eds es) w t = (x, t1)" for e b x t1
    using emits_run [OF record_emits that] t no_eds_updateD by auto
  show ?thesis
  proof (cases "record_scaling op cur (rs_eds es) w t" rule: result_cases)
    case (Ok e1 t')
    from assms t1 [OF Ok] show ?thesis
      by (cases "eds_annotations e1")
        (auto simp: map_set_def updateScalingOperation_def op Ok io_bind_def Let_def io_lift_def io_call_def io_answer_def
          io_return_def io_fail_def split: if_splits sum.splits)
  qed (use assms t1 in \<open>auto simp: updateScalingOperation_def op io_bind_def\<close>)
qed (use assms emits_no_update [OF get_operation_emits] in \<open>auto simp: updateScalingOperation_def io_bind_def\<close>)

text \<open>A scaling run that updates the data set: its settings and what is pending let it calculate.\<close>

lemma scale_run:
  assumes "scaleEDS env es w [] = (r, tr)" "UpdateEds e' a \<in> set tr"
  shows "\<exists>sc cur. sp_scaling (eds_spec (rs_eds es)) = Some sc \<and> sc_enabled sc \<and>
    validateScalingSettings (Some sc) = Ok () \<and>
    (case edsScalingOperation (sn_json env) (rs_eds es) of
       Ok None \<Rightarrow> True | Ok (Some p) \<Rightarrow> op_direction p = direction_code NONE | _ \<Rightarrow> False) \<and>
    edsReplicas (rs_eds es) = Some cur \<and>
    1 \<le> sint (sc_min_replicas sc) \<and> sint (sc_min_replicas sc) \<le> sint (sc_max_replicas sc) \<and>
    updateScalingOperation env (es\<lparr>rs_eds := set_replicas (Some cur) (rs_eds es)\<rparr>) cur w [] = (r, tr)"
proof -
  let ?e = "rs_eds es"
  let ?cur = "case edsReplicas ?e of None \<Rightarrow> fallback_replicas ?e | Some n \<Rightarrow> n"
  obtain sc x where v: "validateScalingSettings (sp_scaling (eds_spec ?e)) = Ok ()"
    and x: "edsScalingOperation (sn_json env) ?e = Ok x" "case x of None \<Rightarrow> True | Some p \<Rightarrow> op_direction p = direction_code NONE"
    and sc: "sp_scaling (eds_spec ?e) = Some sc" "sc_enabled sc"
    and run: "updateScalingOperation env (es\<lparr>rs_eds := set_replicas (Some ?cur) ?e\<rparr>) ?cur w [] = (r, tr)"
    using assms
    by (auto simp: scaleEDS_def Let_def io_bind_def io_lift_def io_return_def
        split: outcome.splits if_splits option.splits)
  have b: "1 \<le> sint (sc_min_replicas sc)" "sint (sc_min_replicas sc) \<le> sint (sc_max_replicas sc)"
    using v sc by (auto simp: validateScalingSettings_def split: if_splits)
  then obtain cur where cur: "edsReplicas ?e = Some cur"
    using sc by (cases "sp_replicas (eds_spec ?e)") (auto simp: edsReplicas_def Let_def)
  have "case edsScalingOperation (sn_json env) ?e of
      Ok None \<Rightarrow> True | Ok (Some p) \<Rightarrow> op_direction p = direction_code NONE | _ \<Rightarrow> False"
    using x by (simp split: option.splits)
  with v sc b cur run show ?thesis by (intro exI [of _ sc] exI [of _ cur]) simp
qed


text \<open>The data set it leaves always has desired replicas, and a changed number is in the range.\<close>

lemma edsReplicas_set: "sp_replicas (eds_spec e) = Some n \<Longrightarrow> edsReplicas e = Some n"
  by (simp add: edsReplicas_def Let_def split: option.splits)

lemma stored_replicas:
  assumes "scaleEDS env es w [] = (r, tr)" "UpdateEds e' a \<in> set tr" "sp_scaling (eds_spec (rs_eds es)) = Some sc"
  shows "\<exists>d. edsReplicas e' = Some d \<and>
    (edsReplicas (rs_eds es) = Some d \<or> 1 \<le> sint d \<and> sint d \<le> sint (sc_max_replicas sc))"
proof -
  obtain cur where cur: "edsReplicas (rs_eds es) = Some cur"
    and b: "1 \<le> sint (sc_min_replicas sc)" "sint (sc_min_replicas sc) \<le> sint (sc_max_replicas sc)"
    and run: "updateScalingOperation env (es\<lparr>rs_eds := set_replicas (Some cur) (rs_eds es)\<rparr>) cur w [] = (r, tr)"
    using scale_run [OF assms(1,2)] assms(3) by auto
  let ?es = "es\<lparr>rs_eds := set_replicas (Some cur) (rs_eds es)\<rparr>"
  from update_operation_run [OF run assms(2)] obtain op t e1 t1 m where
    op: "GetScalingOperation env ?es w [] = (Ok op, t)" and rec: "record_scaling op cur (rs_eds ?es) w t = (Ok e1, t1)"
    and e': "e' = set_annotations m e1" by blast
  have "in_range sc cur (so_node_replicas op)"
    by (rule get_operation_range [OF op]) (use assms(3) b in \<open>auto simp: set_replicas_def\<close>)
  then have "\<exists>d. sp_replicas (eds_spec e') = Some d \<and> (cur = d \<or> 1 \<le> sint d \<and> sint d \<le> sint (sc_max_replicas sc))"
    using record_run [OF rec]
    by (auto simp: e' set_annotations_def set_replicas_def in_range_def split: option.splits if_splits)
  then show ?thesis using cur edsReplicas_set by auto
qed

end
