(* ===== verification/ReconcileProps.thy ===== *)
theory ReconcileProps
  imports OperatorProps
begin

text \<open>
  What the reconciliation of the StatefulSet in operator/operator.go writes: a new StatefulSet
  only when there is none, a change only of an owned one with an outdated generation, and never
  its replicas.
\<close>

section \<open>Generations\<close>

lemma generation_new [simp]:
  "getSTSParentGeneration (desired_statefulset sr t l (new_statefulset sr)) = sr_generation sr"
  by (simp add: getSTSParentGeneration_def desired_statefulset_def new_statefulset_def map_get_def)

lemma generation_annotated [simp]: "getSTSParentGeneration (annotate_generation sr s) = sr_generation sr"
  by (simp add: getSTSParentGeneration_def annotate_generation_def map_get_def update_conv' Let_def)

lemma generation_desired [simp]:
  "getSTSParentGeneration (desired_statefulset sr t l s) = getSTSParentGeneration s"
  by (simp add: getSTSParentGeneration_def desired_statefulset_def)

section \<open>Creation and correction\<close>

definition created_for :: "stateful_resource \<Rightarrow> statefulset \<Rightarrow> bool" where
  "created_for sr s \<longleftrightarrow>
     st_name s = sr_name sr \<and> st_namespace s = sr_namespace sr \<and>
     isOwnedReference (sr_api_version sr) (sr_kind sr) (sr_uid sr) (sr_name sr) (st_owners s) \<and>
     st_replicas s = sr_replicas sr \<and> (case sr_replicas sr of None \<Rightarrow> True | Some n \<Rightarrow> 1 \<le> sint n) \<and>
     getSTSParentGeneration s = sr_generation sr"

definition corrected_for :: "stateful_resource \<Rightarrow> statefulset \<Rightarrow> statefulset \<Rightarrow> bool" where
  "corrected_for sr s0 s \<longleftrightarrow>
     isOwnedReference (sr_api_version sr) (sr_kind sr) (sr_uid sr) (sr_name sr) (st_owners s0) \<and>
     getSTSParentGeneration s0 \<noteq> sr_generation sr \<and> getSTSParentGeneration s = sr_generation sr \<and>
     st_replicas s = st_replicas s0 \<and> st_volume_claims s = st_volume_claims s0 \<and>
     st_name s = st_name s0 \<and> st_namespace s = st_namespace s0 \<and> st_owners s = st_owners s0 \<and>
     st_update_strategy s = ''OnDelete''"

lemma created_for_new:
  "\<not> (case sr_replicas sr of None \<Rightarrow> False | Some n \<Rightarrow> sint n < 1) \<Longrightarrow>
   created_for sr (desired_statefulset sr t l (new_statefulset sr))"
  unfolding created_for_def generation_new
  by (simp add: desired_statefulset_def new_statefulset_def isOwnedReference_def split: option.splits)

lemma corrected_for_update:
  "isOwnedReference (sr_api_version sr) (sr_kind sr) (sr_uid sr) (sr_name sr) (st_owners s0) \<Longrightarrow>
   getSTSParentGeneration s0 \<noteq> sr_generation sr \<Longrightarrow>
   corrected_for sr s0 (annotate_generation sr (desired_statefulset sr t l s0))"
  unfolding corrected_for_def generation_annotated
  by (simp add: annotate_generation_def desired_statefulset_def Let_def)

context stateful_resources
begin

definition created :: "'r \<Rightarrow> trace \<Rightarrow> event \<Rightarrow> bool" where
  "created r tr ev \<longleftrightarrow>
     GetSts (sr_namespace (res r)) (sr_name (res r)) (Inl KubeNotFound) \<in> set tr \<and>
     (\<exists>s a. ev = CreateSts s a \<and> created_for (res r) s)"

definition corrected :: "'r \<Rightarrow> trace \<Rightarrow> event \<Rightarrow> bool" where
  "corrected r tr ev \<longleftrightarrow>
     (\<exists>s0 s a. GetSts (sr_namespace (res r)) (sr_name (res r)) (Inr s0) \<in> set tr \<and>
        ev = UpdateSts s a \<and> corrected_for (res r) s0 s)"

definition reconciled :: "event list \<Rightarrow> trace \<Rightarrow> bool" where
  "reconciled ws tr \<longleftrightarrow> sts_writes tr = ws \<or>
     (\<exists>r ev. good r \<and> fetched r tr \<and> sts_writes tr = ws @ [ev] \<and> (created r tr ev \<or> corrected r tr ev))"

lemma reconciled_valid: "emits steady m \<Longrightarrow> valid (reconciled ws) m (\<lambda>_. reconciled ws) (reconciled ws)"
proof (rule valid_emits)
  fix tr tr' assume "reconciled ws tr" "adds steady tr tr'"
  moreover from this(2) have "sts_writes tr' = sts_writes tr" "\<exists>es. tr' = tr @ es"
    by (auto intro: sts_writes_steady simp: adds_def)
  ultimately show "reconciled ws tr'"
    unfolding reconciled_def created_def corrected_def using fetched_mono by (metis UnCI set_append)
qed

definition seen :: "'r \<Rightarrow> event list \<Rightarrow> statefulset option \<Rightarrow> trace \<Rightarrow> bool" where
  "seen r ws existing tr \<longleftrightarrow> unwritten r ws tr \<and>
     (case existing of
        None \<Rightarrow> GetSts (sr_namespace (res r)) (sr_name (res r)) (Inl KubeNotFound) \<in> set tr
      | Some s0 \<Rightarrow> GetSts (sr_namespace (res r)) (sr_name (res r)) (Inr s0) \<in> set tr \<and>
          isOwnedReference (sr_api_version (res r)) (sr_kind (res r)) (sr_uid (res r)) (sr_name (res r)) (st_owners s0))"

lemma seen_reconciled: "seen r ws x tr \<Longrightarrow> reconciled ws tr"
  by (simp add: seen_def unwritten_def reconciled_def)

lemma fetch_valid:
  "valid (unwritten r ws) (fetch_statefulset (res r)) (seen r ws) (reconciled ws)"
  unfolding fetch_statefulset_def
proof (rule valid_bind)
  show "valid (unwritten r ws) (io_call (\<lambda>w tr. w_get_sts w tr (sr_namespace (res r)) (sr_name (res r)))
      (GetSts (sr_namespace (res r)) (sr_name (res r))))
    (\<lambda>x tr. unwritten r ws tr \<and> GetSts (sr_namespace (res r)) (sr_name (res r)) x \<in> set tr) (reconciled ws)"
    using fetched_mono by (intro valid_call) (auto simp: unwritten_def sts_writes_def)
qed (intro valid_sum valid_if valid_fail valid_return;
    auto simp: seen_def unwritten_def reconciled_def)

lemma create_valid:
  assumes "good r" "created_for (res r) s"
  shows "valid (seen r ws None) (io_call (\<lambda>w tr. w_create_sts w tr s) (CreateSts s)) (\<lambda>_. reconciled ws) (reconciled ws)"
  using assms fetched_mono
  by (intro valid_call) (auto simp: seen_def unwritten_def reconciled_def created_def sts_writes_def)

lemma correct_valid:
  assumes "good r" "corrected_for (res r) s0 s"
  shows "valid (seen r ws (Some s0)) (io_call (\<lambda>w tr. w_update_sts w tr s) (UpdateSts s)) (\<lambda>_. reconciled ws) (reconciled ws)"
  using assms fetched_mono
  by (intro valid_call) (fastforce simp: seen_def unwritten_def reconciled_def corrected_def sts_writes_def)

lemma seen_lift:
  "(\<And>a. x = Ok a \<Longrightarrow> valid (seen r ws existing) (f a) Q (reconciled ws)) \<Longrightarrow>
   valid (seen r ws existing) (io_bind (io_lift x) f) Q (reconciled ws)"
  by (cases x) (auto simp: valid_def io_bind_def io_lift_def intro: seen_reconciled)

lemma reconcile_valid:
  assumes "yields get"
  shows "valid (\<lambda>tr. sts_writes tr = ws) (reconcileStatefulset get) (\<lambda>_. reconciled ws) (reconciled ws)"
  unfolding reconcileStatefulset_def Let_def
proof (rule valid_get_unwritten [OF assms], rule valid_bind [OF fetch_valid], rule seen_lift, goal_cases)
  case (1 r existing template)
  have answer: "valid (reconciled ws) (io_answer x) (\<lambda>_. reconciled ws) (reconciled ws)" for x :: "statefulset answer"
    by (intro reconciled_valid emits_answer)
  show ?case
  proof (cases existing)
    case None
    show ?thesis
      unfolding None option.case
    proof (rule valid_if)
      assume "\<not> (case sr_replicas (res r) of None \<Rightarrow> False | Some n \<Rightarrow> sint n < 1)"
      then show "valid (seen r ws None) (io_bind (io_lift (set_labels (sr_labels (res r)) (map_entries (sr_labels (res r)))))
        (\<lambda>labels. io_bind (io_call (\<lambda>w tr. w_create_sts w tr (desired_statefulset (res r) template labels (new_statefulset (res r))))
          (CreateSts (desired_statefulset (res r) template labels (new_statefulset (res r))))) io_answer))
        (\<lambda>_. reconciled ws) (reconciled ws)"
        by (intro seen_lift valid_bind [OF create_valid [OF 1(1)] answer] created_for_new)
    qed (auto intro: valid_fail seen_reconciled)
  next
    case (Some s0)
    show ?thesis
      unfolding Some option.case
    proof (rule seen_lift, rule valid_if)
      fix labels
      let ?s = "desired_statefulset (res r) template labels s0"
      assume gen: "getSTSParentGeneration ?s \<noteq> sr_generation (res r)"
      show "valid (seen r ws (Some s0)) (io_bind (io_call (\<lambda>w tr. w_update_sts w tr (annotate_generation (res r) ?s))
          (UpdateSts (annotate_generation (res r) ?s))) io_answer) (\<lambda>_. reconciled ws) (reconciled ws)"
      proof (rule validI)
        fix w tr assume tr: "seen r ws (Some s0) tr"
        then have "corrected_for (res r) s0 (annotate_generation (res r) ?s)"
          using gen by (intro corrected_for_update) (auto simp: seen_def)
        from validD [OF valid_bind [OF correct_valid [OF 1(1) this] answer] tr]
        show "holds (\<lambda>_. reconciled ws) (reconciled ws) (io_bind (io_call (\<lambda>w tr. w_update_sts w tr (annotate_generation (res r) ?s))
          (UpdateSts (annotate_generation (res r) ?s))) io_answer w tr)" .
      qed
    qed (auto intro: valid_return seen_reconciled)
  qed
qed (simp add: reconciled_def)

end

end
