(* ===== verification/EdsResourceProps.thy ===== *)
theory EdsResourceProps
  imports EdsResource ReconcileProps EsClientProps
begin

text \<open>
  The data set keeps the contract of a stateful resource: the operator's guarantees hold for it.
\<close>

section \<open>What the operations of the data set send\<close>

lemma ensure_resources_emits: "emits resource_event (EnsureResources e)"
  unfolding EnsureResources_def ensurePodDisruptionBudget_def ensureService_def
  by (intro emits_intros | simp add: resource_event_def)+

lemma update_status_emits: "emits resource_event (UpdateStatus e sts)"
  unfolding UpdateStatus_def Let_def by (intro emits_intros | simp add: resource_event_def)+

lemma green_emits: "emits resource_event ensureGreenClusterState"
  unfolding ensureGreenClusterState_def decode_def by (intro emits_intros | simp add: resource_event_def)+

lemma update_indices_emits: "emits resource_event (update_indices ixs)"
  by (induction ixs) (auto intro!: emits_intros simp: resource_event_def)

lemma apply_operation_emits: "emits resource_event (applyScalingOperation jt e)"
  unfolding applyScalingOperation_def removeScalingOperationAnnotation_def UpdateIndexSettings_def Let_def
  by (intro emits_intros green_emits update_indices_emits | simp add: resource_event_def)+

lemma settings_emits: "emits resource_event getClusterSettings" "emits resource_event (put_settings s)"
  unfolding getClusterSettings_def put_settings_def decode_def expect_ok_def
  by (intro emits_intros | simp add: resource_event_def)+

lemma cleanup_emits: "emits resource_event Cleanup"
  unfolding Cleanup_def GetNodes_def setExcludeIPs_def updateAutoRebalance_def decode_def Let_def
  by (intro emits_intros settings_emits | simp add: resource_event_def)+

lemma retry_emits: "emits K req \<Longrightarrow> (\<And>r. emits K (again r)) \<Longrightarrow> emits K (documented_retry n req again)"
  by (induction n) (auto intro!: emits_intros)

lemma wait_resource: "exclude_event e \<Longrightarrow> resource_event e"
  by (auto simp: wait_event_def resource_event_def)

definition good_env :: "eds_env \<Rightarrow> bool" where
  "good_env env \<longleftrightarrow> documented (en_retry env) \<and> 0 \<le> sint (dc_max_retries (en_draining env))"

lemma drain_emits:
  assumes "good_env env" shows "emits resource_event (DrainPod env e p)"
proof -
  have "emits resource_event (waitForEmptyEsNode (en_retry env) (en_draining env) p)"
    using assms unfolding waitForEmptyEsNode_def good_env_def documented_def
    by (auto intro!: emits_intros retry_emits simp: resource_event_def
        intro: emits_mono [OF condition_emits wait_resource])
  moreover have "emits resource_event (excludePodIP p)"
    by (rule emits_mono [OF exclude_pod_emits wait_resource])
  ultimately show ?thesis
    unfolding DrainPod_def Drain_def updateAutoRebalance_def
    by (intro emits_intros green_emits settings_emits)
qed

section \<open>The contract\<close>

text \<open>
  A data set has been fetched when the trace has an answer with it; the type is filled in later.
  A pod counts as drained for a data set that skips draining, and otherwise when the trace ends
  with the requests of a successful drain of the pod.
\<close>

definition fetched_set :: "eds \<Rightarrow> trace \<Rightarrow> bool" where
  "fetched_set e tr \<longleftrightarrow>
     (\<exists>ns n e0 v k. GetEds ns n (Inr e0) \<in> set tr \<and> e = with_type v k e0)"

lemma fetched_setI: "GetEds ns n (Inr e) \<in> set tr \<Longrightarrow> fetched_set (with_type v k e) tr"
  unfolding fetched_set_def by blast

lemma fetched_set_mono: "fetched_set e tr \<Longrightarrow> fetched_set e (tr @ es)"
  unfolding fetched_set_def by (metis UnCI set_append)

definition drained_for :: "eds_env \<Rightarrow> eds \<Rightarrow> pod \<Rightarrow> trace \<Rightarrow> bool" where
  "drained_for env e p tr \<longleftrightarrow>
     sp_skip_draining (eds_spec e) \<or> \<not> pod_named_ip p \<or>
     (\<exists>pre evs. tr = pre @ evs \<and> drain_events p (nat (sint (dc_max_retries (en_draining env)))) evs)"

interpretation sets: stateful_resources "eds_resource env" "\<lambda>_. good_env env" fetched_set "drained_for env"
  for env
proof (unfold_locales)
  fix e sts p w tr u tr' es
  show "emits resource_event (sr_ensure_resources (eds_resource env e))"
    by (simp add: eds_resource_def ensure_resources_emits)
  show "emits resource_event (sr_update_status (eds_resource env e) sts)"
    by (simp add: eds_resource_def emits_bind emits_return update_status_emits)
  show "emits resource_event (sr_pre_scale_down (eds_resource env e))"
    by (simp add: eds_resource_def PreScaleDownHook_def emits_bind emits_return apply_operation_emits)
  show "emits resource_event (sr_on_stable (eds_resource env e))"
    by (simp add: eds_resource_def OnStableReplicasHook_def emits_bind apply_operation_emits cleanup_emits)
  show "fetched_set e tr \<Longrightarrow> fetched_set e (tr @ es)"
    by (rule fetched_set_mono)
  assume env: "good_env env"
  then show "emits resource_event (sr_drain (eds_resource env e) p)"
    by (simp add: eds_resource_def drain_emits)
  assume "sr_drain (eds_resource env e) p w tr = (Ok u, tr')"
  then have run: "DrainPod env e p w tr = (Ok u, tr')" by (simp add: eds_resource_def)
  show "drained_for env e p tr'"
  proof (cases "sp_skip_draining (eds_spec e) \<or> \<not> pod_named_ip p")
    case False
    then have "Drain (en_retry env) (en_draining env) p w tr = (Ok u, tr')"
      using run by (simp add: DrainPod_def)
    from drain_run [OF _ _ _ this] env False show ?thesis
      by (auto simp: good_env_def drained_for_def)
  qed (auto simp: drained_for_def)
qed

lemma get_resource_yields:
  assumes "good_env env" shows "sets.yields env (GetResource env e)"
  unfolding sets.yields_def
proof (intro conjI allI impI)
  show "emits resource_event (GetResource env e)"
    unfolding GetResource_def by (intro emits_intros) (simp add: resource_event_def)
  fix w tr sr tr' assume "GetResource env e w tr = (Ok sr, tr')"
  then obtain e0 where "tr' = tr @ [GetEds (eds_namespace e) (eds_name e) (Inr e0)]"
    "sr = eds_resource env (with_type (eds_api_version e) (eds_kind e) e0)"
    by (auto simp: GetResource_def io_ok io_answer_def split: sum.splits)
  moreover from this(1) have "fetched_set (with_type (eds_api_version e) (eds_kind e) e0) tr'"
    by (auto intro: fetched_setI)
  ultimately show "\<exists>r. good_env env \<and> sr = eds_resource env r \<and> fetched_set r tr'"
    using assms by blast
qed

section \<open>Deleted pods have been drained\<close>

text \<open>What the requests before a deletion show: a drain of the pod, or that draining is skipped.\<close>

definition shown_drained :: "int \<Rightarrow> pod \<Rightarrow> trace \<Rightarrow> bool" where
  "shown_drained retries p before \<longleftrightarrow> (pod_named_ip p \<longrightarrow>
      (\<exists>pre evs. before = pre @ evs \<and> drain_events p (nat retries) evs) \<or>
      (\<exists>ns n e0. GetEds ns n (Inr e0) \<in> set before \<and> sp_skip_draining (eds_spec e0)))"

lemma operate_deletes:
  assumes "good_env env" "documented_backoff bo"
    and "snd (operate bo selectors (GetResource env e) w []) = before @ DeletePod ns n g answer # after"
  shows "\<exists>p. pod_namespace p = ns \<and> pod_name p = n \<and> pod_grace_seconds p = g \<and>
    shown_drained (sint (dc_max_retries (en_draining env))) p before"
proof -
  let ?tr = "snd (operate bo selectors (GetResource env e) w [])"
  have "sets.deletes_drained env ?tr"
    using validD_any [OF sets.operate_valid [OF get_resource_yields [OF assms(1)] assms(2)]]
    by (simp add: sets.deletes_drained_def)
  moreover have "length before < length ?tr" "?tr ! length before = DeletePod ns n g answer"
    "take (length before) ?tr = before" by (simp_all add: assms(3))
  ultimately obtain p where p: "pod_namespace p = ns" "pod_name p = n" "pod_grace_seconds p = g"
    "sets.evidence env p before"
    unfolding sets.deletes_drained_def by metis
  from p(4) obtain e' where e': "fetched_set e' before" "drained_for env e' p before"
    by (auto simp: sets.evidence_def)
  from e'(1) obtain ns0 n0 e0 v k where e0: "GetEds ns0 n0 (Inr e0) \<in> set before" "e' = with_type v k e0"
    by (auto simp: fetched_set_def)
  from e0(2) have skip: "sp_skip_draining (eds_spec e') = sp_skip_draining (eds_spec e0)"
    by (simp add: with_type_def)
  have "shown_drained (sint (dc_max_retries (en_draining env))) p before"
    using e'(2) e0(1) unfolding drained_for_def shown_drained_def skip by blast
  with p(1-3) show ?thesis by blast
qed

text \<open>
  Whatever Elasticsearch and Kubernetes answer, a reconciliation deletes a pod only after a
  drain of this pod: the requests just before the deletion are those of a drain that reported
  success, unless the data set that was fetched says that draining is skipped (or the pod has no
  IP that an exclusion could name).
\<close>

theorem pods_deleted_after_drain:
  assumes "good_env env" "documented_backoff bo"
    and "snd (operate bo selectors (GetResource env e) w []) = before @ DeletePod ns n g answer # after"
  shows "\<exists>p. pod_namespace p = ns \<and> pod_name p = n \<and> pod_grace_seconds p = g \<and>
    (pod_named_ip p \<longrightarrow>
      (\<exists>pre evs. before = pre @ evs \<and> drain_events p (nat (sint (dc_max_retries (en_draining env)))) evs) \<or>
      (\<exists>ns n e0. GetEds ns n (Inr e0) \<in> set before \<and> sp_skip_draining (eds_spec e0)))"
  using operate_deletes [OF assms] unfolding shown_drained_def .

section \<open>The StatefulSet changes in allowed steps\<close>

lemma edsReplicas_with_type [simp]: "edsReplicas (with_type v k e) = edsReplicas e"
  by (cases "sp_scaling (eds_spec e)") (simp_all add: edsReplicas_def with_type_def)

lemma fetched_setE:
  assumes "fetched_set e tr"
  obtains ns n e0 v k where "GetEds ns n (Inr e0) \<in> set tr" "e = with_type v k e0"
  using assms unfolding fetched_set_def by blast

lemma scale_step_word:
  assumes "d \<noteq> (c :: int32)"
  shows "(sint c < sint d \<and> word_of_int (scale_step (sint c) (sint d)) = d) \<or>
    (sint d < sint c \<and> c \<noteq> 0 \<and> sint (word_of_int (scale_step (sint c) (sint d)) :: int32) = sint c - 1) \<or>
    (sint d < 0 \<and> c = 0 \<and> word_of_int (scale_step (sint c) (sint d)) = (0 :: int32))"
proof (cases "sint c < sint d")
  case True
  then show ?thesis by (simp add: scale_step_def)
next
  case False
  then have lt: "sint d < sint c" using assms sint32_eq_iff [of d c] by linarith
  show ?thesis
  proof (cases "c = 0")
    case True
    then show ?thesis using lt by (simp add: scale_step_def)
  next
    case c: False
    have "sint c \<noteq> 0" using c sint32_eq_iff [of c 0] by simp
    moreover have "sint (word_of_int (sint c - 1) :: int32) = sint c - 1"
      using lt sint32_lower [of d] sint32_upper [of c] by (intro sint32_word_of_int) linarith+
    ultimately show ?thesis using lt False c by (simp add: scale_step_def)
  qed
qed

text \<open>
  C6. Operating on the pods writes the StatefulSet at most once and then changes only its replicas,
  by a step that a fetched data set allows: up to the desired replicas in one go, down by exactly
  one replica when fewer are desired, or out by one to make room for the update of a pod when the
  desired replicas are reached. The remaining case, a negative number of desired replicas, leaves
  an empty StatefulSet empty.
\<close>

theorem pods_scaled_in_steps:
  assumes "good_env env" "documented_backoff bo"
    and "operatePods bo selectors sts (GetResource env e) w tr = (result, tr')"
  shows "sts_writes tr' = sts_writes tr \<or>
    (\<exists>ns n e0 d m a. GetEds ns n (Inr e0) \<in> set tr' \<and> edsReplicas e0 = Some d \<and>
       sts_writes tr' = sts_writes tr @ [UpdateSts (sts\<lparr>st_replicas := Some m\<rparr>) a] \<and>
       (sint (sts_replicas sts) < sint d \<and> m = d \<or>
        sint d < sint (sts_replicas sts) \<and> sts_replicas sts \<noteq> 0 \<and> sint m = sint (sts_replicas sts) - 1 \<or>
        d = sts_replicas sts \<and> m = d + 1 \<or>
        sint d < 0 \<and> sts_replicas sts = 0 \<and> m = 0))"
proof -
  have "sets.scaled env sts (sts_writes tr) (snd (operatePods bo selectors sts (GetResource env e) w tr))"
    by (rule validD_any [OF sets.operate_pods_scaled [OF get_resource_yields [OF assms(1)] assms(2)]]) simp
  then have "sets.scaled env sts (sts_writes tr) tr'" by (simp add: assms(3))
  then consider "sts_writes tr' = sts_writes tr"
    | r d a where "fetched_set r tr'" "edsReplicas r = Some d" "d \<noteq> sts_replicas sts"
        "sts_writes tr' = sts_writes tr @ [UpdateSts (sts\<lparr>st_replicas := Some (word_of_int
          (scale_step (sint (sts_replicas sts)) (sint d)))\<rparr>) a]"
    | r a where "fetched_set r tr'" "edsReplicas r = Some (sts_replicas sts)"
        "sts_writes tr' = sts_writes tr @ [UpdateSts (sts\<lparr>st_replicas := Some (sts_replicas sts + 1)\<rparr>) a]"
    unfolding sets.scaled_def sets.rescaled_def by (auto simp: eds_resource_def)
  then show ?thesis
  proof cases
    case 1
    then show ?thesis by blast
  next
    case 2
    from fetched_setE [OF 2(1)] obtain ns n e0 where e0: "GetEds ns n (Inr e0) \<in> set tr'" "edsReplicas e0 = Some d"
      using 2(2) by (metis edsReplicas_with_type)
    show ?thesis
      by (rule disjI2, intro exI conjI, rule e0(1), rule e0(2), rule 2(4)) (use scale_step_word [OF 2(3)] in blast)
  next
    case 3
    from fetched_setE [OF 3(1)] obtain ns n e0 where "GetEds ns n (Inr e0) \<in> set tr'"
        "edsReplicas e0 = Some (sts_replicas sts)"
      using 3(2) by (metis edsReplicas_with_type)
    with 3(3) show ?thesis by blast
  qed
qed

text \<open>
  C8. The reconciliation writes the StatefulSet at most once. It creates one only after the API
  server answered that there is none, owned by the data set, with its desired replicas, which are
  at least one when they are set; it changes only one that the data set owns and whose
  generation is outdated, gives it the current generation, and leaves its name, owners, volume
  claims and replicas alone.
\<close>

theorem reconcile_writes:
  assumes "good_env env" "reconcileStatefulset (GetResource env e) w tr = (result, tr')"
  shows "sts_writes tr' = sts_writes tr \<or>
    (\<exists>ns n e0 v k ev. GetEds ns n (Inr e0) \<in> set tr' \<and> sts_writes tr' = sts_writes tr @ [ev] \<and>
      (let sr = eds_resource env (with_type v k e0) in
        (\<exists>s a. ev = CreateSts s a \<and> created_for sr s \<and>
           GetSts (sr_namespace sr) (sr_name sr) (Inl KubeNotFound) \<in> set tr') \<or>
        (\<exists>s0 s a. ev = UpdateSts s a \<and> corrected_for sr s0 s \<and>
           GetSts (sr_namespace sr) (sr_name sr) (Inr s0) \<in> set tr')))"
proof -
  have "sets.reconciled env (sts_writes tr) (snd (reconcileStatefulset (GetResource env e) w tr))"
    by (rule validD_any [OF sets.reconcile_valid [OF get_resource_yields [OF assms(1)]]]) simp
  then have "sets.reconciled env (sts_writes tr) tr'" by (simp add: assms(2))
  then consider "sts_writes tr' = sts_writes tr"
    | r ev where "fetched_set r tr'" "sts_writes tr' = sts_writes tr @ [ev]"
        "sets.created env r tr' ev \<or> sets.corrected env r tr' ev"
    unfolding sets.reconciled_def by blast
  then show ?thesis
  proof cases
    case 2
    from fetched_setE [OF 2(1)] obtain ns n e0 v k where "GetEds ns n (Inr e0) \<in> set tr'" "r = with_type v k e0" .
    with 2(2,3) show ?thesis
      unfolding sets.created_def sets.corrected_def Let_def by metis
  qed blast
qed

end
