(* ===== verification/EdsExamples.thy ===== *)
theory EdsExamples
  imports EdsResourceProps PodExamples
begin

text \<open>
  Concrete data sets and worlds: instances of the operator's guarantees, and runs that show where
  the scale-down loses data.
\<close>

section \<open>A data set and its environment\<close>

definition example_eds :: "int32 option \<Rightarrow> gomap \<Rightarrow> eds" where
  "example_eds replicas annotations =
     \<lparr>eds_api_version = ''zalando.org/v1'', eds_kind = ''ElasticsearchDataSet'',
      eds_meta = \<lparr>om_name = ''eds'', om_namespace = ''ns'', om_uid = ''u1'', om_generation = 7,
        om_labels = Some [(''team'', ''a'')], om_annotations = annotations, om_owners = []\<rparr>,
      eds_spec = \<lparr>sp_replicas = replicas, sp_exclude_system_indices = False, sp_skip_draining = False,
        sp_template = \<lparr>pt_meta = \<lparr>em_labels = None, em_annotations = None\<rparr>, pt_spec = ''spec''\<rparr>,
        sp_scaling = None, sp_volume_claims = [], sp_experimental = None\<rparr>,
      eds_status = \<lparr>ss_observed_generation = Some 7, ss_replicas = 1, ss_last_up_started = None,
        ss_last_up_ended = None, ss_last_down_started = None, ss_last_down_ended = None\<rparr>\<rparr>"

definition no_texts :: json_texts where
  "no_texts = \<lparr>jt_read = (\<lambda>_. None), jt_write = (\<lambda>_. '''')\<rparr>"

definition example_env :: eds_env where
  "example_env = \<lparr>en_json = no_texts, en_retry = reference_retry, en_draining = two_attempts\<rparr>"

lemma example_env_good: "good_env example_env"
  by (simp add: good_env_def example_env_def two_attempts_def reference_retry_documented)

text \<open>A backoff that asks once.\<close>

definition ask_once :: backoff where
  "ask_once d check = (\<lambda>w tr. case check w tr of (r, tr') \<Rightarrow> (unwrap_permanent r, tr'))"

lemma ask_once_documented: "documented_backoff ask_once"
  unfolding documented_backoff_def ask_once_def by (auto split: prod.split intro: last_run)

definition example_sts :: "int32 \<Rightarrow> statefulset" where
  "example_sts n = plain_sts
     \<lparr>st_owners := [owner_of (example_eds (Some n) None)], st_replicas := Some n, st_ready_replicas := n,
      st_annotations := Some [(parent_generation_key, ''7'')], st_labels := Some []\<rparr>"

section \<open>A rolling update\<close>

definition update_world :: world where
  "update_world = calm_world
     \<lparr>w_get_eds := \<lambda>_ _ _. Inr (example_eds (Some 1) None),
      w_get_sts := \<lambda>_ _ _. Inr (example_sts 1),
      w_list_pods := \<lambda>_ _ _. Inr [old_pod]\<rparr>"

definition update_run :: "(error, unit) outcome \<times> trace" where
  "update_run = operate ask_once None (GetResource example_env (example_eds None None)) update_world []"

lemma update_run_deletes: "list_ex is_delete (snd update_run)"
  unfolding update_run_def example_env_def reference_retry_def by code_simp

lemma is_delete_iff: "is_delete e \<longleftrightarrow> (\<exists>ns n g a. e = DeletePod ns n g a)"
  by (cases e) auto

theorem pods_deleted_after_drain_witness:
  "\<exists>before ns n g a after p. snd update_run = before @ DeletePod ns n g a # after \<and>
    pod_namespace p = ns \<and> pod_name p = n \<and> pod_grace_seconds p = g \<and>
    (pod_named_ip p \<longrightarrow>
      (\<exists>pre evs. before = pre @ evs \<and> drain_events p (nat (sint (dc_max_retries (en_draining example_env)))) evs) \<or>
      (\<exists>ns n e0. GetEds ns n (Inr e0) \<in> set before \<and> sp_skip_draining (eds_spec e0)))"
proof -
  obtain e where "e \<in> set (snd update_run)" "is_delete e"
    using update_run_deletes by (auto simp: list_ex_iff)
  then obtain before ns n g a after where r: "snd update_run = before @ DeletePod ns n g a # after"
    by (metis is_delete_iff split_list)
  from pods_deleted_after_drain [OF example_env_good ask_once_documented r [unfolded update_run_def]] r
  show ?thesis by blast
qed

section \<open>A scale-down\<close>

definition scale_down_world :: world where
  "scale_down_world = calm_world
     \<lparr>w_get_eds := \<lambda>_ _ _. Inr (example_eds (Some 2) None),
      w_get_sts := \<lambda>_ _ _. Inr (example_sts 3),
      w_list_pods := \<lambda>_ _ _. Inr three_pods\<rparr>"

definition scale_down_run :: "(error, unit) outcome \<times> trace" where
  "scale_down_run = operatePods ask_once None (example_sts 3) (GetResource example_env (example_eds None None))
     (scale_down_world\<lparr>w_list_nodes := \<lambda>_. Inr [\<lparr>nd_name = ''n0'', nd_labels = Some [(''a'', ''b'')], nd_unschedulable = False\<rparr>]\<rparr>) []"

fun written_replicas :: "event \<Rightarrow> int32 option" where
  "written_replicas (UpdateSts s a) = st_replicas s"
| "written_replicas _ = None"

lemma scale_down_result:
  "fst scale_down_run = Ok () \<and> map written_replicas (sts_writes (snd scale_down_run)) = [Some 2]"
  unfolding scale_down_run_def example_env_def reference_retry_def by code_simp

theorem pods_scaled_in_steps_witness:
  "\<exists>ns n e0 d m a. GetEds ns n (Inr e0) \<in> set (snd scale_down_run) \<and> edsReplicas e0 = Some d \<and>
     sts_writes (snd scale_down_run) = [UpdateSts (example_sts 3\<lparr>st_replicas := Some m\<rparr>) a] \<and>
     (sint (3 :: int32) < sint d \<and> m = d \<or> sint d < sint (3 :: int32) \<and> sint m = sint (3 :: int32) - 1 \<or>
      d = 3 \<and> m = d + 1)"
proof -
  have "sts_writes [] = []" "sts_writes (snd scale_down_run) \<noteq> []" "sts_replicas (example_sts 3) = 3"
    using scale_down_result by (auto simp: sts_writes_def sts_replicas_def example_sts_def)
  moreover have "(3 :: int32) \<noteq> 0" by simp
  ultimately show ?thesis
    using pods_scaled_in_steps [OF example_env_good ask_once_documented
        prod.collapse [symmetric, of "operatePods ask_once None (example_sts 3) (GetResource example_env (example_eds None None))
     (scale_down_world\<lparr>w_list_nodes := \<lambda>_. Inr [\<lparr>nd_name = ''n0'', nd_labels = Some [(''a'', ''b'')], nd_unschedulable = False\<rparr>]\<rparr>) []"]]
    unfolding scale_down_run_def by auto
qed

section \<open>Creation\<close>

definition new_world :: world where
  "new_world = calm_world\<lparr>w_get_eds := \<lambda>_ _ _. Inr (example_eds (Some 2) None)\<rparr>"

definition creation_run :: "(error, statefulset) outcome \<times> trace" where
  "creation_run = reconcileStatefulset (GetResource example_env (example_eds None None)) new_world []"

lemma creation_result: "map written_replicas (sts_writes (snd creation_run)) = [None]"
  unfolding creation_run_def example_env_def reference_retry_def by code_simp

theorem reconcile_writes_witness:
  "\<exists>ns n e0 v k ev. GetEds ns n (Inr e0) \<in> set (snd creation_run) \<and> sts_writes (snd creation_run) = [ev] \<and>
    (let sr = eds_resource example_env (with_type v k e0) in
      (\<exists>s a. ev = CreateSts s a \<and> created_for sr s \<and>
         GetSts (sr_namespace sr) (sr_name sr) (Inl KubeNotFound) \<in> set (snd creation_run)) \<or>
      (\<exists>s0 s a. ev = UpdateSts s a \<and> corrected_for sr s0 s \<and>
         GetSts (sr_namespace sr) (sr_name sr) (Inr s0) \<in> set (snd creation_run)))"
proof -
  have "sts_writes [] = []" "sts_writes (snd creation_run) \<noteq> []"
    using creation_result by (auto simp: sts_writes_def)
  then show ?thesis
    using reconcile_writes [OF example_env_good prod.collapse [symmetric,
        of "reconcileStatefulset (GetResource example_env (example_eds None None)) new_world []"]]
    unfolding creation_run_def by simp
qed

end
