(* ===== verification/CollectProps.thy ===== *)
theory CollectProps
  imports Controller EdsExamples
begin

text \<open>
  What the operator collects about its data sets: the three loops that build and update a map
  give, for each owned data set, its metric set and its pods.
\<close>

section \<open>The loops\<close>

definition owned_set :: "string \<Rightarrow> string \<Rightarrow> eds list \<Rightarrow> eds option" where
  "owned_set operatorID uid edss = find (\<lambda>e. hasOwnership operatorID e \<and> om_uid (eds_meta e) = uid) (rev edss)"

definition metric_set_of :: "string \<Rightarrow> metric_set list \<Rightarrow> metric_set option" where
  "metric_set_of uid mss = find (\<lambda>ms. getOwnerUID (ms_meta ms) = Some uid) (rev mss)"

definition bare :: "eds \<Rightarrow> es_resource" where
  "bare e = \<lparr>rs_eds = typed e, rs_metric_set = None, rs_pods = []\<rparr>"

lemma find_SomeD: "find P xs = Some x \<Longrightarrow> x \<in> set xs \<and> P x"
  by (induction xs) (auto split: if_splits)

lemma collected_sets:
  "map_of (foldl (add_eds operatorID) [] edss) uid = map_option bare (owned_set operatorID uid edss)"
  by (induction edss rule: rev_induct) (auto simp: add_eds_def owned_set_def bare_def update_conv')

lemma collected_sets_distinct: "distinct (map fst (foldl (add_eds operatorID) [] edss))"
  by (induction edss rule: rev_induct) (auto simp: add_eds_def distinct_update)

definition with_metric_set :: "metric_set option \<Rightarrow> es_resource \<Rightarrow> es_resource" where
  "with_metric_set m es = (case m of None \<Rightarrow> es | Some ms \<Rightarrow> es\<lparr>rs_metric_set := Some ms\<rparr>)"

lemma collected_metric_sets:
  "map_of (foldl add_metric_set rs mss) uid =
   map_option (with_metric_set (metric_set_of uid mss)) (map_of rs uid)"
proof (induction mss rule: rev_induct)
  case Nil
  then show ?case by (simp add: metric_set_of_def with_metric_set_def option.map_ident)
next
  case (snoc ms mss)
  let ?rs = "foldl add_metric_set rs mss"
  show ?case
  proof (cases "getOwnerUID (ms_meta ms)")
    case None
    then show ?thesis using snoc by (simp add: add_metric_set_def metric_set_of_def)
  next
    case (Some u)
    then show ?thesis using snoc
      by (cases "map_of ?rs u"; cases "map_of rs uid")
        (auto simp: add_metric_set_def metric_set_of_def with_metric_set_def update_conv' split: option.splits)
  qed
qed

lemma metric_sets_distinct: "distinct (map fst rs) \<Longrightarrow> distinct (map fst (foldl add_metric_set rs mss))"
  by (induction mss rule: rev_induct) (auto simp: add_metric_set_def distinct_update split: option.splits)

text \<open>Data sets with different names: a pod label selects at most one.\<close>

definition names_unique :: "resources \<Rightarrow> bool" where
  "names_unique rs \<longleftrightarrow> (\<forall>u1 es1 u2 es2. map_of rs u1 = Some es1 \<and> map_of rs u2 = Some es2 \<and>
     eds_name (rs_eds es1) = eds_name (rs_eds es2) \<longrightarrow> u1 = u2)"

definition add_pods :: "pod list \<Rightarrow> es_resource \<Rightarrow> es_resource" where
  "add_pods ps es = es\<lparr>rs_pods := rs_pods es @ filter (\<lambda>p. labelled_for p es) ps\<rparr>"

lemma add_pods_simps [simp]: "rs_eds (add_pods ps es) = rs_eds es"
  by (simp add: add_pods_def)

lemma labelled_for_add_pods [simp]: "labelled_for p (add_pods ps es) = labelled_for p es"
  by (simp add: labelled_for_def)

lemma add_pods_append [simp]: "add_pods [p] (add_pods ps es) = add_pods (ps @ [p]) es"
  by (simp add: add_pods_def labelled_for_def)

lemma add_pods_none: "\<not> labelled_for p es \<Longrightarrow> add_pods [p] es = es"
  by (simp add: add_pods_def)

lemma add_pod_step:
  assumes "set (order p rs) = set rs" "distinct (map fst rs)" "names_unique rs"
  shows "map_of (add_pod order rs p) u = map_option (add_pods [p]) (map_of rs u) \<and>
    distinct (map fst (add_pod order rs p))"
proof (cases "find (\<lambda>(uid, es). labelled_for p es) (order p rs)")
  case None
  then have "\<not> labelled_for p es" if "map_of rs u = Some es" for es
    using that assms(1) by (auto simp: find_None_iff dest: map_of_SomeD)
  then show ?thesis using assms(2) None
    by (cases "map_of rs u") (auto simp: add_pod_def add_pods_def)
next
  case (Some x)
  obtain uid es where x: "x = (uid, es)" by (cases x)
  from find_SomeD [OF Some] x have l: "labelled_for p es" and "(uid, es) \<in> set (order p rs)"
    by auto
  then have uid: "map_of rs uid = Some es" using assms(1,2) by simp
  have other: "\<not> labelled_for p es'" if "map_of rs u = Some es'" "u \<noteq> uid" for es'
    using assms(3) uid that l unfolding names_unique_def labelled_for_def by (metis option.inject)
  have step: "add_pod order rs p = AList.update uid (add_pods [p] es) rs"
    using Some x l by (simp add: add_pod_def add_pods_def)
  have "map_of (add_pod order rs p) u = map_option (add_pods [p]) (map_of rs u)"
  proof (cases "u = uid")
    case True
    then show ?thesis unfolding step update_conv' using uid by simp
  next
    case False
    then have "map_option (add_pods [p]) (map_of rs u) = map_of rs u"
      using other add_pods_none by (cases "map_of rs u") auto
    then show ?thesis unfolding step update_conv' using False by simp
  qed
  then show ?thesis unfolding step using assms(2) by (simp add: distinct_update)
qed

lemma collected_pods:
  assumes "\<And>p rs. set (order p rs) = set rs" "distinct (map fst rs)" "names_unique rs"
  shows "map_of (foldl (add_pod order) rs ps) u = map_option (add_pods ps) (map_of rs u) \<and>
    distinct (map fst (foldl (add_pod order) rs ps))"
proof (induction ps arbitrary: u rule: rev_induct)
  case Nil
  then show ?case using assms(2) by (simp add: add_pods_def option.map_ident)
next
  case (snoc p ps)
  let ?rs = "foldl (add_pod order) rs ps"
  have "names_unique ?rs"
    using assms(3) unfolding names_unique_def by (auto simp: snoc)
  then have "map_of (add_pod order ?rs p) u = map_option (add_pods [p]) (map_of ?rs u) \<and>
      distinct (map fst (add_pod order ?rs p))"
    using add_pod_step [of order p ?rs u] assms(1) snoc by blast
  then show ?case
    by (cases "map_of rs u") (simp_all add: snoc)
qed

section \<open>What is collected\<close>


section \<open>Instances\<close>

definition owned_eds :: "string \<Rightarrow> string \<Rightarrow> eds" where
  "owned_eds ns uid = (let e = example_eds None None
     in e\<lparr>eds_meta := (eds_meta e)\<lparr>om_namespace := ns, om_uid := uid\<rparr>\<rparr>)"

definition set_pod :: "string \<Rightarrow> pod" where
  "set_pod ns = example_pod\<lparr>pod_namespace := ns, pod_labels := Some [(es_dataset_label_key, ''eds'')]\<rparr>"

definition all_namespaces :: operator_config where
  "all_namespaces = NewElasticsearchOperator None 10000000000 30000000000 '''' '''' ''cluster.local.'' None"

definition collect_world :: "eds list \<Rightarrow> pod list \<Rightarrow> world" where
  "collect_world edss ps = calm_world\<lparr>w_list_eds := \<lambda>_ _. Inr edss, w_list_pods := \<lambda>_ _ _. Inr ps\<rparr>"

definition one_set_run :: "(error, resources) outcome \<times> trace" where
  "one_set_run = collectResources all_namespaces (\<lambda>p rs. rs) (collect_world [owned_eds ''a'' ''u1''] [set_pod ''a'']) []"

lemma one_set_collected:
  "fst one_set_run = Ok [(''u1'', \<lparr>rs_eds = typed (owned_eds ''a'' ''u1''), rs_metric_set = None, rs_pods = [set_pod ''a'']\<rparr>)]"
  "snd one_set_run = [] @ [ListEds (oc_namespace all_namespaces) (Inr [owned_eds ''a'' ''u1'']),
     ListMetricSets (oc_namespace all_namespaces) (Inr []), ListPods (oc_namespace all_namespaces) None (Inr [set_pod ''a''])]"
  by code_simp+


text \<open>
  The label is matched by name alone: with two data sets of the same name in different
  namespaces, the pods of both go to the one the loop sees first.
\<close>

theorem pods_of_other_namespace:
  "case collectResources all_namespaces (\<lambda>p rs. rs)
     (collect_world [owned_eds ''a'' ''u1'', owned_eds ''b'' ''u2''] [set_pod ''a'', set_pod ''b'']) [] of (r, tr) \<Rightarrow>
   (case r of Ok rs \<Rightarrow> map (\<lambda>(uid, es). (uid, map pod_namespace (rs_pods es))) rs | _ \<Rightarrow> []) =
     [(''u1'', [''a'', ''b'']), (''u2'', [])]"
  by code_simp

end
