(* ===== verification/HintProps.thy ===== *)
theory HintProps
  imports Autoscaler
begin

text \<open>
  What the scaling hint of operator/autoscaler.go means: which samples it looks at, when it says
  DOWN or UP, and when it cannot panic. The operator collects a sample every 60 seconds.
\<close>

section \<open>The number of samples required\<close>

abbreviation metrics_interval :: duration where
  "metrics_interval \<equiv> 60000000000"

lemma duration_seconds_60: "duration_seconds metrics_interval = Fin 60"
proof -
  have s: "sint metrics_interval = 60000000000" by simp
  have i: "i50 1000000000" "i50 60" by (simp_all add: i50_def)
  have z: "fdiv (Fin 0) (Fin 1000000000) = Fin 0" by (simp add: fdiv.simps mk_f64_def)
  have "rnd (of_int 60) = of_int 60" by (rule rnd_of_int) simp
  then have "fadd (Fin 60) (Fin 0) = Fin 60"
    using int_below_limit [of 60] by (simp add: fadd.simps mk_f64_def Let_def)
  then show ?thesis using i z
    by (simp add: duration_seconds_def rem_int_def s del: of_int_numeral)
      (simp add: z)
qed

definition samples_needed :: "int64 \<Rightarrow> nat" where
  "samples_needed threshold = nat (ceil_quot (sint threshold) 60)"

definition sane_threshold :: "int64 \<Rightarrow> bool" where
  "sane_threshold threshold \<longleftrightarrow> 0 \<le> sint threshold \<and> sint threshold < 2 ^ 50"

lemma required_samples_60:
  assumes "sane_threshold threshold"
  shows "required_samples cv threshold metrics_interval = word_of_int (int (samples_needed threshold))"
    and "sint (required_samples cv threshold metrics_interval) = int (samples_needed threshold)"
proof -
  let ?t = "sint threshold" and ?z = "ceil_quot (sint threshold) 60"
  have t: "0 \<le> ?t" "i50 ?t" using assms by (auto simp: sane_threshold_def i50_def)
  have i: "i50 60" by (simp add: i50_def)
  have z: "0 \<le> ?z" "?z \<le> ?t" using ceil_quot_nonneg [of 60 ?t] ceil_quot_le_self [of 60 ?t] t by auto
  have "fceil (fdiv (f64_of_int ?t) (Fin (of_int 60))) = Fin (of_int ?z)"
    using ceil_fdiv [of 60 ?t] t i by simp
  then have "required_samples cv threshold metrics_interval = f64_to_int64 cv (Fin (of_int ?z))"
    by (simp add: required_samples_def duration_seconds_60)
  also have "\<dots> = word_of_int ?z"
    using z t(2) by (simp add: trunc_rat_def Let_def i50_def)
  finally show e: "required_samples cv threshold metrics_interval =
      word_of_int (int (samples_needed threshold))"
    using z by (simp add: samples_needed_def)
  have "?z < 9223372036854775808" using z t(2) by (simp add: i50_def)
  then show "sint (required_samples cv threshold metrics_interval) = int (samples_needed threshold)"
    using z by (simp add: e samples_needed_def sint64_word_of_int)
qed

section \<open>One direction\<close>

definition last_samples :: "nat \<Rightarrow> metric list \<Rightarrow> metric list" where
  "last_samples n ms = drop (length ms - n) ms"

lemma hint_holds_60:
  assumes "sane_threshold threshold" "length ms < 2 ^ 62"
  shows "hint_holds cv metrics_interval ms threshold beyond cooled =
    Ok (samples_needed threshold \<le> length ms \<and>
        (\<forall>m \<in> set (last_samples (samples_needed threshold) ms). beyond (mt_value m)) \<and> cooled)"
proof -
  let ?n = "samples_needed threshold" and ?size = "word_of_int (int (length ms)) :: int64"
  note req = required_samples_60 [OF assms(1), of cv]
  have size: "sint ?size = int (length ms)" using assms(2) by (intro sint64_word_of_int) simp_all
  show ?thesis
  proof (cases "?n \<le> length ms")
    case True
    have "?size - word_of_int (int ?n) = word_of_int (int (length ms - ?n))"
      using True by (simp add: of_nat_diff)
    then have "sint (?size - required_samples cv threshold metrics_interval) = int (length ms - ?n)"
      using assms(2) by (simp only: req(1)) (rule sint64_word_of_int, simp_all)
    moreover have "nat (int (length ms - ?n)) = length ms - ?n" by (rule nat_int)
    ultimately show ?thesis using True size req(2)
      by (simp add: hint_holds_def Let_def list_all_iff slice_from_def last_samples_def del: of_nat_diff)
  next
    case False
    then show ?thesis using size req(2) by (simp add: hint_holds_def Let_def)
  qed
qed

section \<open>Properties\<close>

definition low_samples :: "eds_scaling \<Rightarrow> metric list \<Rightarrow> bool" where
  "low_samples sc ms \<longleftrightarrow>
     samples_needed (sc_down_threshold_seconds sc) \<le> length ms \<and>
     (\<forall>m \<in> set (last_samples (samples_needed (sc_down_threshold_seconds sc)) ms).
        sint (mt_value m) < sint (sc_down_cpu_boundary sc))"

definition high_samples :: "eds_scaling \<Rightarrow> metric list \<Rightarrow> bool" where
  "high_samples sc ms \<longleftrightarrow>
     samples_needed (sc_up_threshold_seconds sc) \<le> length ms \<and>
     (\<forall>m \<in> set (last_samples (samples_needed (sc_up_threshold_seconds sc)) ms).
        sint (sc_up_cpu_boundary sc) < sint (mt_value m))"

definition sane_scaling :: "eds_scaling \<Rightarrow> bool" where
  "sane_scaling sc \<longleftrightarrow> sane_threshold (sc_down_threshold_seconds sc) \<and>
     sane_threshold (sc_up_threshold_seconds sc)"

lemma scalingHint_cases:
  assumes "sane_scaling sc" "length (ms_metrics ms) < 2 ^ 62"
  shows "scalingHint cv (Some sc) st (Some ms) metrics_interval now_down now_up =
    Ok (if low_samples sc (ms_metrics ms) \<and>
           cooldown_over (ss_last_down_started st) now_down (sc_down_cooldown_seconds sc) then DOWN
        else if high_samples sc (ms_metrics ms) \<and>
           cooldown_over (ss_last_up_started st) now_up (sc_up_cooldown_seconds sc) then UP
        else NONE)"
  using assms
  by (simp add: scalingHint_def hint_holds_60 sane_scaling_def low_samples_def high_samples_def conj_assoc)

text \<open>
  C34. With thresholds in the range the resource definition allows, the hint never panics and is
  determined by the last samples: DOWN when each of the last ceiling (threshold / 60) samples is
  below the lower boundary and the scale-down cool-down is over, otherwise UP when each of the
  last ceiling (threshold / 60) samples is above the upper boundary and the scale-up cool-down is
  over, otherwise NONE.
\<close>

theorem scalingHint_meaning:
  assumes "sane_scaling sc" "length (ms_metrics ms) < 2 ^ 62"
  shows "scalingHint cv (Some sc) st (Some ms) metrics_interval now_down now_up =
    Ok (if low_samples sc (ms_metrics ms) \<and>
           cooldown_over (ss_last_down_started st) now_down (sc_down_cooldown_seconds sc) then DOWN
        else if high_samples sc (ms_metrics ms) \<and>
           cooldown_over (ss_last_up_started st) now_up (sc_up_cooldown_seconds sc) then UP
        else NONE)"
  by (rule scalingHint_cases [OF assms])

definition example_scaling :: eds_scaling where
  "example_scaling =
     \<lparr>sc_enabled = True, sc_min_replicas = 2, sc_max_replicas = 8,
      sc_min_index_replicas = 1, sc_max_index_replicas = 3,
      sc_min_shards_per_node = 1, sc_max_shards_per_node = 6,
      sc_up_cpu_boundary = 50, sc_up_threshold_seconds = 120, sc_up_cooldown_seconds = 600,
      sc_down_cpu_boundary = 25, sc_down_threshold_seconds = 150, sc_down_cooldown_seconds = 600,
      sc_disk_watermark = 80\<rparr>"

definition example_metrics :: "int32 list \<Rightarrow> metric_set" where
  "example_metrics vs =
     \<lparr>ms_meta = \<lparr>om_name = ''eds'', om_namespace = ''ns'', om_uid = ''u'', om_generation = 1,
        om_labels = None, om_annotations = None, om_owners = []\<rparr>,
      ms_metrics = map (\<lambda>v. \<lparr>mt_timestamp = 0, mt_value = v\<rparr>) vs\<rparr>"

definition example_status :: eds_status where
  "example_status =
     \<lparr>ss_observed_generation = None, ss_replicas = 4, ss_last_up_started = None,
      ss_last_up_ended = None, ss_last_down_started = None, ss_last_down_ended = None\<rparr>"

theorem scalingHint_meaning_witness:
  "scalingHint (\<lambda>_. 0) (Some example_scaling) example_status (Some (example_metrics [70, 20, 21, 22]))
     metrics_interval 0 0 = Ok DOWN"
proof -
  have s: "sane_scaling example_scaling"
    by (simp add: sane_scaling_def sane_threshold_def example_scaling_def)
  have l: "length (ms_metrics (example_metrics [70, 20, 21, 22])) < 2 ^ 62"
    by (simp add: example_metrics_def)
  show ?thesis
    unfolding scalingHint_meaning [OF s l]
    by (simp add: low_samples_def samples_needed_def last_samples_def ceil_quot_def
        example_scaling_def example_metrics_def example_status_def cooldown_over_def)
qed

text \<open>
  A scale-down threshold of zero seconds looks at no sample: as soon as there is a metric set
  and the scale-down cool-down is over, the hint is DOWN, whatever the CPU usage, and a scale-up
  is never hinted.
\<close>

theorem scalingHint_zero_threshold:
  assumes "sane_scaling sc" "length (ms_metrics ms) < 2 ^ 62"
    and "sc_down_threshold_seconds sc = 0"
    and "cooldown_over (ss_last_down_started st) now_down (sc_down_cooldown_seconds sc)"
  shows "scalingHint cv (Some sc) st (Some ms) metrics_interval now_down now_up = Ok DOWN"
  using assms(3,4)
  by (simp add: scalingHint_cases [OF assms(1,2)] low_samples_def samples_needed_def
      last_samples_def ceil_quot_def)

theorem scalingHint_zero_threshold_witness:
  "scalingHint (\<lambda>_. 0) (Some (example_scaling\<lparr>sc_down_threshold_seconds := 0\<rparr>)) example_status
     (Some (example_metrics [99, 99, 99])) metrics_interval 0 0 = Ok DOWN"
  by (rule scalingHint_zero_threshold)
    (simp_all add: sane_scaling_def sane_threshold_def example_scaling_def example_metrics_def
      example_status_def cooldown_over_def)

end
