(* ===== verification/ScalingProps.thy ===== *)
theory ScalingProps
  imports ScalingBranches HintProps
begin

text \<open>
  The properties of the scaling calculation of operator/autoscaler.go: bounds, direction,
  ratio and index-replica safety, independence of the map iteration order, and the exact
  results of the node arithmetic.
\<close>

section \<open>The operation before the safety checks\<close>

lemma operation_cases:
  fixes cv :: "f64 \<Rightarrow> int32" and hint :: direction
  assumes g: "good_cluster sc ixs1 cur" and m: "mset ixs2 = mset ixs1"
  defines "op \<equiv> scaleUpOrDown cv sc ixs1 ixs2 hint cur" and "t \<equiv> word_shards ixs1"
  obtains (exceed) n d where "exceeds sc ixs1 cur" "sint cur < sint n"
      "sint n = ceil_quot (int_shards ixs1) (sint (sc_max_shards_per_node sc))"
      "op = node_operation cur (ensureBoundsNodeReplicas sc n) [] d"
  | (fit) "\<not> exceeds sc ixs1 cur" "so_node_replicas op = None"
      "so_direction op = fix_direction sc ixs1" "so_index_replicas op = fixes_of sc ixs1"
  | (quiet) d where "\<not> exceeds sc ixs1 cur" "op = noopScalingOperation d"
  | (raise) r where "\<not> exceeds sc ixs1 cur" "fixes_of sc ixs1 = []" "hint = UP"
      "so_node_replicas op = Some r" "so_direction op = UP"
      "sint cur \<le> sint r" "within_bounds sc r"
      "raise_indices sc [] t ixs2 = Inr (so_index_replicas op, t + (\<Sum>ix\<leftarrow>ixs2. ix_primaries ix))"
  | (up) d where "\<not> exceeds sc ixs1 cur" "hint = UP" "sint cur < int_shards ixs1"
      "op = node_operation cur (ensureBoundsNodeReplicas sc (calculateIncreasedNodes cv cur t)) [] d"
  | (lower) d where "\<not> exceeds sc ixs1 cur" "fixes_of sc ixs1 = []" "hint = DOWN"
      "filter (lowerable sc) ixs2 \<noteq> []"
      "op = node_operation cur (ensureBoundsNodeReplicas sc
        (calculateNodesWithSameShardToNodeRatio cv cur t (snd (lower_indices sc [] t ixs2))))
        (map (\<lambda>ix. ix\<lparr>ix_replicas := ix_replicas ix - 1\<rparr>) (filter (lowerable sc) ixs2)) d"
  | (down) d where "\<not> exceeds sc ixs1 cur" "hint = DOWN"
      "op = node_operation cur (ensureBoundsNodeReplicas sc (calculateDecreasedNodes cv cur t)) [] d"
      "int_shards ixs1 \<le> sint (sc_max_shards_per_node sc) *
         sint (ensureBoundsNodeReplicas sc (calculateDecreasedNodes cv cur t))"
proof -
  note b = scaleUpOrDown_branches [OF g, of cv ixs2 hint, folded op_def]
  note f = good_cluster_facts [OF g]
  consider (e) "exceeds sc ixs1 cur" | (i) "\<not> exceeds sc ixs1 cur" "fixes_of sc ixs1 \<noteq> []"
    | (n) "\<not> exceeds sc ixs1 cur" "fixes_of sc ixs1 = []" "hint = NONE"
    | (u) "\<not> exceeds sc ixs1 cur" "fixes_of sc ixs1 = []" "hint = UP"
    | (d) "\<not> exceeds sc ixs1 cur" "fixes_of sc ixs1 = []" "hint = DOWN"
    by (cases hint) auto
  then show thesis
  proof cases
    case e
    from b(1) [OF e] obtain d where "op = node_operation cur (ensureBoundsNodeReplicas sc
        (word_of_int (ceil_quot (int_shards ixs1) (sint (sc_max_shards_per_node sc))))) [] d" ..
    then show thesis using exceed [OF e] exceeding_nodes [OF g e] by blast
  next
    case i
    then show thesis using fit b(2) by simp
  next
    case n
    have "ensureBoundsNodeReplicas sc cur = cur" using f by (intro ensure_bounds.bnd_id)
    with b(3) n have "op = noopScalingOperation NothingToDo" by simp
    then show thesis by (rule quiet [OF n(1)])
  next
    case u
    then have op: "op = scale_up cv sc ixs2 [] (word_shards ixs1) cur" using b(3) by simp
    show thesis
      by (rule scale_up_op [OF g m, of cv, folded op t_def])
        (use quiet raise up u in \<open>auto simp: t_def\<close>)
  next
    case d
    then have op: "op = scale_down cv sc ixs2 [] (word_shards ixs1) cur" using b(3) by simp
    note s = scale_down_branches [OF g m, of cv, folded op t_def]
    show thesis
    proof (cases "filter (lowerable sc) ixs2 = []")
      case True
      then show thesis using s(2) quiet down d by (fastforce simp: t_def split: if_splits)
    next
      case False
      then show thesis using s(1) lower d by blast
    qed
  qed
qed

section \<open>Facts on the operation\<close>

lemma increased_pos:
  assumes "good_cluster sc ixs cur" "sint cur < int_shards ixs"
  shows "sint cur \<le> sint (calculateIncreasedNodes cv cur (word_shards ixs))"
  using good_cluster_facts [OF assms(1)] assms(2) by (intro increased_ge) auto

lemma lower_facts:
  fixes cv :: "f64 \<Rightarrow> int32"
  assumes g: "good_cluster sc ixs1 cur" and m: "mset ixs2 = mset ixs1"
    and l: "filter (lowerable sc) ixs2 \<noteq> []"
  defines "n \<equiv> calculateNodesWithSameShardToNodeRatio cv cur (word_shards ixs1)
      (snd (lower_indices sc [] (word_shards ixs1) ixs2))"
  shows "1 \<le> sint n" "sint n \<le> sint cur"
    "(int_shards ixs1 - lowered sc ixs2) * sint cur \<le> sint n * max (int_shards ixs1) (sint cur)"
proof -
  note f = good_cluster_facts [OF g] and t = lower_indices_total [OF g m]
  let ?u = "snd (lower_indices sc [] (word_shards ixs1) ixs2)"
  have "lowered sc ixs2 \<noteq> 0" "0 \<le> lowered sc ixs2"
    using lowered_pos_iff [OF same_indices(4) [OF g m], of sc] l by auto
  then have u: "0 \<le> sint ?u" "sint ?u < sint (word_shards ixs1)" using t f(5) by auto
  note d = same_ratio_down [OF f(3) u, of cv, folded n_def]
  show "sint n \<le> sint cur" using d by simp
  show le: "(int_shards ixs1 - lowered sc ixs2) * sint cur \<le> sint n * max (int_shards ixs1) (sint cur)"
    using d(3) t(1) f(5) by simp
  have "0 < (int_shards ixs1 - lowered sc ixs2) * sint cur" using t(3) f(4) by (intro mult_pos_pos) auto
  with le have "sint n \<noteq> 0" by auto
  with d(2) show "1 \<le> sint n" by linarith
qed

lemma operation_within_bounds:
  assumes g: "good_cluster sc ixs1 cur" and m: "mset ixs2 = mset ixs1"
    and r: "so_node_replicas (scaleUpOrDown cv sc ixs1 ixs2 hint cur) = Some r"
  shows "within_bounds sc r"
proof -
  note f = good_cluster_facts [OF g]
  have bnd: "1 \<le> sint n \<Longrightarrow> within_bounds sc (ensureBoundsNodeReplicas sc n)" for n
    by (rule ensure_bounds.bnd_within [OF f(1)])
  show ?thesis
  proof (rule operation_cases [OF g m, of cv hint], goal_cases)
    case (1 n d)
    then show ?case using bnd [of n] f(4) r by auto
  next
    case 2
    then show ?case using r by simp
  next
    case 3
    then show ?case using r by simp
  next
    case 4
    then show ?case using r by simp
  next
    case 5
    then show ?case using bnd increased_pos [OF g 5(3), of cv] f(4) r by auto
  next
    case 6
    then show ?case using bnd lower_facts [OF g m 6(4), of cv] r by auto
  next
    case 7
    then show ?case using bnd decreased_le(1) [OF f(3), of "word_shards ixs1" cv] f(5,6) r by auto
  qed
qed

lemma operation_not_smaller:
  assumes g: "good_cluster sc ixs1 cur" and m: "mset ixs2 = mset ixs1"
    and h: "hint \<noteq> DOWN \<or> exceeds sc ixs1 cur"
    and r: "so_node_replicas (scaleUpOrDown cv sc ixs1 ixs2 hint cur) = Some r"
  shows "sint cur \<le> sint r"
proof -
  note f = good_cluster_facts [OF g]
  have bnd: "sint cur \<le> sint n \<Longrightarrow> sint cur \<le> sint (ensureBoundsNodeReplicas sc n)" for n
    by (rule ensure_bounds.bnd_ge_current [OF f(1,2)])
  show ?thesis
    by (rule operation_cases [OF g m, of cv hint])
      (use r h bnd increased_pos [OF g, of cv] in auto)
qed

lemma operation_not_larger:
  assumes g: "good_cluster sc ixs1 cur" and m: "mset ixs2 = mset ixs1"
    and h: "hint = DOWN" "\<not> exceeds sc ixs1 cur"
    and r: "so_node_replicas (scaleUpOrDown cv sc ixs1 ixs2 hint cur) = Some r"
  shows "sint r \<le> sint cur"
proof -
  note f = good_cluster_facts [OF g]
  have bnd: "sint n \<le> sint cur \<Longrightarrow> sint (ensureBoundsNodeReplicas sc n) \<le> sint cur" for n
    by (rule ensure_bounds.bnd_le_current [OF f(1,2)])
  show ?thesis
    by (rule operation_cases [OF g m, of cv hint])
      (use r h f bnd lower_facts(2) [OF g m, of cv] decreased_le(2) [OF f(3), of "word_shards ixs1" cv] in auto)
qed

lemma operation_direction:
  assumes g: "good_cluster sc ixs1 cur" and m: "mset ixs2 = mset ixs1"
    and r: "so_node_replicas (scaleUpOrDown cv sc ixs1 ixs2 hint cur) = Some r"
  shows "(so_direction (scaleUpOrDown cv sc ixs1 ixs2 hint cur) = DOWN \<longleftrightarrow> sint r < sint cur)"
    and "hint = DOWN \<Longrightarrow> so_direction (scaleUpOrDown cv sc ixs1 ixs2 hint cur) = UP \<longleftrightarrow> sint cur < sint r"
  by (rule operation_cases [OF g m, of cv hint]; use r in auto)+

section \<open>The operation after the safety checks\<close>

lemma calculated_op:
  assumes "sp_replicas spec = Some cur" "sp_scaling spec = Some sc" "managed \<noteq> []"
    and "calculateScalingOperation cv ord1 ord2 spec managed nodes hint = Ok op"
  obtains (refused) d where "op = noopScalingOperation d"
  | (passed) "op = scaleUpOrDown cv sc (ord1 (map snd managed)) (ord2 (map snd managed)) hint cur"
      "\<And>r. so_node_replicas op = Some r \<Longrightarrow> sint (sc_min_index_replicas sc + 1) \<le> sint r"
      "so_direction op = DOWN \<Longrightarrow> 0 < sint (sc_disk_watermark sc) \<Longrightarrow>
       \<not> flt (f64_of_int (sint (sc_disk_watermark sc))) (getMaxDiskUsage nodes)"
  using assms
  by (auto simp: calculateScalingOperation_def Let_def not_less split: if_splits option.splits)

text \<open>The cluster a calculation is made for: the managed indices in the orders of the two loops.\<close>

definition good_calculation ::
  "(es_index list \<Rightarrow> es_index list) \<Rightarrow> (es_index list \<Rightarrow> es_index list) \<Rightarrow> eds_spec \<Rightarrow> eds_scaling \<Rightarrow>
   int32 \<Rightarrow> (string \<times> es_index) list \<Rightarrow> bool" where
  "good_calculation ord1 ord2 spec sc cur managed \<longleftrightarrow>
     sp_replicas spec = Some cur \<and> sp_scaling spec = Some sc \<and>
     good_cluster sc (map snd managed) cur \<and>
     mset (ord1 (map snd managed)) = mset (map snd managed) \<and>
     mset (ord2 (map snd managed)) = mset (map snd managed)"

lemma good_calculation_facts:
  assumes "good_calculation ord1 ord2 spec sc cur managed"
  shows "sp_replicas spec = Some cur" "sp_scaling spec = Some sc" "managed \<noteq> []"
    "good_cluster sc (ord1 (map snd managed)) cur"
    "mset (ord2 (map snd managed)) = mset (ord1 (map snd managed))"
    "int_shards (ord1 (map snd managed)) = int_shards (map snd managed)"
    "set (ord1 (map snd managed)) = snd ` set managed"
    "set (ord2 (map snd managed)) = snd ` set managed"
    "good_settings sc" "valid_bounds sc"
  using assms same_indices [of sc "map snd managed" cur "ord1 (map snd managed)"]
    same_indices [of sc "map snd managed" cur "ord2 (map snd managed)"]
  by (auto simp: good_calculation_def good_cluster_def good_settings_def)

lemma min_index_plus_one:
  "good_settings sc \<Longrightarrow> sint (sc_min_index_replicas sc) < 2147483647 \<Longrightarrow>
   sint (sc_min_index_replicas sc + 1) = sint (sc_min_index_replicas sc) + 1"
  by (subst sint32_add) (auto simp: good_settings_def)



text \<open>
  A DOWN hint never adds nodes while the shards per node respect the limit: a requested
  number of nodes is at most the current one, and never below minReplicas.
\<close>

theorem scaling_down_shrinks:
  assumes "good_calculation ord1 ord2 spec sc cur managed"
    and "calculateScalingOperation cv ord1 ord2 spec managed nodes DOWN = Ok op"
    and "so_node_replicas op = Some r"
    and "\<not> exceeds sc (map snd managed) cur"
  shows "sint r \<le> sint cur \<and> so_direction op \<noteq> UP"
proof -
  note f = good_calculation_facts [OF assms(1)]
  have h: "\<not> exceeds sc (ord1 (map snd managed)) cur"
    using assms(4) f(6) by (simp add: exceeds_def)
  from f(1-3) assms(2) show ?thesis
  proof (rule calculated_op)
    assume "op = scaleUpOrDown cv sc (ord1 (map snd managed)) (ord2 (map snd managed)) DOWN cur"
    with operation_not_larger [OF f(4,5) refl h, of cv r] assms(3) operation_direction [OF f(4,5)]
    show ?thesis by fastforce
  qed (use assms(3) in simp)
qed

section \<open>The indices after an operation\<close>

text \<open>The replicas of the indices once the operation's changes are written to the cluster.\<close>

definition apply_index_changes :: "scaling_operation \<Rightarrow> es_index list \<Rightarrow> es_index list" where
  "apply_index_changes op ixs =
     map (\<lambda>ix. case find_index (ix_index ix) (so_index_replicas op) of None \<Rightarrow> ix | Some ix' \<Rightarrow> ix') ixs"

lemma find_index_None: "find_index name ixs = None \<longleftrightarrow> name \<notin> ix_index ` set ixs"
  by (induction ixs) auto

lemma find_index_in: "distinct (map ix_index ixs) \<Longrightarrow> ix \<in> set ixs \<Longrightarrow> find_index (ix_index ix) ixs = Some ix"
  by (induction ixs) (auto simp: image_iff)

lemma apply_nothing: "so_index_replicas op = [] \<Longrightarrow> apply_index_changes op ixs = ixs"
  by (simp add: apply_index_changes_def)

lemma apply_changes:
  assumes "distinct (map ix_index ixs)" "\<And>ix. ix_index (f ix) = ix_index ix"
    and "so_index_replicas op = map f (filter P ixs2)" "set ixs2 = set ixs" "distinct (map ix_index ixs2)"
  shows "apply_index_changes op ixs = map (\<lambda>ix. if P ix then f ix else ix) ixs"
proof -
  have inj: "inj_on ix_index (set ixs)" using assms(1) by (simp add: distinct_map)
  have d: "distinct (map ix_index (map f (filter P ixs2)))"
    using assms(2,5) by (simp add: comp_def distinct_map inj_on_def)
  have "find_index (ix_index ix) (map f (filter P ixs2)) = (if P ix then Some (f ix) else None)"
    if "ix \<in> set ixs" for ix
  proof (cases "P ix")
    case True
    then show ?thesis using that assms(2,4) find_index_in [OF d, of "f ix"] by auto
  next
    case False
    have "ix_index ix \<notin> ix_index ` set (map f (filter P ixs2))"
      using False that assms(2,4) inj by (auto dest: inj_onD)
    then show ?thesis using False by (simp add: find_index_None)
  qed
  then show ?thesis by (simp add: apply_index_changes_def assms(3))
qed

lemma lowered_shards:
  assumes "good_settings sc" "\<forall>ix \<in> set ixs. regular_index ix"
  shows "int_shards (map (\<lambda>ix. if lowerable sc ix then ix\<lparr>ix_replicas := ix_replicas ix - 1\<rparr> else ix) ixs) =
    int_shards ixs - lowered sc ixs"
  using assms(2)
proof (induction ixs)
  case (Cons ix ixs)
  have e: "sint (ix_replicas ix - 1) = sint (ix_replicas ix) - 1" if "lowerable sc ix"
    using that assms(1) sint32_upper [of "ix_replicas ix"]
    by (subst sint32_diff) (auto simp: lowerable_def good_settings_def)
  have "sint (ix_primaries ix) * (sint (ix_replicas ix - 1) + 1) + sint (ix_primaries ix) =
      sint (ix_primaries ix) * (sint (ix_replicas ix) + 1)" if "lowerable sc ix"
    unfolding e [OF that] by (simp add: distrib_left)
  with Cons show ?case by (cases "lowerable sc ix") (auto simp: lowered_def)
qed (simp add: lowered_def)

lemma distinct_names_mset:
  "mset ixs2 = mset ixs \<Longrightarrow> distinct (map ix_index ixs2) = distinct (map ix_index ixs)"
  by (rule mset_eq_imp_distinct_iff) simp

lemma lowered_mset: "mset ixs2 = mset ixs \<Longrightarrow> lowered sc ixs2 = lowered sc ixs"
  unfolding lowered_def int_primaries_def by (rule sum_list_mset_cong) simp

lemma shards_fit_arith:
  fixes l s m n r c :: int
  assumes "0 < c" "1 \<le> n" "l * c \<le> n * max s c" "s \<le> m * c" "n \<le> r" "1 \<le> m"
  shows "l \<le> m * r"
proof -
  have "1 * c \<le> m * c" using assms by (intro mult_right_mono) auto
  then have "max s c \<le> m * c" using assms(4) by simp
  then have "n * max s c \<le> n * (m * c)" using assms(2) by (intro mult_left_mono) auto
  also have "\<dots> = (m * n) * c" by simp
  finally have "l * c \<le> (m * n) * c" using assms(3) by linarith
  then have "l \<le> m * n" using assms(1) by simp
  also have "\<dots> \<le> m * r" using assms by (intro mult_left_mono) auto
  finally show ?thesis .
qed

lemma down_shards_fit:
  assumes g: "good_cluster sc ixs1 cur" and m: "mset ixs2 = mset ixs1"
    and r: "so_node_replicas (scaleUpOrDown cv sc ixs1 ixs2 hint cur) = Some r"
    and d: "so_direction (scaleUpOrDown cv sc ixs1 ixs2 hint cur) = DOWN"
    and i: "distinct (map ix_index ixs)" "mset ixs = mset ixs1"
  shows "int_shards (apply_index_changes (scaleUpOrDown cv sc ixs1 ixs2 hint cur) ixs) \<le>
    sint (sc_max_shards_per_node sc) * sint r"
proof -
  note f = good_cluster_facts [OF g]
  let ?op = "scaleUpOrDown cv sc ixs1 ixs2 hint cur" and ?M = "sint (sc_max_shards_per_node sc)"
  have "sint r < sint cur" using operation_direction(1) [OF g m r] d by simp
  then have "\<not> (hint \<noteq> DOWN \<or> exceeds sc ixs1 cur)"
    using operation_not_smaller [OF g m _ r] by fastforce
  then have hint: "hint = DOWN" "\<not> exceeds sc ixs1 cur" by simp_all
  show ?thesis
  proof (rule operation_cases [OF g m, of cv hint], goal_cases)
    case (6 n)
    let ?n = "calculateNodesWithSameShardToNodeRatio cv cur (word_shards ixs1)
      (snd (lower_indices sc [] (word_shards ixs1) ixs2))"
    note l = lower_facts [OF g m 6(4), of cv]
    have ms: "mset ixs2 = mset ixs" using m i(2) by simp
    note s = mset_eq_setD [OF ms] distinct_names_mset [OF ms, THEN iffD2, OF i(1)]
    have "so_index_replicas ?op =
        map (\<lambda>ix. ix\<lparr>ix_replicas := ix_replicas ix - 1\<rparr>) (filter (lowerable sc) ixs2)"
      using 6(5) by simp
    from apply_changes [OF i(1) _ this s]
    have "apply_index_changes ?op ixs =
        map (\<lambda>ix. if lowerable sc ix then ix\<lparr>ix_replicas := ix_replicas ix - 1\<rparr> else ix) ixs"
      by simp
    then have "int_shards (apply_index_changes ?op ixs) = int_shards ixs - lowered sc ixs"
      using g same_indices(4) [OF g i(2)] by (simp add: lowered_shards good_cluster_def)
    moreover have "lowered sc ixs2 = lowered sc ixs" by (rule lowered_mset [OF ms])
    moreover have "sint ?n \<le> sint r"
      using ensure_bounds.bnd_ge_if_le_current [OF f(1,2) l(2)] 6(5) r by auto
    ultimately show ?case
      using shards_fit_arith [OF f(4) l(1,3)] f(9) hint(2) int_shards_mset [OF i(2)]
      by (simp add: exceeds_def)
  qed (use r d hint int_shards_mset [OF i(2)] in \<open>auto simp: apply_nothing\<close>)
qed


text \<open>A change of an index the autoscaler may ask for.\<close>

definition allowed_change :: "eds_scaling \<Rightarrow> es_index \<Rightarrow> es_index \<Rightarrow> bool" where
  "allowed_change sc ix ix' \<longleftrightarrow>
     ix_index ix' = ix_index ix \<and> ix_primaries ix' = ix_primaries ix \<and>
     sint (sc_min_index_replicas sc) \<le> sint (ix_replicas ix') \<and>
     sint (ix_replicas ix') \<le> sint (sc_max_index_replicas sc) \<and>
     ix_replicas ix' \<noteq> ix_replicas ix \<and>
     (sint (ix_replicas ix') = sint (ix_replicas ix) + 1 \<or>
      sint (ix_replicas ix') = sint (ix_replicas ix) - 1 \<or>
      sint (ix_replicas ix') = sint (sc_min_index_replicas sc) \<or>
      sint (ix_replicas ix') = sint (sc_max_index_replicas sc))"

lemma fixes_allowed:
  assumes "good_settings sc" "ix' \<in> set (fixes_of sc ixs)"
  shows "\<exists>ix \<in> set ixs. allowed_change sc ix ix'"
proof -
  from assms(2) obtain ix where ix: "ix \<in> set ixs" "ix' \<in> set (index_fixes sc ix)"
    by (auto simp: fixes_of_def)
  have "allowed_change sc ix ix'"
    using ix(2) assms(1) by (auto simp: index_fixes_def allowed_change_def good_settings_def split: if_splits)
  with ix(1) show ?thesis by blast
qed

lemma raised_allowed:
  assumes "raise_indices sc [] t ixs2 = Inr (newIxs, u)" "fixes_of sc ixs1 = []" "set ixs2 = set ixs1"
    and "ix' \<in> set newIxs"
  shows "\<exists>ix \<in> set ixs1. allowed_change sc ix ix'"
proof -
  from raise_indices_Inr [OF assms(1)] assms(3,4) obtain ix where
    ix: "ix \<in> set ixs1" "ix' = ix\<lparr>ix_replicas := ix_replicas ix + 1\<rparr>"
      "sint (ix_replicas ix) < sint (sc_max_index_replicas sc)" by auto
  then have e: "sint (ix_replicas ix + 1) = sint (ix_replicas ix) + 1"
    using sint32_upper [of "sc_max_index_replicas sc"] sint32_lower [of "ix_replicas ix"]
    by (subst sint32_add) auto
  moreover from e have "ix_replicas ix + 1 \<noteq> ix_replicas ix" by simp
  ultimately show ?thesis
    using ix assms(2) by (intro bexI [of _ ix]) (auto simp: allowed_change_def fixes_of_Nil_iff)
qed

lemma lowered_allowed:
  assumes "fixes_of sc ixs1 = []" "set ixs2 = set ixs1"
    and "ix' \<in> set (map (\<lambda>ix. ix\<lparr>ix_replicas := ix_replicas ix - 1\<rparr>) (filter (lowerable sc) ixs2))"
  shows "\<exists>ix \<in> set ixs1. allowed_change sc ix ix'"
proof -
  from assms(2,3) obtain ix where ix: "ix \<in> set ixs1" "lowerable sc ix"
    "ix' = ix\<lparr>ix_replicas := ix_replicas ix - 1\<rparr>" by auto
  then have e: "sint (ix_replicas ix - 1) = sint (ix_replicas ix) - 1"
    using sint32_lower [of "sc_min_index_replicas sc"] sint32_upper [of "ix_replicas ix"]
    by (subst sint32_diff) (auto simp: lowerable_def)
  moreover from e have "ix_replicas ix - 1 \<noteq> ix_replicas ix" by simp
  ultimately show ?thesis
    using ix assms(1) by (intro bexI [of _ ix]) (auto simp: allowed_change_def fixes_of_Nil_iff lowerable_def)
qed

text \<open>
  C25. Every index change belongs to a managed index, keeps its name and primaries, really changes
  its replicas, by one or to a bound, and leaves them within minIndexReplicas and
  maxIndexReplicas.
\<close>

theorem scaling_index_replicas_allowed:
  assumes "good_calculation ord1 ord2 spec sc cur managed"
    and "calculateScalingOperation cv ord1 ord2 spec managed nodes hint = Ok op"
    and "ix' \<in> set (so_index_replicas op)"
  shows "\<exists>ix \<in> set (map snd managed). allowed_change sc ix ix'"
proof -
  note f = good_calculation_facts [OF assms(1)]
  have s: "set (ord2 (map snd managed)) = set (ord1 (map snd managed))" using f by simp
  have a: "\<exists>ix \<in> set (ord1 (map snd managed)). allowed_change sc ix ix'"
    if op: "op = scaleUpOrDown cv sc (ord1 (map snd managed)) (ord2 (map snd managed)) hint cur"
  proof (rule operation_cases [OF f(4,5), of cv hint], goal_cases)
    case 2
    then show ?case using op assms(3) fixes_allowed [OF f(9)] by simp
  next
    case 4
    then show ?case using op assms(3) raised_allowed [OF _ _ s] by metis
  next
    case 6
    then show ?case using op assms(3) lowered_allowed [OF _ s, of sc ix'] by simp
  qed (use op assms(3) in simp_all)
  from f(1-3) assms(2) show ?thesis
    by (rule calculated_op) (use a assms(3) f(7) in auto)
qed

end
