(* ===== verification/OrderProps.thy ===== *)
theory OrderProps
  imports ScalingProps
begin

text \<open>
  Go ranges over the map of indices in an unspecified order, twice in one calculation. Which parts
  of the result of operator/autoscaler.go depend on the two orders, and which do not.
\<close>

section \<open>Two operations that agree\<close>

definition same_operation :: "scaling_operation \<Rightarrow> scaling_operation \<Rightarrow> bool" where
  "same_operation a b \<longleftrightarrow> so_direction a = so_direction b \<and> so_node_replicas a = so_node_replicas b \<and>
     mset (so_index_replicas a) = mset (so_index_replicas b)"

lemma same_operation_refl [simp]: "same_operation a a"
  by (simp add: same_operation_def)

lemma same_operation_noop [simp]: "same_operation (noopScalingOperation d) (noopScalingOperation d')"
  by (simp add: same_operation_def)

lemma same_node_operation [simp]:
  "same_operation (node_operation cur n ixs d) (node_operation cur n ixs' d') \<longleftrightarrow> mset ixs = mset ixs'"
  by (simp add: same_operation_def)

section \<open>The loops\<close>

definition mixed :: "eds_scaling \<Rightarrow> es_index list \<Rightarrow> bool" where
  "mixed sc ixs \<longleftrightarrow>
     (\<exists>ix \<in> set ixs. sint (ix_replicas ix) < sint (sc_min_index_replicas sc)) \<and>
     (\<exists>ix \<in> set ixs. sint (sc_max_index_replicas sc) < sint (ix_replicas ix))"

lemma fixes_of_mset:
  assumes "mset xs = mset ys"
  shows "mset (fixes_of sc xs) = mset (fixes_of sc ys)"
proof -
  have "mset (fixes_of sc zs) = sum_list (map (\<lambda>ix. mset (index_fixes sc ix)) zs)" for zs
    by (induction zs) (simp_all add: fixes_of_def)
  then show ?thesis using sum_list_mset_cong [OF assms] by metis
qed

lemma scan_direction:
  "fst (snd (foldl (scan_index sc) (acc, dir, t) ixs)) \<in>
     {dir} \<union> (if \<exists>ix \<in> set ixs. sint (ix_replicas ix) < sint (sc_min_index_replicas sc) then {UP} else {})
       \<union> (if \<exists>ix \<in> set ixs. sint (sc_max_index_replicas sc) < sint (ix_replicas ix) then {DOWN} else {})"
proof (induction ixs arbitrary: acc dir t)
  case (Cons ix ixs)
  obtain acc' dir' t' where s: "scan_index sc (acc, dir, t) ix = (acc', dir', t')"
    by (cases "scan_index sc (acc, dir, t) ix")
  have "dir' = dir \<or> (dir' = UP \<and> sint (ix_replicas ix) < sint (sc_min_index_replicas sc)) \<or>
      (dir' = DOWN \<and> sint (sc_max_index_replicas sc) < sint (ix_replicas ix))"
    using s by (auto simp: scan_index_def Let_def split: if_splits)
  with Cons.IH [of acc' dir' t'] show ?case by (auto simp: s split: if_splits)
qed simp

lemma fix_direction_unmixed:
  assumes "\<not> mixed sc ixs"
  shows "fix_direction sc ixs =
    (if \<exists>ix \<in> set ixs. sint (ix_replicas ix) < sint (sc_min_index_replicas sc) then UP
     else if \<exists>ix \<in> set ixs. sint (sc_max_index_replicas sc) < sint (ix_replicas ix) then DOWN
     else NONE)"
proof -
  have "fix_direction sc ixs \<in> {NONE} \<union>
      (if \<exists>ix \<in> set ixs. sint (ix_replicas ix) < sint (sc_min_index_replicas sc) then {UP} else {})
       \<union> (if \<exists>ix \<in> set ixs. sint (sc_max_index_replicas sc) < sint (ix_replicas ix) then {DOWN} else {})"
    unfolding fix_direction_def scan_indices_def by (rule scan_direction)
  moreover have "fix_direction sc ixs = NONE \<longleftrightarrow>
      (\<forall>ix \<in> set ixs. sint (sc_min_index_replicas sc) \<le> sint (ix_replicas ix) \<and>
         sint (ix_replicas ix) \<le> sint (sc_max_index_replicas sc))"
    by (simp add: fix_direction_NONE_iff fixes_of_Nil_iff)
  ultimately show ?thesis using assms unfolding mixed_def by (auto simp: not_le split: if_splits)
qed

lemma scale_up_order:
  assumes m: "mset ixs' = mset ixs"
  shows "same_operation (scale_up cv sc ixs [] t cur) (scale_up cv sc ixs' [] t cur)"
proof (cases "\<exists>ix \<in> set ixs. sint (sc_max_index_replicas sc) \<le> sint (ix_replicas ix)")
  case True
  then obtain a b where "raise_indices sc [] t ixs = Inl a" "raise_indices sc [] t ixs' = Inl b"
    using raise_indices_Inl_iff [of sc "[]" t] mset_eq_setD [OF m] by metis
  then show ?thesis by (simp add: scale_up_def Let_def)
next
  case False
  then obtain a b where r: "raise_indices sc [] t ixs = Inr a" "raise_indices sc [] t ixs' = Inr b"
    using raise_indices_Inl_iff [of sc "[]" t] mset_eq_setD [OF m] by (metis sum.exhaust)
  obtain na ua nb ub where ab: "a = (na, ua)" "b = (nb, ub)" by (cases a, cases b)
  note ra = raise_indices_Inr [OF r(1) [unfolded ab]] and rb = raise_indices_Inr [OF r(2) [unfolded ab]]
  have u: "ub = ua" using ra rb sum_list_mset_cong [OF m, of ix_primaries] by simp
  have n: "mset na = mset nb" using ra rb m by simp
  show ?thesis using n by (simp add: scale_up_def Let_def r ab u same_operation_def)
qed

lemma scale_down_order:
  assumes m: "mset ixs' = mset ixs"
  shows "same_operation (scale_down cv sc ixs [] t cur) (scale_down cv sc ixs' [] t cur)"
proof -
  have "(\<Sum>ix\<leftarrow>filter (lowerable sc) ixs'. ix_primaries ix) = (\<Sum>ix\<leftarrow>filter (lowerable sc) ixs. ix_primaries ix)"
    by (rule sum_list_mset_cong) (simp add: m)
  then show ?thesis using m by (simp add: scale_down_def lower_indices_eq Let_def)
qed

lemma scaleUpOrDown_order:
  assumes m1: "mset ixs1' = mset ixs1" and m2: "mset ixs2' = mset ixs2" and mix: "\<not> mixed sc ixs1"
  shows "same_operation (scaleUpOrDown cv sc ixs1 ixs2 hint cur) (scaleUpOrDown cv sc ixs1' ixs2' hint cur)"
proof -
  have w: "word_shards ixs1' = word_shards ixs1" by (rule word_shards_mset [OF m1])
  have f: "mset (fixes_of sc ixs1') = mset (fixes_of sc ixs1)" by (rule fixes_of_mset [OF m1])
  then have e: "fixes_of sc ixs1' = [] \<longleftrightarrow> fixes_of sc ixs1 = []" by (metis mset_zero_iff)
  have "\<not> mixed sc ixs1'" using mix mset_eq_setD [OF m1] by (simp add: mixed_def)
  then have d: "fix_direction sc ixs1' = fix_direction sc ixs1"
    using mix mset_eq_setD [OF m1] by (simp add: fix_direction_unmixed)
  show ?thesis
  proof (cases "fixes_of sc ixs1 = []")
    case True
    moreover from this e have "fixes_of sc ixs1' = []" by simp
    ultimately show ?thesis
      using scale_up_order [OF m2, of cv sc] scale_down_order [OF m2, of cv sc]
      by (cases hint) (simp_all add: scaleUpOrDown_def scan_indices_split Let_def w d)
  next
    case False
    then show ?thesis
      using f e by (simp add: scaleUpOrDown_def scan_indices_split Let_def w d same_operation_def)
  qed
qed

section \<open>Properties\<close>

text \<open>
  C29. The order of the map iterations does not matter: with any two orders for each loop the
  calculation returns the same direction, the same number of nodes and the same index changes,
  listed in another order. The one exception is excluded by the hypothesis: an index below
  minIndexReplicas together with one above maxIndexReplicas.
\<close>

theorem scaling_order_independent:
  assumes "sp_replicas spec = Some cur" "sp_scaling spec = Some sc"
    and "\<And>f. f \<in> {ord1, ord2, ord1', ord2'} \<Longrightarrow> mset (f (map snd managed)) = mset (map snd managed)"
    and "\<not> mixed sc (map snd managed)"
  shows "\<exists>a b. calculateScalingOperation cv ord1 ord2 spec managed nodes hint = Ok a \<and>
    calculateScalingOperation cv ord1' ord2' spec managed nodes hint = Ok b \<and> same_operation a b"
proof -
  let ?ixs = "map snd managed"
  note p = assms(3) [of ord1] assms(3) [of ord2] assms(3) [of ord1'] assms(3) [of ord2']
  have m: "mset (ord1' ?ixs) = mset (ord1 ?ixs)" "mset (ord2' ?ixs) = mset (ord2 ?ixs)"
    "set (ord1 ?ixs) = set ?ixs"
    using p by (simp_all only: insert_iff simp_thms mset_eq_setD [OF p(1)])
  have mix: "\<not> mixed sc (ord1 ?ixs)" using assms(4) unfolding mixed_def m(3) .
  have "same_operation (scaleUpOrDown cv sc (ord1 ?ixs) (ord2 ?ixs) hint cur)
      (scaleUpOrDown cv sc (ord1' ?ixs) (ord2' ?ixs) hint cur)"
    by (rule scaleUpOrDown_order [OF m(1,2) mix])
  then show ?thesis
    using assms(1,2)
    by (auto simp: calculateScalingOperation_def Let_def same_operation_def split: option.splits)
qed

end
