(* ===== verification/NodeProps.thy ===== *)
theory NodeProps
  imports ScalingLemmas
begin

text \<open>
  What the three node calculations at the end of operator/autoscaler.go return: the exact
  integer results the rounding in float64 arrives at, and the one case where it does not.
\<close>

section \<open>Adding and removing nodes\<close>

text \<open>
  A scale-up by nodes arrives at the fewest nodes for which the shards per node are at most
  the next integer k below the current ratio: k is the greatest integer that is strictly less
  than the ratio, and fewer nodes would not reach it.
\<close>

theorem increased_nodes_least:
  assumes "realistic n" "sint n < sint t"
  shows "\<exists>k. 1 \<le> k \<and> k * sint n < sint t \<and> sint t \<le> (k + 1) * sint n \<and>
    (\<forall>m. sint t \<le> k * m \<longleftrightarrow> sint (calculateIncreasedNodes cv n t) \<le> m)"
proof -
  have n: "0 < sint n" "sint n \<le> 50000" using assms(1) by (auto simp: realistic_def)
  let ?k = "ceil_quot (sint t) (sint n) - 1"
  have k: "1 \<le> ?k" using less_ceil_quot_iff [OF n(1), of 1 "sint t"] assms(2) by simp
  moreover have "?k * sint n < sint t" using less_ceil_quot_iff [OF n(1), of ?k "sint t"] by simp
  moreover have "sint t \<le> (?k + 1) * sint n" using ceil_quot_le_iff [OF n(1), of "sint t" "?k + 1"] by simp
  moreover have "sint t \<le> ?k * m \<longleftrightarrow> sint (calculateIncreasedNodes cv n t) \<le> m" for m
    using ceil_quot_le_iff [of ?k "sint t" m] k calculateIncreasedNodes_sint [OF n assms(2), of cv]
    by (simp add: mult.commute)
  ultimately show ?thesis by blast
qed

theorem increased_nodes_least_witness:
  "\<exists>k. 1 \<le> k \<and> k * sint (6 :: int32) < sint (16 :: int32) \<and> sint (16 :: int32) \<le> (k + 1) * sint (6 :: int32) \<and>
    (\<forall>m. sint (16 :: int32) \<le> k * m \<longleftrightarrow> sint (calculateIncreasedNodes (\<lambda>_. 0) 6 16) \<le> m)"
  by (rule increased_nodes_least) (simp_all add: realistic_def)

text \<open>
  A scale-down by nodes removes at least one node while there is more than one, and arrives
  at the smaller of that and the fewest nodes whose shards per node stay at most the next integer
  k + 1 above the current ratio.
\<close>

theorem decreased_nodes_result:
  assumes "realistic n" "0 \<le> sint t"
  shows "\<exists>k m. k * sint n \<le> sint t \<and> sint t < (k + 1) * sint n \<and>
    (\<forall>i. sint t \<le> (k + 1) * i \<longleftrightarrow> m \<le> i) \<and>
    sint (calculateDecreasedNodes cv n t) = max 1 (min (sint n - 1) m)"
proof -
  have n: "0 < sint n" "sint n \<le> 50000" using assms(1) by (auto simp: realistic_def)
  let ?k = "sint t div sint n" and ?m = "ceil_quot (sint t) (sint t div sint n + 1)"
  have "0 < ?k + 1" using n assms(2) by (simp add: pos_imp_zdiv_nonneg_iff add_pos_nonneg le_imp_less_Suc zle_add1_eq_le)
  then have "sint t \<le> (?k + 1) * i \<longleftrightarrow> ?m \<le> i" for i
    using ceil_quot_le_iff [of "?k + 1" "sint t" i] by (simp add: mult.commute)
  moreover have "?k * sint n \<le> sint t" "sint t < (?k + 1) * sint n"
    using div_mult_mod_eq [of "sint t" "sint n"] pos_mod_bound [OF n(1), of "sint t"]
      pos_mod_sign [OF n(1), of "sint t"]
    unfolding distrib_right mult_1_left by linarith+
  moreover have "sint (calculateDecreasedNodes cv n t) = max 1 (min (sint n - 1) ?m)"
    using calculateDecreasedNodes_exact [OF n assms(2), of cv] by (simp add: decreased_nodes_def)
  ultimately show ?thesis by blast
qed

theorem decreased_nodes_result_witness:
  "\<exists>k m. k * sint (8 :: int32) \<le> sint (14 :: int32) \<and> sint (14 :: int32) < (k + 1) * sint (8 :: int32) \<and>
    (\<forall>i. sint (14 :: int32) \<le> (k + 1) * i \<longleftrightarrow> m \<le> i) \<and>
    sint (calculateDecreasedNodes (\<lambda>_. 0) 8 14) = max 1 (min (sint (8 :: int32) - 1) m)"
  by (rule decreased_nodes_result) (simp_all add: realistic_def)

section \<open>Keeping the ratio\<close>

text \<open>
  The node count that keeps the shards per node when the shards go from t to u is the
  fewest nodes with at most the current ratio (at least one shard per node), except that the
  rounding of the ratio may add one node, and only when the exact quotient is an integer.
\<close>

theorem same_ratio_result:
  fixes cv :: "f64 \<Rightarrow> int32"
  assumes "realistic n" "0 < sint t" "0 \<le> sint u" "sint u < 2 * sint t"
  shows "\<exists>m. (\<forall>i. sint u * sint n \<le> i * max (sint t) (sint n) \<longleftrightarrow> m \<le> i) \<and>
    (sint (calculateNodesWithSameShardToNodeRatio cv n t u) = m \<or>
     sint (calculateNodesWithSameShardToNodeRatio cv n t u) = m + 1 \<and> sint t dvd sint u * sint n)"
proof -
  have n: "0 < sint n" "sint n \<le> 50000" using assms(1) by (auto simp: realistic_def)
  let ?e = "same_ratio_nodes (sint n) (sint t) (sint u)"
  have "sint u * sint n \<le> sint u * 50000" using n assms(3) by (intro mult_left_mono) auto
  then have small: "sint u * sint n < 2 ^ 49" using sint32_upper [of u] by simp
  have fits: "?e < 2147483647"
  proof (cases "sint t \<le> sint n")
    case True
    then show ?thesis using n assms by (simp add: same_ratio_nodes_def)
  next
    case False
    have "sint u * sint n \<le> (2 * sint n) * sint t"
      using assms(4) n mult_right_mono [of "sint u" "2 * sint t" "sint n"] by (simp add: mult.assoc mult.commute mult.left_commute)
    then have "ceil_quot (sint u * sint n) (sint t) \<le> 2 * sint n" using ceil_quot_le_iff [OF assms(2)] by blast
    then show ?thesis using False n by (simp add: same_ratio_nodes_def)
  qed
  have "sint u * sint n \<le> i * max (sint t) (sint n) \<longleftrightarrow> ?e \<le> i" for i
    using n assms(2) ceil_quot_le_iff [OF assms(2), of "sint u * sint n" i]
    by (auto simp: same_ratio_nodes_def max_def)
  then show ?thesis
    using same_ratio_nodes_result [OF n(1) assms(3) small fits, of cv] by blast
qed

theorem same_ratio_result_witness:
  "\<exists>m. (\<forall>i. sint (17 :: int32) * sint (14 :: int32) \<le> i * max (sint (34 :: int32)) (sint (14 :: int32)) \<longleftrightarrow> m \<le> i) \<and>
    (sint (calculateNodesWithSameShardToNodeRatio (\<lambda>_. 0) 14 34 17) = m \<or>
     sint (calculateNodesWithSameShardToNodeRatio (\<lambda>_. 0) 14 34 17) = m + 1 \<and>
     sint (34 :: int32) dvd sint (17 :: int32) * sint (14 :: int32))"
  by (rule same_ratio_result) (simp_all add: realistic_def)

text \<open>The rounding, evaluated.\<close>

lemma rnd_eval:
  assumes "2 powi k \<le> r" "r < 2 powi (k + 1)" "- 1022 \<le> k"
  shows "rnd r = of_int (round_even (r / 2 powi (k - 52))) * 2 powi (k - 52)"
proof -
  have r: "0 < r" using assms(1) powi_pos [of k] by linarith
  have "(2::rat) powi ilog2 r < 2 powi (k + 1)" "(2::rat) powi k < 2 powi (ilog2 r + 1)"
    using ilog2_bounds [OF r] assms by linarith+
  then have "ilog2 r < k + 1" "k < ilog2 r + 1"
    using power_int_increasing [of "k + 1" "ilog2 r" "2::rat"]
      power_int_increasing [of "ilog2 r + 1" k "2::rat"] by force+
  then show ?thesis using r assms(3) by (simp add: rnd_def rnd_exp_def)
qed

lemma round_even_eqI: "\<bar>x - of_int n\<bar> < 1 / 2 \<Longrightarrow> round_even x = n"
proof -
  assume a: "\<bar>x - of_int n\<bar> < 1 / 2"
  with round_even_error [of x] have "\<bar>of_int (round_even x) - of_int n :: rat\<bar> < 1" by linarith
  then have "\<bar>of_int (round_even x - n) :: rat\<bar> < 1" by simp
  then show ?thesis by linarith
qed

lemma rnd_eqI:
  assumes "2 ^ 52 \<le> r * 2 ^ j" "r * 2 ^ j < 2 ^ 53" "\<bar>r * 2 ^ j - of_int n\<bar> < 1 / 2" "j \<le> 1000"
  shows "rnd r = of_int n / 2 ^ j"
proof -
  have p: "(2::rat) powi (i - int j) = 2 powi i / 2 ^ j" for i by (simp add: power_int_diff)
  have "rnd r = of_int (round_even (r / 2 powi (52 - int j - 52))) * 2 powi (52 - int j - 52)"
  proof (rule rnd_eval)
    show "2 powi (52 - int j) \<le> r" using assms(1) by (simp add: p pos_divide_le_eq)
    have "r < 2 powi (53 - int j)" using assms(2) by (simp add: p pos_less_divide_eq)
    then show "r < 2 powi (52 - int j + 1)" by (simp add: algebra_simps)
  qed (use assms(4) in simp)
  also have "(2::rat) powi (52 - int j - 52) = 1 / 2 ^ j" using p [of 0] by simp
  finally show ?thesis using round_even_eqI [OF assms(3)] by simp
qed

text \<open>
  The extra node happens: 34 shards on 14 nodes going to 17 shards need exactly 7 nodes at
  the same ratio, the code asks for 8.
\<close>

theorem same_ratio_extra_node:
  "sint (calculateNodesWithSameShardToNodeRatio cv 14 34 17) = 8 \<and>
   sint (17 :: int32) * sint (14 :: int32) = 7 * sint (34 :: int32)"
proof -
  have r: "rnd (17 / 7) = 5468656690378459 / 2251799813685248"
    using rnd_eqI [of "17 / 7" 51 5468656690378459] by simp
  have "rnd (17 / (5468656690378459 / 2251799813685248)) = 7881299347898369 / 1125899906842624"
    using rnd_eqI [of "17 / (5468656690378459 / 2251799813685248)" 50 7881299347898369] by simp
  then have "\<lceil>rnd (17 / rnd (17 / 7))\<rceil> = 8"
    unfolding r by (simp only: ceiling_eq_iff) simp
  then have "calculateNodesWithSameShardToNodeRatio cv 14 34 17 = f64_to_int32 cv (Fin (of_int 8))"
    using calculateNodesWithSameShardToNodeRatio_float [of 14 34 17 cv] by simp
  then show ?thesis by (simp only: f64_to_int32_int) simp
qed

end
