(* ===== verification/ScalingExamples.thy ===== *)
theory ScalingExamples
  imports OrderProps NodeProps
begin

text \<open>
  One small cluster on which the scaling properties are exercised: the autoscaler's behaviour on
  it is computed from the branches, and instantiates the theorems of the calculation.
\<close>

definition example_ix :: "string \<Rightarrow> int32 \<Rightarrow> int32 \<Rightarrow> es_index" where
  "example_ix n p r = \<lparr>ix_index = n, ix_primaries = p, ix_replicas = r\<rparr>"

definition example_spec :: "int32 \<Rightarrow> eds_spec" where
  "example_spec n =
     \<lparr>sp_replicas = Some n, sp_exclude_system_indices = False, sp_skip_draining = False,
      sp_template = \<lparr>pt_meta = \<lparr>em_labels = None, em_annotations = None\<rparr>, pt_spec = []\<rparr>,
      sp_scaling = Some example_scaling, sp_volume_claims = [], sp_experimental = None\<rparr>"

definition example_managed :: "(string \<times> es_index) list" where
  "example_managed = [(''a'', example_ix ''a'' 1 2)]"

lemma example_managed_ixs: "map snd example_managed = [example_ix ''a'' 1 2]"
  by (simp add: example_managed_def)

lemma example_good_cluster: "good_cluster example_scaling [example_ix ''a'' 1 2] 4"
  by code_simp

lemma example_good: "good_calculation id id (example_spec 4) example_scaling 4 example_managed"
  using example_good_cluster
  by (simp add: good_calculation_def example_spec_def example_managed_ixs)

lemma example_word_shards: "word_shards [example_ix ''a'' 1 2] = 3"
  by (simp add: word_shards_def example_ix_def)

lemma example_not_exceeds: "\<not> exceeds example_scaling [example_ix ''a'' 1 2] 4"
  by code_simp

lemma example_no_fixes: "fixes_of example_scaling [example_ix ''a'' 1 2] = []"
  by code_simp

lemma example_same_ratio:
  "calculateNodesWithSameShardToNodeRatio cv 4 3 2 = 2" "calculateNodesWithSameShardToNodeRatio cv 4 3 4 = 4"
  by (simp_all add: same_ratio_few_shards)

lemma example_scale_down:
  "scaleUpOrDown cv example_scaling [example_ix ''a'' 1 2] [example_ix ''a'' 1 2] DOWN 4 =
     node_operation 4 2 [example_ix ''a'' 1 1] (KeepingRatioDecreasingReplicas (shardToNodeRatio 3 4))"
  using scaleUpOrDown_branches(3) [OF example_good_cluster example_not_exceeds example_no_fixes,
      of cv "[example_ix ''a'' 1 2]" DOWN]
    scale_down_branches(1) [OF example_good_cluster refl, of cv]
  by (simp add: example_word_shards lowerable_def lower_indices_eq example_same_ratio)
    (simp add: example_ix_def example_scaling_def example_same_ratio ensureBoundsNodeReplicas_def)

lemma example_scale_up:
  "scaleUpOrDown cv example_scaling [example_ix ''a'' 1 2] [example_ix ''a'' 1 2] UP 4 =
     \<lparr>so_direction = UP, so_node_replicas = Some 4, so_index_replicas = [example_ix ''a'' 1 3],
      so_description = IncreasingIndexReplicas\<rparr>"
proof -
  have "fle (shardToNodeRatio 3 4) (f64_of_int (sint (1 :: int32)))"
    by (subst ratio_le_iff) simp_all
  moreover have "fle (f64_of_int (sint (1 :: int32))) (shardToNodeRatio 4 4)"
    by (subst ratio_ge_iff) simp_all
  ultimately have "scale_up cv example_scaling [example_ix ''a'' 1 2] [] 3 4 =
      \<lparr>so_direction = UP, so_node_replicas = Some 4, so_index_replicas = [example_ix ''a'' 1 3],
       so_description = IncreasingIndexReplicas\<rparr>"
    by (simp add: scale_up_def example_ix_def Let_def)
      (simp add: example_scaling_def example_same_ratio ensureBoundsNodeReplicas_def i50_def)
  then show ?thesis
    using scaleUpOrDown_branches(3) [OF example_good_cluster example_not_exceeds example_no_fixes,
        of cv "[example_ix ''a'' 1 2]" UP]
    by (simp add: example_word_shards)
qed

lemma example_disk: "\<not> flt (Fin 80) (getMaxDiskUsage [])"
  by (simp add: getMaxDiskUsage_def)

lemma example_calculate:
  "calculateScalingOperation cv id id (example_spec 4) example_managed [] DOWN =
     Ok (node_operation 4 2 [example_ix ''a'' 1 1] (KeepingRatioDecreasingReplicas (shardToNodeRatio 3 4)))"
  "calculateScalingOperation cv id id (example_spec 4) example_managed [] UP =
     Ok \<lparr>so_direction = UP, so_node_replicas = Some 4, so_index_replicas = [example_ix ''a'' 1 3],
      so_description = IncreasingIndexReplicas\<rparr>"
  using example_disk
  by (simp_all add: calculateScalingOperation_def example_managed_def example_spec_def
      example_scale_down example_scale_up Let_def)
    (simp_all add: example_scaling_def i50_def)

section \<open>The calculation's theorems on the example\<close>



theorem scaling_down_shrinks_witness:
  "\<exists>op. calculateScalingOperation (\<lambda>_. 0) id id (example_spec 4) example_managed [] DOWN = Ok op \<and>
     so_node_replicas op = Some 2 \<and> sint (2 :: int32) \<le> sint (4 :: int32) \<and> so_direction op \<noteq> UP"
  by (intro exI conjI, rule example_calculate(1))
    (use example_not_exceeds scaling_down_shrinks [OF example_good example_calculate(1), of 2] in
      \<open>simp_all add: example_managed_ixs\<close>)


theorem scaling_index_replicas_allowed_witness:
  "\<exists>ix \<in> set (map snd example_managed). allowed_change example_scaling ix (example_ix ''a'' 1 1)"
  by (rule scaling_index_replicas_allowed [OF example_good example_calculate(1)]) simp

theorem scaling_order_independent_witness:
  "\<exists>a b. calculateScalingOperation (\<lambda>_. 0) id rev (example_spec 4) example_managed [] UP = Ok a \<and>
    calculateScalingOperation (\<lambda>_. 0) rev id (example_spec 4) example_managed [] UP = Ok b \<and>
    same_operation a b"
proof (rule scaling_order_independent [where sc = example_scaling and cur = 4])
  show "\<not> mixed example_scaling (map snd example_managed)" by code_simp
qed (auto simp: example_spec_def)

section \<open>Where the order matters, and where a change is lost\<close>

definition mixed_managed :: "(string \<times> es_index) list" where
  "mixed_managed = [(''a'', example_ix ''a'' 1 0), (''b'', example_ix ''b'' 1 4)]"

lemma mixed_good_cluster:
  "good_cluster example_scaling [example_ix ''a'' 1 0, example_ix ''b'' 1 4] 4"
  "good_cluster example_scaling [example_ix ''b'' 1 4, example_ix ''a'' 1 0] 4"
  by code_simp+

lemma mixed_not_exceeds:
  "\<not> exceeds example_scaling [example_ix ''a'' 1 0, example_ix ''b'' 1 4] 4"
  "\<not> exceeds example_scaling [example_ix ''b'' 1 4, example_ix ''a'' 1 0] 4"
  by code_simp+

lemma mixed_fixes:
  "fixes_of example_scaling [example_ix ''a'' 1 0, example_ix ''b'' 1 4] =
     [example_ix ''a'' 1 1, example_ix ''b'' 1 3]"
  "fixes_of example_scaling [example_ix ''b'' 1 4, example_ix ''a'' 1 0] =
     [example_ix ''b'' 1 3, example_ix ''a'' 1 1]"
  "fix_direction example_scaling [example_ix ''a'' 1 0, example_ix ''b'' 1 4] = DOWN"
  "fix_direction example_scaling [example_ix ''b'' 1 4, example_ix ''a'' 1 0] = UP"
  by code_simp+

text \<open>
  With an index below minIndexReplicas and one above maxIndexReplicas the direction is the
  one of the index the map iteration happens to see last. On a node above the disk watermark one
  order then refuses the operation that the other order returns.
\<close>

theorem scaling_order_matters:
  "(\<exists>op. calculateScalingOperation cv id id (example_spec 4) mixed_managed [] hint = Ok op \<and>
      so_direction op = DOWN) \<and>
   (\<exists>op. calculateScalingOperation cv rev id (example_spec 4) mixed_managed [] hint = Ok op \<and>
      so_direction op = UP) \<and>
   calculateScalingOperation cv id id (example_spec 4) mixed_managed
     [\<lparr>nn_ip = ''10.0.0.1'', nn_disk_used_percent = Fin 90\<rparr>] hint =
       Ok (noopScalingOperation DiskUsageTooHigh) \<and>
   (\<exists>op. calculateScalingOperation cv rev id (example_spec 4) mixed_managed
     [\<lparr>nn_ip = ''10.0.0.1'', nn_disk_used_percent = Fin 90\<rparr>] hint = Ok op \<and>
       so_index_replicas op \<noteq> [])"
proof -
  have d: "flt (Fin 80) (getMaxDiskUsage [\<lparr>nn_ip = ''10.0.0.1'', nn_disk_used_percent = Fin 90\<rparr>])"
    by (simp add: getMaxDiskUsage_def fmax_def is_nan_def is_zero_def)
  note b = scaleUpOrDown_branches(2) [OF mixed_good_cluster(1) mixed_not_exceeds(1), of cv _ hint]
    scaleUpOrDown_branches(2) [OF mixed_good_cluster(2) mixed_not_exceeds(2), of cv _ hint]
  show ?thesis
    using d example_disk
    by (simp add: calculateScalingOperation_def mixed_managed_def example_spec_def b mixed_fixes Let_def)
      (simp add: example_scaling_def i50_def)
qed

text \<open>
  A scale-down by index replicas at the minimum number of nodes has direction NONE although
  it carries index changes: the node count cannot shrink, and the direction only looks at the
  node count.
\<close>

theorem index_decrease_without_direction:
  "\<exists>op. calculateScalingOperation cv id id (example_spec 2) example_managed [] DOWN = Ok op \<and>
     so_direction op = NONE \<and> so_node_replicas op = Some 2 \<and>
     so_index_replicas op = [example_ix ''a'' 1 1]"
proof -
  have g: "good_cluster example_scaling [example_ix ''a'' 1 2] 2" by code_simp
  have n: "\<not> exceeds example_scaling [example_ix ''a'' 1 2] 2" by code_simp
  have r: "calculateNodesWithSameShardToNodeRatio cv 2 3 2 = 2"
    using same_ratio_nodes_result [of 2 2 3 cv] by (simp add: same_ratio_nodes_def ceil_quot_def flip: sint32_eq_iff)
  have "scaleUpOrDown cv example_scaling [example_ix ''a'' 1 2] [example_ix ''a'' 1 2] DOWN 2 =
     node_operation 2 2 [example_ix ''a'' 1 1] (KeepingRatioDecreasingReplicas (shardToNodeRatio 3 2))"
    using scaleUpOrDown_branches(3) [OF g n example_no_fixes, of cv "[example_ix ''a'' 1 2]" DOWN]
      scale_down_branches(1) [OF g refl, of cv]
    by (simp add: example_word_shards lowerable_def lower_indices_eq)
      (simp add: example_ix_def example_scaling_def r ensureBoundsNodeReplicas_def)
  then show ?thesis
    by (simp add: calculateScalingOperation_def example_managed_def example_spec_def Let_def)
      (simp add: example_scaling_def)
qed

end
