(* ===== verification/ScaleDownFindings.thy ===== *)
theory ScaleDownFindings
  imports EdsExamples
begin

text \<open>
  Runs of a scale-down in which a pod with data is removed although nothing was drained, and one
  in which the stored scaling operation is applied twice.
\<close>

section \<open>The desired replicas are raised during a scale-down\<close>

definition changing_world :: world where
  "changing_world = scale_down_world
     \<lparr>w_get_eds := \<lambda>tr _ _. Inr (example_eds (Some (if tr = [] then 2 else 5)) None)\<rparr>"

definition aborted_run :: "(error, unit) outcome \<times> trace" where
  "aborted_run = rescaleStatefulSet ask_once (example_sts 3) (GetResource example_env (example_eds None None)) changing_world []"

text \<open>
  When more replicas are desired by the time the pods are drained, the drain is aborted as the
  log says, but it is aborted without an error: the StatefulSet is still scaled down from 3 to 2
  although no shard has been moved off the pod that Kubernetes now removes.
\<close>

theorem aborted_scale_down_still_removes:
  "case aborted_run of (r, tr) \<Rightarrow>
   r = Ok () \<and> map written_replicas (sts_writes tr) = [Some 2] \<and>
   list_all (\<lambda>e. \<not> is_poll e) tr"
  unfolding aborted_run_def example_env_def reference_retry_def by code_simp

section \<open>A pod is missing\<close>

definition gap_pods :: "pod list" where
  "gap_pods = [pod_of ''eds-0'' ''10.0.0.1'', pod_of ''eds-2'' ''10.0.0.3'']"

definition gap_world :: world where
  "gap_world = scale_down_world\<lparr>w_list_pods := \<lambda>_ _ _. Inr gap_pods\<rparr>"

definition gap_run :: "(error, unit) outcome \<times> trace" where
  "gap_run = rescaleStatefulSet ask_once (example_sts 3) (GetResource example_env (example_eds None None)) gap_world []"

text \<open>
  The pods to drain are found by their position in the list and not by their ordinal: with the
  pods 0 and 2 of three, scaling down to 2 removes the pod 2 without draining it.
\<close>

theorem gap_removes_undrained_pod:
  "case gap_run of (r, tr) \<Rightarrow>
   r = Ok () \<and> map written_replicas (sts_writes tr) = [Some 2] \<and>
   list_all (\<lambda>e. \<not> is_poll e) tr \<and> map ordinal_of gap_pods = [0, 2]"
  unfolding gap_run_def example_env_def reference_retry_def by code_simp

section \<open>An operation applied twice\<close>

definition stored_op :: scaling_operation where
  "stored_op = \<lparr>so_direction = DOWN, so_node_replicas = Some 2,
     so_index_replicas = [\<lparr>ix_index = ''a'', ix_primaries = 1, ix_replicas = 1\<rparr>], so_description = NothingToDo\<rparr>"

definition op_env :: eds_env where
  "op_env = example_env\<lparr>en_json := no_texts\<lparr>jt_read := \<lambda>_. Some (operation_value (\<lambda>_. '''') stored_op)\<rparr>\<rparr>"

fun is_replica_put :: "event \<Rightarrow> bool" where
  "is_replica_put (PutReplicas i n a) = True"
| "is_replica_put _ = False"

definition annotated_world :: world where
  "annotated_world = scale_down_world
     \<lparr>w_get_eds := \<lambda>tr _ _. Inr (example_eds (Some 2)
        (if list_ex is_eds_update tr then Some [] else Some [(es_scaling_operation_key, ''op'')])),
      w_list_nodes := \<lambda>_. Inr [\<lparr>nd_name = ''n0'', nd_labels = Some [(''a'', ''b'')], nd_unschedulable = False\<rparr>]\<rparr>"

definition applied_run :: "(error, unit) outcome \<times> trace" where
  "applied_run = operatePods ask_once None (example_sts 3) (GetResource op_env (example_eds None None)) annotated_world []"

text \<open>
  A scale-down applies the stored operation before the pods are removed and takes the
  annotation away; the hook at the end then works on the copy fetched at the start, still sees the
  annotation, sends the index settings again and updates the data set with the outdated copy.
\<close>

theorem operation_applied_twice:
  "case applied_run of (r, tr) \<Rightarrow>
   r = Ok () \<and> length (filter is_replica_put tr) = 2 \<and>
   length (filter is_eds_update tr) = 2"
  unfolding applied_run_def op_env_def example_env_def reference_retry_def by code_simp

end
