(* ===== verification/ControllerExamples.thy ===== *)
theory ControllerExamples
  imports ControllerProps CollectProps ScalingExamples ScaleDownFindings
begin

text \<open>
  A data set that is scaled: instances of the facts on validation, the desired replicas and the
  stored operation, and a run that ends in a panic.
\<close>

section \<open>Settings\<close>

theorem validated_settings_witness:
  "(validateScalingSettings (Some example_scaling) = Ok () \<longleftrightarrow>
    good_settings example_scaling \<and>
    sint (sc_min_index_replicas example_scaling) + 1 \<le> sint (sc_min_replicas example_scaling) \<and>
    sint (sc_max_index_replicas example_scaling) + 1 \<le> sint (sc_max_replicas example_scaling))"
  by (rule validated_settings) (simp_all add: example_scaling_def)

lemma example_scaling_valid: "validateScalingSettings (Some example_scaling) = Ok ()"
  by code_simp

definition scaled_eds :: "int32 option \<Rightarrow> gomap \<Rightarrow> eds" where
  "scaled_eds n annotations = (let e = example_eds n annotations
     in e\<lparr>eds_spec := (eds_spec e)\<lparr>sp_scaling := Some example_scaling\<rparr>\<rparr>)"


section \<open>A stored operation\<close>

definition one_text :: "json_value \<Rightarrow> json_texts" where
  "one_text v = \<lparr>jt_read = (\<lambda>_. Some v), jt_write = (\<lambda>_. ''op'')\<rparr>"

definition stored_in :: "gomap \<Rightarrow> eds" where
  "stored_in m = set_annotations m (scaled_eds (Some 3) (Some []))"

theorem stored_operation_applied_witness:
  "applyScalingOperation (one_text (operation_value (\<lambda>_. '''') stored_op)) (stored_in (Some [(es_scaling_operation_key, ''op'')])) =
     io_bind (UpdateIndexSettings (so_index_replicas stored_op))
       (\<lambda>_. removeScalingOperationAnnotation (stored_in (Some [(es_scaling_operation_key, ''op'')])))"
proof -
  let ?jt = "one_text (operation_value (\<lambda>_. '''') stored_op)" and ?e = "scaled_eds (Some 3) (Some [])"
  have "jt_read ?jt (jt_write ?jt (operation_value (\<lambda>_. '''') stored_op)) = Some (operation_value (\<lambda>_. '''') stored_op)"
    by (simp add: one_text_def)
  moreover have "map_set (eds_annotations ?e) es_scaling_operation_key (jt_write ?jt (operation_value (\<lambda>_. '''') stored_op)) =
      Ok (Some [(es_scaling_operation_key, ''op'')])"
    by (simp add: scaled_eds_def example_eds_def Let_def map_set_def one_text_def)
  moreover have "so_direction stored_op \<noteq> NONE" by (simp add: stored_op_def)
  moreover have "wf_map (eds_annotations ?e)"
    by (simp add: scaled_eds_def example_eds_def Let_def wf_map_def map_entries_def)
  ultimately show ?thesis
    unfolding stored_in_def by (rule stored_operation_applied [THEN conjunct1])
qed

definition example_scaling_env :: scaling_env where
  "example_scaling_env =
     \<lparr>sn_json = one_text (operation_value (\<lambda>_. '''') stored_op), sn_describe = (\<lambda>_. ''''), sn_cv32 = (\<lambda>_. 0),
      sn_cv64 = (\<lambda>_. 0), sn_order1 = id, sn_order2 = id, sn_interval = 60000000000\<rparr>"

definition resource_of :: "eds \<Rightarrow> es_resource" where
  "resource_of e = \<lparr>rs_eds = e, rs_metric_set = None, rs_pods = [example_pod]\<rparr>"

theorem pending_operation_kept_witness:
  "scaleEDS example_scaling_env (resource_of (scaled_eds (Some 3) (Some [(es_scaling_operation_key, ''op'')]))) calm_world [] =
   (Ok (), [])"
proof -
  let ?e = "scaled_eds (Some 3) (Some [(es_scaling_operation_key, ''op'')])"
  have "edsScalingOperation (sn_json example_scaling_env) (rs_eds (resource_of ?e)) = Ok (Some (stored (\<lambda>_. '''') stored_op))"
    by (simp add: edsScalingOperation_def scaled_eds_def example_eds_def map_get_def example_scaling_env_def
        one_text_def read_operation_value resource_of_def)
  moreover have "op_direction (stored (\<lambda>_. '''') stored_op) \<noteq> direction_code NONE"
    by (simp add: stored_def stored_op_def)
  moreover have "sp_scaling (eds_spec (rs_eds (resource_of ?e))) = Some example_scaling"
    by (simp add: resource_of_def scaled_eds_def Let_def)
  ultimately show ?thesis
    using pending_operation_kept [of example_scaling_env "resource_of ?e"] example_scaling_valid by simp
qed

section \<open>A calculated operation\<close>

definition lean_pod :: pod where
  "lean_pod = example_pod\<lparr>pod_labels := Some [(es_dataset_label_key, ''eds'')]\<rparr>"

definition lean_world :: world where
  "lean_world = calm_world
     \<lparr>w_indices := \<lambda>_. Response 200 (Some [\<lparr>ri_index = ''a'', ri_primaries = ''1'', ri_replicas = ''0''\<rparr>]),
      w_shards := \<lambda>_. Response 200 (Some [\<lparr>sh_ip = ''10.0.0.1'', sh_index = ''a''\<rparr>]),
      w_list_eds := \<lambda>_ _. Inr [scaled_eds (Some 4) (Some [])], w_list_pods := \<lambda>_ _ _. Inr [lean_pod]\<rparr>"

definition lean_op :: scaling_operation where
  "lean_op = \<lparr>so_direction = UP, so_node_replicas = None, so_index_replicas = [example_ix ''a'' 1 1],
     so_description = FitIndexReplicas\<rparr>"

lemma lean_managed:
  "convert_indices False [\<lparr>ri_index = ''a'', ri_primaries = ''1'', ri_replicas = ''0''\<rparr>] = Ok [example_ix ''a'' 1 0]"
  "getManagedIndices [lean_pod] [example_ix ''a'' 1 0] [\<lparr>sh_ip = ''10.0.0.1'', sh_index = ''a''\<rparr>] =
     [(''a'', example_ix ''a'' 1 0)]"
  by code_simp+

lemma lean_scaling:
  "scaleUpOrDown cv example_scaling [example_ix ''a'' 1 0] ixs NONE 4 = lean_op"
proof -
  have "good_cluster example_scaling [example_ix ''a'' 1 0] 4" "\<not> exceeds example_scaling [example_ix ''a'' 1 0] 4"
    "fixes_of example_scaling [example_ix ''a'' 1 0] = [example_ix ''a'' 1 1]"
    "fix_direction example_scaling [example_ix ''a'' 1 0] = UP"
    by code_simp+
  then show ?thesis using scaleUpOrDown_branches(2) [of example_scaling "[example_ix ''a'' 1 0]" 4 cv ixs NONE]
    by (simp add: lean_op_def)
qed

definition lean_resource :: "gomap \<Rightarrow> es_resource" where
  "lean_resource annotations = (resource_of (scaled_eds (Some 4) annotations))\<lparr>rs_pods := [lean_pod]\<rparr>"

lemma lean_facts [simp]:
  "sp_scaling (eds_spec (rs_eds (lean_resource a))) = Some example_scaling"
  "sp_replicas (eds_spec (rs_eds (lean_resource a))) = Some 4"
  "sp_exclude_system_indices (eds_spec (rs_eds (lean_resource a))) = False"
  "eds_annotations (rs_eds (lean_resource a)) = a"
  "rs_metric_set (lean_resource a) = None" "rs_pods (lean_resource a) = [lean_pod]"
  by (simp_all add: lean_resource_def resource_of_def scaled_eds_def example_eds_def Let_def)

lemma lean_calculated:
  "\<exists>tr. GetScalingOperation example_scaling_env (lean_resource a) lean_world [] = (Ok lean_op, tr) \<and>
     (\<forall>e \<in> set tr. no_eds_update e)"
proof -
  have "calculateScalingOperation (\<lambda>_. 0) id id (eds_spec (rs_eds (lean_resource a))) [(''a'', example_ix ''a'' 1 0)] ns NONE =
      (Ok lean_op :: (error, _) outcome)" for ns
    using lean_scaling [of "\<lambda>_. 0"] by (simp add: calculateScalingOperation_def Let_def) (simp add: lean_op_def)
  then show ?thesis
    by (simp add: GetScalingOperation_def Let_def io_bind_def io_call_def io_lift_def scalingHint_def
        GetIndices_def GetShards_def GetNodes_def decode_def io_return_def lean_world_def calm_world_def
        silent_world_def example_scaling_env_def lean_managed no_eds_update_def
        del: convert_indices.simps)
qed

text \<open>The annotations of the data set decide how the run ends.\<close>

lemma lean_scale:
  assumes "edsScalingOperation (sn_json example_scaling_env) (rs_eds (lean_resource a)) = Ok None"
  shows "\<exists>tr. scaleEDS example_scaling_env (lean_resource a) lean_world [] =
      (case map_set a es_scaling_operation_key ''op'' of
         Ok m \<Rightarrow> (Ok (), tr @ [UpdateEds (set_annotations m (rs_eds (lean_resource a)))
                               (Inr (set_annotations m (rs_eds (lean_resource a))))])
       | Err e \<Rightarrow> (Err e, tr) | Panic \<Rightarrow> (Panic, tr))"
proof -
  obtain tr where tr: "GetScalingOperation example_scaling_env (lean_resource a) lean_world [] = (Ok lean_op, tr)"
      "\<forall>e \<in> set tr. no_eds_update e" using lean_calculated by blast
  have "edsReplicas (rs_eds (lean_resource a)) = Some 4" "sc_enabled example_scaling"
    by (simp_all add: edsReplicas_def example_scaling_def)
  moreover have "set_replicas (Some 4) (rs_eds (lean_resource a)) = rs_eds (lean_resource a)"
    by (simp add: set_replicas_def lean_resource_def resource_of_def scaled_eds_def example_eds_def Let_def)
  moreover have "record_scaling lean_op 4 e = io_return e" for e
    by (simp add: record_scaling_def lean_op_def)
  moreover have "so_direction lean_op \<noteq> NONE" "jt_write (sn_json example_scaling_env) v = ''op''"
    "w_update_eds lean_world t e = Inr e" for v t e
    by (simp_all add: lean_op_def example_scaling_env_def one_text_def lean_world_def calm_world_def silent_world_def)
  moreover have "lean_resource a\<lparr>rs_eds := rs_eds (lean_resource a)\<rparr> = lean_resource a" by simp
  ultimately have "scaleEDS example_scaling_env (lean_resource a) lean_world [] =
      (case map_set a es_scaling_operation_key ''op'' of
         Ok m \<Rightarrow> (Ok (), tr @ [UpdateEds (set_annotations m (rs_eds (lean_resource a)))
                               (Inr (set_annotations m (rs_eds (lean_resource a))))])
       | Err e \<Rightarrow> (Err e, tr) | Panic \<Rightarrow> (Panic, tr))"
    using assms example_scaling_valid
    by (simp add: scaleEDS_def Let_def io_bind_def io_lift_def updateScalingOperation_def tr io_return_def
        io_call_def io_answer_def map_set_def split: option.splits)
  then show ?thesis by blast
qed

text \<open>
  The map of annotations of a data set that has none is nil, and storing the operation in it
  panics, which ends the operator: the first scaling of a data set without annotations.
\<close>

theorem scaling_without_annotations_panics:
  "fst (scaleEDS example_scaling_env (lean_resource None) lean_world []) = Panic"
proof -
  have "edsScalingOperation (sn_json example_scaling_env) (rs_eds (lean_resource None)) = Ok None"
    by (simp add: edsScalingOperation_def map_get_def)
  from lean_scale [OF this] show ?thesis by (auto simp: map_set_def)
qed


end
