(* ===== verification/Metrics.thy ===== *)
theory Metrics
  imports Controller
begin

text \<open>
  operator/metrics_collector.go: the CPU usage of the pods of a data set, its median, and the
  metric set in which the samples are stored; and one round of the collector loop of
  operator/elasticsearch.go. Quantities are read in thousandths, as the code does.
\<close>

section \<open>CPU usage\<close>

text \<open>Go's division of integers truncates towards zero; the divisor is not zero where the code divides.\<close>

definition div64 :: "int64 \<Rightarrow> int64 \<Rightarrow> int64" where
  "div64 a b = word_of_int (sgn (sint a) * sgn (sint b) * (\<bar>sint a\<bar> div \<bar>sint b\<bar>))"

definition usage_percent :: "int64 \<Rightarrow> int64 \<Rightarrow> int32" where
  "usage_percent usageCPU requestedCPU = to_int32 (div64 (100 * usageCPU) requestedCPU)"

definition container_requests :: "pod \<Rightarrow> (string \<times> int64) list" where
  "container_requests p =
     foldl (\<lambda>m c. AList.update (ct_name c) (ct_cpu_request_milli c) m) [] (pod_containers p)"

definition pod_resources :: "pod list \<Rightarrow> (string \<times> (string \<times> int64) list) list" where
  "pod_resources pods = foldl (\<lambda>m p. AList.update (pod_name p) (container_requests p) m) [] pods"

definition pod_max_step :: "(string \<times> int64) list \<Rightarrow> int32 \<Rightarrow> string \<times> int64 \<Rightarrow> int32" where
  "pod_max_step containerResources podMax container =
     (case map_of containerResources (fst container) of
        None \<Rightarrow> podMax
      | Some requestedCPU \<Rightarrow>
          if 0 < sint requestedCPU
          then (let usagePcnt = usage_percent (snd container) requestedCPU
                in if sint podMax < sint usagePcnt then usagePcnt else podMax)
          else podMax)"

fun cpu_usage :: "(string \<times> (string \<times> int64) list) list \<Rightarrow> (string \<times> (string \<times> int64) list) list \<Rightarrow> int32 list" where
  "cpu_usage podResources [] = []"
| "cpu_usage podResources ((name, containers) # metrics) =
     (case map_of podResources name of
        None \<Rightarrow> cpu_usage podResources metrics
      | Some containerResources \<Rightarrow>
          foldl (pod_max_step containerResources) 0 containers # cpu_usage podResources metrics)"

definition getCPUUsagePercent :: "(string \<times> (string \<times> int64) list) list \<Rightarrow> pod list \<Rightarrow> int32 list" where
  "getCPUUsagePercent metrics pods = cpu_usage (pod_resources pods) metrics"

text \<open>With an even number of samples the lower one; without samples the index is out of range.\<close>

definition calculateMedian :: "int32 list \<Rightarrow> ('e, int32) outcome" where
  "calculateMedian cpuMetrics =
     (let sorted = sort_slice (\<lambda>a b. sint a < sint b) cpuMetrics
      in if cpuMetrics = [] then Panic else Ok (sorted ! ((length cpuMetrics - 1) div 2)))"

section \<open>The metric set\<close>

definition new_metric_set :: "eds \<Rightarrow> metric \<Rightarrow> metric_set" where
  "new_metric_set e currentValue =
     \<lparr>ms_meta = \<lparr>om_name = eds_name e, om_namespace = eds_namespace e, om_uid = '''', om_generation = 0,
        om_labels = om_labels (eds_meta e), om_annotations = None,
        om_owners = [\<lparr>or_api_version = eds_api_version e, or_kind = eds_kind e, or_name = eds_name e,
                      or_uid = om_uid (eds_meta e)\<rparr>]\<rparr>,
      ms_metrics = [currentValue]\<rparr>"

definition retention :: "(f64 \<Rightarrow> int64) \<Rightarrow> eds_scaling \<Rightarrow> duration" where
  "retention cv sc =
     f64_to_int64 cv (fmax (f64_of_int (sint (sc_down_threshold_seconds sc)))
                           (f64_of_int (sint (sc_up_threshold_seconds sc)))) * 1000000000"

definition keep_recent :: "time \<Rightarrow> metric list \<Rightarrow> metric list" where
  "keep_recent oldestTimestamp ms = filter (\<lambda>m. \<not> mt_timestamp m < oldestTimestamp) ms"

definition storeMedian :: "(f64 \<Rightarrow> int64) \<Rightarrow> es_resource \<Rightarrow> int32 \<Rightarrow> unit io" where
  "storeMedian cv es i =
     io_bind (io_call w_now Now) (\<lambda>stamp.
     let currentValue = \<lparr>mt_timestamp = stamp, mt_value = i\<rparr>
     in case rs_metric_set es of
          None \<Rightarrow>
            (let ms = new_metric_set (rs_eds es) currentValue
             in io_bind (io_call (\<lambda>w tr. w_create_metric_set w tr ms) (CreateMetricSet ms)) io_answer)
        | Some old \<Rightarrow>
            io_bind (io_lift (deref (sp_scaling (eds_spec (rs_eds es))))) (\<lambda>sc.
            io_bind (io_call w_now Now) (\<lambda>now.
              let oldestTimestamp = now + sint (- retention cv sc);
                  ms = old\<lparr>ms_metrics := keep_recent oldestTimestamp (ms_metrics old) @ [currentValue]\<rparr>
              in io_bind (io_call (\<lambda>w tr. w_update_metric_set w tr ms) (UpdateMetricSet ms)) io_answer)))"

definition collectMetrics :: "(f64 \<Rightarrow> int64) \<Rightarrow> es_resource \<Rightarrow> unit io" where
  "collectMetrics cv es =
     io_bind (io_call (\<lambda>w tr. w_list_pod_metrics w tr (eds_namespace (rs_eds es)))
                (ListPodMetrics (eds_namespace (rs_eds es)))) (\<lambda>r.
     io_bind (io_answer r) (\<lambda>metrics.
       let cpuUsagePercent = getCPUUsagePercent metrics (rs_pods es)
       in if cpuUsagePercent = [] then io_return ()
          else io_bind (io_lift (calculateMedian cpuUsagePercent)) (\<lambda>median. storeMedian cv es median)))"

section \<open>One round of the collector\<close>

fun collect_each :: "(f64 \<Rightarrow> int64) \<Rightarrow> es_resource list \<Rightarrow> unit io" where
  "collect_each cv [] = io_return ()"
| "collect_each cv (es # ess) =
     io_bind (if scaling_enabled es then io_bind (io_try (collectMetrics cv es)) (\<lambda>_. io_return ()) else io_return ())
       (\<lambda>_. collect_each cv ess)"

definition metrics_round ::
  "operator_config \<Rightarrow> (f64 \<Rightarrow> int64) \<Rightarrow> (pod \<Rightarrow> resources \<Rightarrow> resources) \<Rightarrow> (resources \<Rightarrow> es_resource list) \<Rightarrow> unit io" where
  "metrics_round oc cv order visit =
     io_bind (io_try (collectResources oc order)) (\<lambda>r.
       case r of Inl _ \<Rightarrow> io_return () | Inr resources \<Rightarrow> collect_each cv (visit resources))"

end
