(* ===== verification/MetricsProps.thy ===== *)
theory MetricsProps
  imports Metrics HintProps EsClientProps
begin

text \<open>
  What the metrics collector computes and stores: the lower median, the largest usage of a
  container per pod, and a metric set that keeps the samples of the threshold period in order.
\<close>

section \<open>The median\<close>

lemma strict_weak_sint: "strict_weak (\<lambda>a b. sint a < sint (b :: int32))"
  by (rule strict_weak_key)

lemma sorted_nth_counts:
  assumes "sorted (map f ys)" "k < length ys"
  shows "k < length (filter (\<lambda>y. f y \<le> (f (ys ! k) :: 'b::linorder)) ys)"
    and "length ys - k \<le> length (filter (\<lambda>y. f (ys ! k) \<le> f y) ys)"
proof -
  have "f (ys ! i) \<le> f (ys ! k)" if "i \<le> k" for i
    using sorted_nth_mono [OF assms(1) that] that assms(2) by simp
  then have "filter (\<lambda>y. f y \<le> f (ys ! k)) (take (Suc k) ys) = take (Suc k) ys"
    using assms(2) by (auto simp: filter_id_conv in_set_conv_nth)
  then have "length (filter (\<lambda>y. f y \<le> f (ys ! k)) ys) =
      Suc k + length (filter (\<lambda>y. f y \<le> f (ys ! k)) (drop (Suc k) ys))"
    using assms(2) filter_append [of "\<lambda>y. f y \<le> f (ys ! k)" "take (Suc k) ys" "drop (Suc k) ys"] by simp
  then show "k < length (filter (\<lambda>y. f y \<le> f (ys ! k)) ys)" by simp
  have "f (ys ! k) \<le> f (ys ! (k + i))" if "k + i < length ys" for i
    using sorted_nth_mono [OF assms(1), of k "k + i"] that by simp
  then have "filter (\<lambda>y. f (ys ! k) \<le> f y) (drop k ys) = drop k ys"
    using assms(2) by (auto simp: filter_id_conv in_set_conv_nth)
  then have "length (filter (\<lambda>y. f (ys ! k) \<le> f y) ys) =
      length (filter (\<lambda>y. f (ys ! k) \<le> f y) (take k ys)) + (length ys - k)"
    using filter_append [of "\<lambda>y. f (ys ! k) \<le> f y" "take k ys" "drop k ys"] by simp
  then show "length ys - k \<le> length (filter (\<lambda>y. f (ys ! k) \<le> f y) ys)" by simp
qed

lemma sorted_samples:
  fixes xs :: "int32 list"
  defines "ys \<equiv> sort_slice (\<lambda>a b. sint a < sint b) xs"
  shows "sorted (map sint ys)" "mset ys = mset xs" "length ys = length xs"
proof -
  have "sorted_wrt (\<lambda>x y. \<not> sint y < sint x) ys"
    using go_sort.sorted_srt [OF strict_weak_sint, of xs] by (simp add: slice_sorted_def ys_def)
  then show "sorted (map sint ys)"
    by (simp add: sorted_wrt_map sorted_wrt_mono_rel [of _ "\<lambda>x y. \<not> sint y < sint x"] not_less)
  show "mset ys = mset xs" "length ys = length xs"
    by (simp_all add: ys_def go_sort.mset_srt go_sort.length_srt)
qed

lemma median_place: "0 < n \<Longrightarrow> (n - 1) div 2 < n \<and> n \<le> 2 * ((n - 1) div 2 + 1) \<and> n < 2 * (n - (n - 1) div 2)" for n :: nat
  by auto

lemma count_filter_mset: "mset xs = mset ys \<Longrightarrow> length (filter P xs) = length (filter P ys)"
  by (metis mset_filter size_mset)

text \<open>
  The median of a non-empty list of samples is one of them, at least half of the samples are
  not above it, and more than half are not below it; on an empty list the code would panic.
\<close>

theorem median_splits_samples:
  "case calculateMedian xs of
     Ok m \<Rightarrow> m \<in> set xs \<and>
       length xs \<le> 2 * length (filter (\<lambda>x. sint x \<le> sint m) xs) \<and>
       length xs < 2 * length (filter (\<lambda>x. sint m \<le> sint x) xs)
   | Err e \<Rightarrow> False
   | Panic \<Rightarrow> xs = []"
proof (cases "xs = []")
  case False
  define ys where "ys = sort_slice (\<lambda>a b. sint a < sint b) xs"
  let ?k = "(length xs - 1) div 2"
  note s = sorted_samples [of xs, folded ys_def]
  note p = median_place [of "length xs"]
  have k: "?k < length ys" using p False s by simp
  have "length xs \<le> 2 * length (filter (\<lambda>x. sint x \<le> sint (ys ! ?k)) ys)"
    "length xs < 2 * length (filter (\<lambda>x. sint (ys ! ?k) \<le> sint x) ys)"
    using sorted_nth_counts [OF s(1) k] p False s(3) by auto
  moreover have "ys ! ?k \<in> set xs" using k s(2) by (metis nth_mem set_mset_mset)
  ultimately show ?thesis
    using False s(2) by (simp add: calculateMedian_def Let_def ys_def [symmetric] count_filter_mset [OF s(2)])
qed (simp add: calculateMedian_def)

section \<open>CPU usage\<close>

text \<open>The percentage of its request that a container uses, for the containers of a pod that request CPU.\<close>

definition container_percents :: "pod \<Rightarrow> string \<times> int64 \<Rightarrow> int set" where
  "container_percents p x =
     {100 * sint (snd x) div sint (ct_cpu_request_milli c) | c.
        c \<in> set (pod_containers p) \<and> ct_name c = fst x \<and> 0 < sint (ct_cpu_request_milli c)}"

definition pod_percent :: "pod \<Rightarrow> (string \<times> int64) list \<Rightarrow> int" where
  "pod_percent p containers = Max (insert 0 (\<Union>x \<in> set containers. container_percents p x))"

definition pod_named :: "pod list \<Rightarrow> string \<Rightarrow> pod option" where
  "pod_named pods n = find (\<lambda>p. pod_name p = n) pods"

definition plain_usage :: "(string \<times> int64) list \<Rightarrow> bool" where
  "plain_usage containers \<longleftrightarrow> (\<forall>x \<in> set containers. 0 \<le> sint (snd x) \<and> sint (snd x) < 20000000)"

lemma foldl_update_map_of:
  "map_of (foldl (\<lambda>m x. AList.update (key x) (val x) m) m xs) k =
     (case find (\<lambda>x. key x = k) (rev xs) of None \<Rightarrow> map_of m k | Some x \<Rightarrow> Some (val x))"
  by (induction xs rule: rev_induct) (auto simp: update_conv' find_None_iff split: option.splits)

lemma find_key_iff:
  "distinct (map key xs) \<Longrightarrow> find (\<lambda>x. key x = k) xs = Some x \<longleftrightarrow> x \<in> set xs \<and> key x = k"
  by (induction xs) auto

lemma find_distinct_rev:
  "distinct (map key xs) \<Longrightarrow> find (\<lambda>x. key x = k) (rev xs) = find (\<lambda>x. key x = k) xs"
  using find_key_iff [of key xs k] find_key_iff [of key "rev xs" k]
  by (cases "find (\<lambda>x. key x = k) (rev xs)"; cases "find (\<lambda>x. key x = k) xs")
    (auto simp: rev_map [symmetric])

lemma usage_percent_exact:
  assumes "0 \<le> sint u" "sint u < 20000000" "0 < sint r"
  shows "sint (usage_percent u r) = 100 * sint u div sint r"
proof -
  have u: "sint (100 * u) = 100 * sint u"
    using sint64_word_of_int [of "100 * sint u"] assms by simp
  have b: "0 \<le> 100 * sint u div sint r" "100 * sint u div sint r \<le> 100 * sint u"
    using assms zdiv_mono2 [of "100 * sint u" 1 "sint r"] by (simp_all add: pos_imp_zdiv_nonneg_iff)
  have "sgn (sint (100 * u)) * sgn (sint r) * (\<bar>sint (100 * u)\<bar> div \<bar>sint r\<bar>) = 100 * sint u div sint r"
    using assms by (cases "sint u = 0") (simp_all add: u)
  then have "sint (div64 (100 * u) r) = 100 * sint u div sint r"
    unfolding div64_def using b assms(2) by (simp only: sint64_word_of_int)
  then show ?thesis
    unfolding usage_percent_def using b assms(2) by (simp only: sint_to_int32)
qed

lemma Max_insert_Max:
  "finite A \<Longrightarrow> A \<noteq> {} \<Longrightarrow> finite B \<Longrightarrow> Max (insert (Max A) B) = Max (A \<union> (B :: int set))"
  by (cases "B = {}") (simp_all add: Max_Un)

text \<open>The fold over the containers keeps the largest percentage so far.\<close>

lemma pod_max_fold:
  assumes "distinct (map ct_name (pod_containers p))" "plain_usage containers" "0 \<le> sint acc"
  shows "sint (foldl (pod_max_step (container_requests p)) acc containers) =
    Max (insert (sint acc) (\<Union>x \<in> set containers. container_percents p x))"
  using assms(2,3)
proof (induction containers arbitrary: acc)
  case (Cons x containers)
  have fin: "finite (container_percents p y)" for y
    by (rule finite_subset [of _ "(\<lambda>c. 100 * sint (snd y) div sint (ct_cpu_request_milli c)) ` set (pod_containers p)"])
      (auto simp: container_percents_def)
  let ?f = "find (\<lambda>c. ct_name c = fst x) (pod_containers p)"
  have requests: "map_of (container_requests p) (fst x) = map_option ct_cpu_request_milli ?f"
    by (simp add: container_requests_def foldl_update_map_of find_distinct_rev [OF assms(1)] split: option.splits)
  have pc: "container_percents p x = (case ?f of None \<Rightarrow> {}
      | Some c \<Rightarrow> if 0 < sint (ct_cpu_request_milli c) then {100 * sint (snd x) div sint (ct_cpu_request_milli c)} else {})"
    unfolding container_percents_def conj_assoc [symmetric] find_key_iff [OF assms(1), symmetric]
    by (auto split: option.splits)
  have step: "sint (pod_max_step (container_requests p) acc x) = Max (insert (sint acc) (container_percents p x))"
    using Cons.prems usage_percent_exact [of "snd x"]
    by (auto simp: pod_max_step_def requests pc plain_usage_def Let_def split: option.splits)
  have "sint acc \<le> Max (insert (sint acc) (container_percents p x))" by (rule Max_ge) (simp_all add: fin)
  with step have "0 \<le> sint (pod_max_step (container_requests p) acc x)" using Cons.prems(2) by simp
  moreover have "plain_usage containers" using Cons.prems(1) by (simp add: plain_usage_def)
  ultimately have "sint (foldl (pod_max_step (container_requests p)) acc (x # containers)) =
      Max (insert (Max (insert (sint acc) (container_percents p x))) (\<Union>y \<in> set containers. container_percents p y))"
    using Cons.IH step by simp
  also have "\<dots> = Max (insert (sint acc) (container_percents p x) \<union> (\<Union>y \<in> set containers. container_percents p y))"
    by (rule Max_insert_Max) (simp_all add: fin)
  finally show ?case by simp
qed simp

lemma pod_resources_map_of:
  assumes "distinct (map pod_name pods)"
  shows "map_of (pod_resources pods) n = map_option container_requests (pod_named pods n)"
  by (simp add: pod_resources_def pod_named_def foldl_update_map_of find_distinct_rev [OF assms] split: option.splits)

text \<open>
  With distinct names of pods and of their containers, and usages below 20000 cores, the
  collector computes one number for every metric of a known pod, in the order of the metrics: the
  largest percentage of its request that a container of the pod uses, 0 when none requests CPU.
\<close>

theorem cpu_usage_per_pod:
  assumes "distinct (map pod_name pods)" "\<forall>p \<in> set pods. distinct (map ct_name (pod_containers p))"
    and "\<forall>m \<in> set metrics. plain_usage (snd m)"
  shows "map sint (getCPUUsagePercent metrics pods) =
    map (\<lambda>m. pod_percent (the (pod_named pods (fst m))) (snd m))
      (filter (\<lambda>m. pod_named pods (fst m) \<noteq> None) metrics)"
  using assms(3) unfolding getCPUUsagePercent_def
proof (induction metrics)
  case (Cons m metrics)
  obtain n cs where m: "m = (n, cs)" by (cases m)
  show ?case
  proof (cases "pod_named pods n")
    case (Some p)
    then have "p \<in> set pods" by (auto simp: pod_named_def find_Some_iff)
    then have "sint (foldl (pod_max_step (container_requests p)) 0 cs) = pod_percent p cs"
      using pod_max_fold [of p cs 0] assms(2) Cons.prems by (simp add: pod_percent_def m)
    with Cons show ?thesis by (simp add: m pod_resources_map_of [OF assms(1)] Some)
  qed (use Cons in \<open>simp add: m pod_resources_map_of [OF assms(1)]\<close>)
qed simp

section \<open>The metric set\<close>

definition plain_thresholds :: "eds_scaling \<Rightarrow> bool" where
  "plain_thresholds sc \<longleftrightarrow>
     0 \<le> sint (sc_down_threshold_seconds sc) \<and> sint (sc_down_threshold_seconds sc) < 2 ^ 33 \<and>
     0 \<le> sint (sc_up_threshold_seconds sc) \<and> sint (sc_up_threshold_seconds sc) < 2 ^ 33"

definition longest_threshold :: "eds_scaling \<Rightarrow> int" where
  "longest_threshold sc = max (sint (sc_down_threshold_seconds sc)) (sint (sc_up_threshold_seconds sc))"

lemma fmax_ints: "fmax (Fin (of_int a)) (Fin (of_int b)) = Fin (of_int (max a b))"
  by (auto simp: fmax_def is_nan_def is_zero_def max_def)

lemma retention_plain:
  assumes "plain_thresholds sc"
  shows "sint (- retention cv sc) = - 1000000000 * longest_threshold sc"
proof -
  let ?d = "sint (sc_down_threshold_seconds sc)" and ?u = "sint (sc_up_threshold_seconds sc)"
  let ?m = "longest_threshold sc"
  have i: "i50 ?d" "i50 ?u" using assms by (auto simp: plain_thresholds_def i50_def)
  have m: "0 \<le> ?m" "?m < 2 ^ 33" using assms by (auto simp: plain_thresholds_def longest_threshold_def)
  have "retention cv sc = f64_to_int64 cv (Fin (of_int ?m)) * 1000000000"
    by (simp add: retention_def longest_threshold_def i fmax_ints)
  also have "f64_to_int64 cv (Fin (of_int ?m)) = word_of_int ?m"
    using m by (simp add: trunc_rat_def Let_def)
  finally have "- retention cv sc = word_of_int (- 1000000000 * ?m)" by simp
  then show ?thesis using m sint64_word_of_int [of "- 1000000000 * ?m"] by simp
qed

text \<open>The run of the collector, by what it writes.\<close>

fun is_metric_write :: "event \<Rightarrow> bool" where
  "is_metric_write (CreateMetricSet ms a) = True"
| "is_metric_write (UpdateMetricSet ms a) = True"
| "is_metric_write _ = False"

lemma store_median_run:
  assumes "storeMedian cv es v w tr = (r, tr')" "sp_scaling (eds_spec (rs_eds es)) = Some sc"
  shows "case rs_metric_set es of
      None \<Rightarrow> (\<exists>a. tr' = tr @ [Now (w_now w tr),
        CreateMetricSet (new_metric_set (rs_eds es) \<lparr>mt_timestamp = w_now w tr, mt_value = v\<rparr>) a])
    | Some old \<Rightarrow> (\<exists>now a. tr' = tr @ [Now (w_now w tr), Now now,
        UpdateMetricSet (old\<lparr>ms_metrics := keep_recent (now + sint (- retention cv sc)) (ms_metrics old) @
          [\<lparr>mt_timestamp = w_now w tr, mt_value = v\<rparr>]\<rparr>) a])"
  using assms
  by (auto simp: storeMedian_def io_bind_def io_call_def io_lift_def io_answer_def io_return_def io_fail_def Let_def
      split: option.splits sum.splits)

lemma collect_run:
  assumes "collectMetrics cv es w [] = (r, tr)" "e \<in> set tr" "is_metric_write e"
  shows "\<exists>metrics v tr1. tr1 = [ListPodMetrics (eds_namespace (rs_eds es)) (Inr metrics)] \<and>
    calculateMedian (getCPUUsagePercent metrics (rs_pods es)) = (Ok v :: (error, int32) outcome) \<and>
    storeMedian cv es v w tr1 = (r, tr)"
  using assms
  by (auto simp: collectMetrics_def io_bind_def io_call_def io_answer_def io_lift_def io_return_def io_fail_def Let_def
      split: sum.splits if_splits outcome.splits)

text \<open>
  C37. The metric set the collector updates is the one of the data set, with its metadata
  unchanged; it keeps exactly the samples of the longer of the two threshold periods before the
  clock of the update, in their order, and the median of the current usages is added at the end.
\<close>

theorem metric_samples_kept:
  assumes "collectMetrics cv es w [] = (r, tr)" "UpdateMetricSet ms a \<in> set tr"
    and "sp_scaling (eds_spec (rs_eds es)) = Some sc" "plain_thresholds sc"
  shows "\<exists>old metrics v stamp now. rs_metric_set es = Some old \<and> ms_meta ms = ms_meta old \<and>
    tr = [ListPodMetrics (eds_namespace (rs_eds es)) (Inr metrics), Now stamp, Now now, UpdateMetricSet ms a] \<and>
    calculateMedian (getCPUUsagePercent metrics (rs_pods es)) = (Ok v :: (error, int32) outcome) \<and>
    ms_metrics ms =
      filter (\<lambda>m. now - 1000000000 * longest_threshold sc \<le> mt_timestamp m) (ms_metrics old) @
      [\<lparr>mt_timestamp = stamp, mt_value = v\<rparr>]"
proof -
  obtain metrics v where v: "calculateMedian (getCPUUsagePercent metrics (rs_pods es)) = (Ok v :: (error, int32) outcome)"
    and st: "storeMedian cv es v w [ListPodMetrics (eds_namespace (rs_eds es)) (Inr metrics)] = (r, tr)"
    using collect_run [OF assms(1,2)] by auto
  then show ?thesis
    using store_median_run [OF st assms(3)] assms(2) retention_plain [OF assms(4), of cv]
    by (cases "rs_metric_set es") (auto simp: keep_recent_def not_less)
qed

text \<open>Samples in the order of time, none later than the clock can show.\<close>

definition chronological :: "metric list \<Rightarrow> bool" where
  "chronological ms \<longleftrightarrow> sorted (map mt_timestamp ms)"

lemma chronological_add:
  "chronological ms \<Longrightarrow> \<forall>m \<in> set ms. mt_timestamp m \<le> mt_timestamp x \<Longrightarrow>
   chronological (keep_recent t ms @ [x])"
  by (auto simp: chronological_def keep_recent_def sorted_append sorted_filter)

fun written_set :: "event \<Rightarrow> metric_set option" where
  "written_set (CreateMetricSet ms a) = Some ms"
| "written_set (UpdateMetricSet ms a) = Some ms"
| "written_set _ = None"

definition belongs_to :: "eds \<Rightarrow> metric_set \<Rightarrow> bool" where
  "belongs_to e ms \<longleftrightarrow> getOwnerUID (ms_meta ms) = Some (om_uid (eds_meta e))"

definition old_samples :: "es_resource \<Rightarrow> metric list" where
  "old_samples es = (case rs_metric_set es of None \<Rightarrow> [] | Some ms \<Rightarrow> ms_metrics ms)"

lemma written_shape:
  assumes "storeMedian cv es v w [ListPodMetrics ns x] = (r, tr)" "e \<in> set tr" "written_set e = Some ms"
    and "sp_scaling (eds_spec (rs_eds es)) = Some sc"
    and "\<forall>old. rs_metric_set es = Some old \<longrightarrow> belongs_to (rs_eds es) old"
  shows "belongs_to (rs_eds es) ms \<and> (\<exists>t. ms_metrics ms =
    keep_recent t (old_samples es) @ [\<lparr>mt_timestamp = w_now w [ListPodMetrics ns x], mt_value = v\<rparr>])"
proof (cases "rs_metric_set es")
  case None
  then show ?thesis
    using store_median_run [OF assms(1,4)] assms(2,3)
    by (auto simp: old_samples_def keep_recent_def new_metric_set_def belongs_to_def getOwnerUID_def)
next
  case (Some old)
  then obtain now where "ms = old\<lparr>ms_metrics := keep_recent (now + sint (- retention cv sc)) (ms_metrics old) @
      [\<lparr>mt_timestamp = w_now w [ListPodMetrics ns x], mt_value = v\<rparr>]\<rparr>"
    using store_median_run [OF assms(1,4)] assms(2,3) by auto
  with Some assms(5) show ?thesis
    by (simp add: old_samples_def belongs_to_def) blast
qed

text \<open>
  The collector keeps a data set's metric set in shape: when the old set belongs to the data
  set, its samples are in the order of time and the clock is not behind them, then so is the set it
  writes, which is never empty and ends in the fresh sample; and the next collection finds a
  created set again, at the same data set.
\<close>

theorem metric_set_shape:
  assumes "collectMetrics cv es w [] = (r, tr)" "e \<in> set tr" "written_set e = Some ms"
    and "sp_scaling (eds_spec (rs_eds es)) = Some sc"
    and "chronological (old_samples es)" "\<forall>t. \<forall>m \<in> set (old_samples es). mt_timestamp m \<le> w_now w t"
    and "\<forall>old. rs_metric_set es = Some old \<longrightarrow> belongs_to (rs_eds es) old"
  shows "belongs_to (rs_eds es) ms \<and> chronological (ms_metrics ms) \<and>
    (\<exists>t. last (ms_metrics ms) = \<lparr>mt_timestamp = w_now w t, mt_value = mt_value (last (ms_metrics ms))\<rparr> \<and>
       (\<forall>m \<in> set (ms_metrics ms). mt_timestamp m \<le> w_now w t)) \<and>
    (\<forall>rs. map_of rs (om_uid (eds_meta (rs_eds es))) = Some es \<longrightarrow>
       map_of (add_metric_set rs ms) (om_uid (eds_meta (rs_eds es))) = Some (es\<lparr>rs_metric_set := Some ms\<rparr>))"
proof -
  have "is_metric_write e" using assms(3) by (cases e) simp_all
  then obtain v metrics where "storeMedian cv es v w [ListPodMetrics (eds_namespace (rs_eds es)) (Inr metrics)] = (r, tr)"
    using collect_run [OF assms(1,2)] by auto
  from written_shape [OF this assms(2,3,4,7)] obtain t where own: "belongs_to (rs_eds es) ms"
    and ms: "ms_metrics ms = keep_recent t (old_samples es) @
      [\<lparr>mt_timestamp = w_now w [ListPodMetrics (eds_namespace (rs_eds es)) (Inr metrics)], mt_value = v\<rparr>]"
    by blast
  have "chronological (ms_metrics ms)"
    unfolding ms by (rule chronological_add) (use assms(5,6) in auto)
  moreover have "\<forall>m \<in> set (ms_metrics ms). mt_timestamp m \<le> w_now w [ListPodMetrics (eds_namespace (rs_eds es)) (Inr metrics)]"
    using assms(6) by (auto simp: ms keep_recent_def)
  ultimately show ?thesis
    using own by (auto simp: ms belongs_to_def add_metric_set_def update_conv')
qed

end
