(* ===== verification/MetricsExamples.thy ===== *)
theory MetricsExamples
  imports MetricsProps ControllerExamples
begin

text \<open>A data set with two pods whose usage is collected: instances of the collector's theorems.\<close>

definition metered_pod :: "string \<Rightarrow> pod" where
  "metered_pod n = example_pod\<lparr>pod_name := n, pod_labels := Some [(es_dataset_label_key, ''eds'')],
     pod_containers := [\<lparr>ct_name = ''es'', ct_cpu_request_milli = 2000\<rparr>, \<lparr>ct_name = ''log'', ct_cpu_request_milli = 0\<rparr>]\<rparr>"

definition metered_pods :: "pod list" where
  "metered_pods = [metered_pod ''eds-0'', metered_pod ''eds-1'']"

definition usages :: "(string \<times> (string \<times> int64) list) list" where
  "usages = [(''eds-1'', [(''es'', 1500), (''log'', 10)]), (''other'', [(''es'', 5)]), (''eds-0'', [(''log'', 7), (''es'', 2500)])]"

lemma usages_plain:
  "distinct (map pod_name metered_pods)" "\<forall>p \<in> set metered_pods. distinct (map ct_name (pod_containers p))"
  "\<forall>m \<in> set usages. plain_usage (snd m)"
  by (simp_all add: metered_pods_def metered_pod_def usages_def plain_usage_def)

lemma usages_percent: "getCPUUsagePercent usages metered_pods = [75, 125]"
  by code_simp

theorem cpu_usage_per_pod_witness:
  "map (\<lambda>m. pod_percent (the (pod_named metered_pods (fst m))) (snd m))
     (filter (\<lambda>m. pod_named metered_pods (fst m) \<noteq> None) usages) = [75, 125]"
  using cpu_usage_per_pod [OF usages_plain] by (simp add: usages_percent)

definition old_set :: metric_set where
  "old_set = new_metric_set (scaled_eds None None) \<lparr>mt_timestamp = 100000000000, mt_value = 10\<rparr>
     \<lparr>ms_metrics := [\<lparr>mt_timestamp = 100000000000, mt_value = 10\<rparr>, \<lparr>mt_timestamp = 350000000000, mt_value = 20\<rparr>]\<rparr>"

definition metered_world :: world where
  "metered_world = calm_world\<lparr>w_list_pod_metrics := \<lambda>_ _. Inr usages, w_now := \<lambda>_. 400000000000,
     w_list_eds := \<lambda>_ _. Inr [scaled_eds None None], w_list_metric_sets := \<lambda>_ _. Inr [old_set],
     w_list_pods := \<lambda>_ _ _. Inr metered_pods\<rparr>"

definition metered_resource :: es_resource where
  "metered_resource = \<lparr>rs_eds = scaled_eds None None, rs_metric_set = Some old_set, rs_pods = metered_pods\<rparr>"

definition stored_set :: metric_set where
  "stored_set = old_set\<lparr>ms_metrics := [\<lparr>mt_timestamp = 350000000000, mt_value = 20\<rparr>, \<lparr>mt_timestamp = 400000000000, mt_value = 75\<rparr>]\<rparr>"

lemma metered_facts [simp]:
  "sp_scaling (eds_spec (rs_eds metered_resource)) = Some example_scaling"
  "rs_metric_set metered_resource = Some old_set" "rs_pods metered_resource = metered_pods"
  "w_now metered_world t = 400000000000" "w_list_pod_metrics metered_world t n = Inr usages"
  by (simp_all add: metered_resource_def metered_world_def scaled_eds_def example_eds_def Let_def)

lemma metered_thresholds: "plain_thresholds example_scaling" "longest_threshold example_scaling = 150"
  by (simp_all add: plain_thresholds_def longest_threshold_def example_scaling_def)

lemma metered_run:
  "\<exists>r tr a. collectMetrics (\<lambda>_. 0) metered_resource metered_world [] = (r, tr) \<and> UpdateMetricSet stored_set a \<in> set tr"
proof -
  have "calculateMedian [75, 125 :: int32] = (Ok 75 :: (error, int32) outcome)" by code_simp
  moreover have "keep_recent (400000000000 + sint (- retention (\<lambda>_. 0) example_scaling)) (ms_metrics old_set) =
      [\<lparr>mt_timestamp = 350000000000, mt_value = 20\<rparr>]"
    by (simp add: retention_plain [OF metered_thresholds(1)] metered_thresholds(2) keep_recent_def old_set_def)
  ultimately show ?thesis
    by (cases "w_update_metric_set metered_world
          [ListPodMetrics (eds_namespace (rs_eds metered_resource)) (Inr usages), Now 400000000000, Now 400000000000] stored_set")
      (auto simp: collectMetrics_def storeMedian_def io_bind_def io_call_def io_answer_def io_return_def io_lift_def
        io_fail_def Let_def usages_percent stored_set_def)
qed

theorem metric_samples_kept_witness:
  "\<exists>v stamp now. ms_metrics stored_set =
     filter (\<lambda>m. now - 1000000000 * longest_threshold example_scaling \<le> mt_timestamp m) (ms_metrics old_set) @
     [\<lparr>mt_timestamp = stamp, mt_value = v\<rparr>]"
proof -
  obtain r tr a where "collectMetrics (\<lambda>_. 0) metered_resource metered_world [] = (r, tr)" "UpdateMetricSet stored_set a \<in> set tr"
    using metered_run by blast
  from metric_samples_kept [OF this metered_facts(1) metered_thresholds(1)] show ?thesis by auto
qed

theorem metric_set_shape_witness: "belongs_to (rs_eds metered_resource) stored_set \<and> chronological (ms_metrics stored_set)"
proof -
  obtain r tr a where run: "collectMetrics (\<lambda>_. 0) metered_resource metered_world [] = (r, tr)"
    "UpdateMetricSet stored_set a \<in> set tr" using metered_run by blast
  have "chronological (old_samples metered_resource)"
    "\<forall>t. \<forall>m \<in> set (old_samples metered_resource). mt_timestamp m \<le> w_now metered_world t"
    by (simp_all add: old_samples_def old_set_def chronological_def)
  moreover have "\<forall>old. rs_metric_set metered_resource = Some old \<longrightarrow> belongs_to (rs_eds metered_resource) old"
    by (simp add: old_set_def belongs_to_def new_metric_set_def getOwnerUID_def metered_resource_def)
  ultimately show ?thesis
    using metric_set_shape [OF run, of stored_set example_scaling] by simp
qed

end
