(* ===== verification/Watch.thy ===== *)
theory Watch
  imports Controller
begin

text \<open>
  The concurrency of the operator: the handler of data set events (\<open>operateEDS\<close> of
  operator/elasticsearch.go with its table \<open>operating\<close>) and the goroutines running
  \<open>Operator.Run\<close> of operator/operator.go. A goroutine waits at its select, operates, is about
  to send on its done channel, or has returned; the channel is unbuffered, so the send and the
  handler's receive happen together. The handler holds the lock while it waits, and no other
  event is handled meanwhile.
\<close>

section \<open>Goroutines and the operating table\<close>

datatype loop_phase = AtSelect | Operating | Sending | Returned

text \<open>What a goroutine was started with, and whether its context is cancelled.\<close>

record loop =
  lp_eds :: eds
  lp_endpoint :: url
  lp_draining :: draining_config
  lp_interval :: duration
  lp_cancelled :: bool
  lp_phase :: loop_phase

text \<open>An entry of the table holds the cancel function and the channel of one goroutine: its number.\<close>

datatype handler = Idle | Receiving nat eds bool

record controller =
  cn_operating :: "(string \<times> nat) list"
  cn_loops :: "loop list"
  cn_handler :: handler

definition initial_controller :: controller where
  "initial_controller = \<lparr>cn_operating = [], cn_loops = [], cn_handler = Idle\<rparr>"

abbreviation eds_uid :: "eds \<Rightarrow> string" where
  "eds_uid e \<equiv> om_uid (eds_meta e)"

definition update_loop :: "nat \<Rightarrow> (loop \<Rightarrow> loop) \<Rightarrow> controller \<Rightarrow> controller" where
  "update_loop i f c = c\<lparr>cn_loops := (cn_loops c)[i := f (cn_loops c ! i)]\<rparr>"

section \<open>Handling an event\<close>

definition start_loop :: "operator_config \<Rightarrow> eds \<Rightarrow> controller \<Rightarrow> controller" where
  "start_loop oc e c =
     c\<lparr>cn_operating := AList.update (eds_uid e) (length (cn_loops c)) (cn_operating c),
       cn_loops := cn_loops c @
         [\<lparr>lp_eds = e, lp_endpoint = getElasticsearchEndpoint oc e, lp_draining = getDrainingConfig e,
           lp_interval = oc_interval oc, lp_cancelled = False, lp_phase = AtSelect\<rparr>]\<rparr>"

text \<open>What follows the wait for the previous operation.\<close>

definition finish_event :: "operator_config \<Rightarrow> eds \<Rightarrow> bool \<Rightarrow> controller \<Rightarrow> controller" where
  "finish_event oc e deleted c =
     (if deleted then c
      else if \<not> hasOwnership (oc_operator_id oc) e then c
      else start_loop oc e c)\<lparr>cn_handler := Idle\<rparr>"

definition operateEDS :: "operator_config \<Rightarrow> eds \<Rightarrow> bool \<Rightarrow> controller \<Rightarrow> controller" where
  "operateEDS oc eds deleted c =
     (let e = typed eds in
      case map_of (cn_operating c) (eds_uid e) of
        Some i \<Rightarrow> (update_loop i (\<lambda>l. l\<lparr>lp_cancelled := True\<rparr>) c)\<lparr>cn_handler := Receiving i e deleted\<rparr>
      | None \<Rightarrow> finish_event oc e deleted c)"

text \<open>
  The informer's handlers take any object. What is not a data set is only logged: in particular the
  tombstone that stands for a deletion the watch has missed.
\<close>

datatype informer_object = DataSet eds | OtherObject

fun add_event :: "operator_config \<Rightarrow> informer_object \<Rightarrow> controller \<Rightarrow> controller" where
  "add_event oc (DataSet e) c = operateEDS oc e False c"
| "add_event oc OtherObject c = c"

fun update_event :: "operator_config \<Rightarrow> informer_object \<Rightarrow> informer_object \<Rightarrow> controller \<Rightarrow> controller" where
  "update_event oc oldObj (DataSet newEDS) c = operateEDS oc newEDS False c"
| "update_event oc oldObj OtherObject c = c"

fun del_event :: "operator_config \<Rightarrow> informer_object \<Rightarrow> controller \<Rightarrow> controller" where
  "del_event oc (DataSet e) c = operateEDS oc e True c"
| "del_event oc OtherObject c = c"

section \<open>Steps\<close>

definition phase_is :: "loop_phase \<Rightarrow> nat \<Rightarrow> controller \<Rightarrow> bool" where
  "phase_is ph i c \<longleftrightarrow> i < length (cn_loops c) \<and> lp_phase (cn_loops c ! i) = ph"

definition set_phase :: "loop_phase \<Rightarrow> nat \<Rightarrow> controller \<Rightarrow> controller" where
  "set_phase ph i c = update_loop i (\<lambda>l. l\<lparr>lp_phase := ph\<rparr>) c"

text \<open>
  The select takes the timer or the cancelled context, at random when both are ready; an operation
  ends with or without an error, after which the loop goes on.
\<close>

inductive internal_step :: "operator_config \<Rightarrow> controller \<Rightarrow> controller \<Rightarrow> bool" for oc where
  timer: "phase_is AtSelect i c \<Longrightarrow> internal_step oc c (set_phase Operating i c)"
| operated: "phase_is Operating i c \<Longrightarrow> internal_step oc c (set_phase AtSelect i c)"
| done_chosen: "phase_is AtSelect i c \<Longrightarrow> lp_cancelled (cn_loops c ! i) \<Longrightarrow> internal_step oc c (set_phase Sending i c)"
| rendezvous: "cn_handler c = Receiving i e deleted \<Longrightarrow> phase_is Sending i c \<Longrightarrow>
    internal_step oc c (finish_event oc e deleted (set_phase Returned i c))"

text \<open>
  The events that have been delivered, each with the data set and whether it was deleted, and the
  state. Additions and updates are handled alike.
\<close>

inductive runs :: "operator_config \<Rightarrow> (eds \<times> bool) list \<Rightarrow> controller \<Rightarrow> bool" for oc where
  start: "runs oc [] initial_controller"
| event: "runs oc h c \<Longrightarrow> cn_handler c = Idle \<Longrightarrow> runs oc (h @ [(e, deleted)]) (operateEDS oc e deleted c)"
| internal: "runs oc h c \<Longrightarrow> internal_step oc c c' \<Longrightarrow> runs oc h c'"

inductive_cases internal_stepE: "internal_step oc c c'"

end
