(* ===== verification/WatchProps.thy ===== *)
theory WatchProps
  imports Watch
begin

text \<open>
  Invariants of the event handling: at most one goroutine per data set, and exactly those the
  delivered events ask for; and where the handler waits for ever.
\<close>

section \<open>What the events ask for\<close>

definition latest :: "(eds \<times> bool) list \<Rightarrow> string \<Rightarrow> (eds \<times> bool) option" where
  "latest h u = find (\<lambda>x. eds_uid (fst x) = u) (rev h)"

definition wanted :: "operator_config \<Rightarrow> (eds \<times> bool) list \<Rightarrow> string \<Rightarrow> eds option" where
  "wanted oc h u =
     (case latest h u of
        Some (e, False) \<Rightarrow> if hasOwnership (oc_operator_id oc) e then Some (typed e) else None
      | _ \<Rightarrow> None)"

text \<open>The data set that a goroutine which has not returned works on.\<close>

definition running :: "controller \<Rightarrow> string \<Rightarrow> eds option" where
  "running c u =
     (case map_of (cn_operating c) u of
        None \<Rightarrow> None
      | Some i \<Rightarrow> if phase_is Returned i c then None else Some (lp_eds (cn_loops c ! i)))"

lemma latest_snoc: "latest (h @ [(e, d)]) u = (if eds_uid e = u then Some (e, d) else latest h u)"
  by (simp add: latest_def)

lemma typed_uid [simp]: "eds_uid (typed e) = eds_uid e"
  by (simp add: with_type_def)

lemma typed_owned [simp]: "hasOwnership o_id (typed e) = hasOwnership o_id e"
  by (simp add: hasOwnership_def with_type_def)

lemma wanted_snoc:
  "wanted oc (h @ [(e, d)]) u =
     (if eds_uid e = u
      then if \<not> d \<and> hasOwnership (oc_operator_id oc) e then Some (typed e) else None
      else wanted oc h u)"
  by (auto simp: wanted_def latest_snoc split: bool.splits)

section \<open>The table of goroutines\<close>

definition well_tabled :: "controller \<Rightarrow> bool" where
  "well_tabled c \<longleftrightarrow>
     (\<forall>u i. map_of (cn_operating c) u = Some i \<longrightarrow> i < length (cn_loops c) \<and> eds_uid (lp_eds (cn_loops c ! i)) = u) \<and>
     (\<forall>i < length (cn_loops c). lp_phase (cn_loops c ! i) \<noteq> Returned \<longrightarrow>
        map_of (cn_operating c) (eds_uid (lp_eds (cn_loops c ! i))) = Some i)"

definition awaited :: "controller \<Rightarrow> nat \<Rightarrow> bool" where
  "awaited c i \<longleftrightarrow> (\<exists>e d. cn_handler c = Receiving i e d)"

definition well_cancelled :: "controller \<Rightarrow> bool" where
  "well_cancelled c \<longleftrightarrow> (\<forall>i < length (cn_loops c).
     (lp_cancelled (cn_loops c ! i) \<longleftrightarrow> lp_phase (cn_loops c ! i) = Returned \<or> awaited c i) \<and>
     (lp_phase (cn_loops c ! i) = Sending \<longrightarrow> awaited c i))"

definition well_received :: "(eds \<times> bool) list \<Rightarrow> controller \<Rightarrow> bool" where
  "well_received h c \<longleftrightarrow> (\<forall>i e d. cn_handler c = Receiving i e d \<longrightarrow>
     map_of (cn_operating c) (eds_uid e) = Some i \<and> lp_cancelled (cn_loops c ! i) \<and>
     (\<exists>h' e0. h = h' @ [(e0, d)] \<and> e = typed e0))"

definition up_to_date :: "operator_config \<Rightarrow> (eds \<times> bool) list \<Rightarrow> controller \<Rightarrow> bool" where
  "up_to_date oc h c \<longleftrightarrow>
     (\<forall>u. (\<forall>i e d. cn_handler c = Receiving i e d \<longrightarrow> u \<noteq> eds_uid e) \<longrightarrow> running c u = wanted oc h u)"

definition watch_inv :: "operator_config \<Rightarrow> (eds \<times> bool) list \<Rightarrow> controller \<Rightarrow> bool" where
  "watch_inv oc h c \<longleftrightarrow> well_tabled c \<and> well_cancelled c \<and> well_received h c \<and> up_to_date oc h c"

lemmas inv_defs = watch_inv_def well_tabled_def well_cancelled_def well_received_def up_to_date_def

lemma update_loop_simps [simp]:
  "cn_operating (update_loop i f c) = cn_operating c" "cn_handler (update_loop i f c) = cn_handler c"
  "length (cn_loops (update_loop i f c)) = length (cn_loops c)"
  "i < length (cn_loops c) \<Longrightarrow> cn_loops (update_loop i f c) ! j = (if j = i then f (cn_loops c ! i) else cn_loops c ! j)"
  by (simp_all add: update_loop_def nth_list_update)

lemma awaited_update_loop [simp]: "awaited (update_loop i f c) j = awaited c j"
  by (simp add: awaited_def)

lemma awaited_simps [simp]:
  "awaited (c\<lparr>cn_handler := Receiving i e d\<rparr>) j = (j = i)" "cn_handler c = Idle \<Longrightarrow> \<not> awaited c j"
  by (auto simp: awaited_def)

lemma handler_update [simp]:
  "phase_is ph i (c\<lparr>cn_handler := x\<rparr>) = phase_is ph i c" "running (c\<lparr>cn_handler := x\<rparr>) = running c"
  "well_tabled (c\<lparr>cn_handler := x\<rparr>) = well_tabled c"
  by (simp_all add: phase_is_def running_def well_tabled_def fun_eq_iff split: option.splits)

lemma tabledD:
  "well_tabled c \<Longrightarrow> map_of (cn_operating c) u = Some i \<Longrightarrow>
   i < length (cn_loops c) \<and> eds_uid (lp_eds (cn_loops c ! i)) = u"
  "well_tabled c \<Longrightarrow> i < length (cn_loops c) \<Longrightarrow> lp_phase (cn_loops c ! i) \<noteq> Returned \<Longrightarrow>
   map_of (cn_operating c) (eds_uid (lp_eds (cn_loops c ! i))) = Some i"
  by (simp_all add: well_tabled_def)

lemma start_inv: "watch_inv oc [] initial_controller"
  by (simp add: inv_defs initial_controller_def running_def wanted_def latest_def)

text \<open>A goroutine that moves on without returning keeps the invariant.\<close>

lemma running_set_phase:
  assumes "i < length (cn_loops c)" "ph \<noteq> Returned" "lp_phase (cn_loops c ! i) \<noteq> Returned"
  shows "running (set_phase ph i c) u = running c u"
  using assms by (auto simp: running_def set_phase_def phase_is_def split: option.splits)

lemma set_phase_inv:
  assumes "watch_inv oc h c" "i < length (cn_loops c)" "lp_phase (cn_loops c ! i) \<noteq> Returned" "ph \<noteq> Returned"
    and "ph = Sending \<longrightarrow> lp_cancelled (cn_loops c ! i)"
  shows "watch_inv oc h (set_phase ph i c)"
proof -
  have "well_tabled (set_phase ph i c)" "well_cancelled (set_phase ph i c)" "well_received h (set_phase ph i c)"
    using assms by (auto simp: inv_defs set_phase_def)
  moreover have "up_to_date oc h (set_phase ph i c)"
    using assms(1) by (simp add: watch_inv_def up_to_date_def running_set_phase [OF assms(2,4,3)])
      (simp add: set_phase_def)
  ultimately show ?thesis by (simp add: watch_inv_def)
qed

text \<open>
  Once the goroutine of a data set has returned, finishing the event of that data set gives what
  the events ask for.
\<close>

definition settled :: "operator_config \<Rightarrow> (eds \<times> bool) list \<Rightarrow> string \<Rightarrow> controller \<Rightarrow> bool" where
  "settled oc h u c \<longleftrightarrow> well_tabled c \<and>
     (\<forall>i < length (cn_loops c). (lp_cancelled (cn_loops c ! i) \<longleftrightarrow> lp_phase (cn_loops c ! i) = Returned) \<and>
        lp_phase (cn_loops c ! i) \<noteq> Sending) \<and>
     running c u = None \<and> (\<forall>v. v \<noteq> u \<longrightarrow> running c v = wanted oc h v)"

lemma idle_inv:
  "settled oc h u c \<Longrightarrow> wanted oc h u = None \<Longrightarrow> watch_inv oc h (c\<lparr>cn_handler := Idle\<rparr>)"
  unfolding settled_def watch_inv_def well_cancelled_def well_received_def up_to_date_def
  by (simp, metis)

lemma start_loop_simps [simp]:
  "map_of (cn_operating (start_loop oc e c)) u = (if u = eds_uid e then Some (length (cn_loops c)) else map_of (cn_operating c) u)"
  "length (cn_loops (start_loop oc e c)) = Suc (length (cn_loops c))"
  "i < length (cn_loops c) \<Longrightarrow> cn_loops (start_loop oc e c) ! i = cn_loops c ! i"
  "lp_eds (cn_loops (start_loop oc e c) ! length (cn_loops c)) = e"
  "lp_phase (cn_loops (start_loop oc e c) ! length (cn_loops c)) = AtSelect"
  "\<not> lp_cancelled (cn_loops (start_loop oc e c) ! length (cn_loops c))"
  by (simp_all add: start_loop_def update_conv' nth_append)

lemma returned_loop:
  assumes "well_tabled c" "running c (eds_uid e) = None" "i < length (cn_loops c)"
    and "eds_uid (lp_eds (cn_loops c ! i)) = eds_uid e"
  shows "lp_phase (cn_loops c ! i) = Returned"
  using assms tabledD(2) [OF assms(1,3)] by (auto simp: running_def phase_is_def split: option.splits if_splits)

lemma start_loop_tabled:
  assumes "well_tabled c" "running c (eds_uid e) = None"
  shows "well_tabled (start_loop oc e c)"
  unfolding well_tabled_def
  using tabledD [OF assms(1)] returned_loop [OF assms]
  by (auto simp: less_Suc_eq split: if_splits)

lemma running_start_loop:
  assumes "well_tabled c"
  shows "running (start_loop oc e c) u = (if u = eds_uid e then Some e else running c u)"
  using tabledD(1) [OF assms, of u]
  by (auto simp: running_def phase_is_def split: option.splits)

lemma finish_event_inv:
  assumes "settled oc h (eds_uid e0) c"
  shows "watch_inv oc (h @ [(e0, d)]) (finish_event oc (typed e0) d c)"
proof (cases "\<not> d \<and> hasOwnership (oc_operator_id oc) e0")
  case True
  let ?c = "start_loop oc (typed e0) c"
  have s: "well_tabled ?c" "\<And>u. running ?c u = wanted oc (h @ [(e0, d)]) u"
    using assms True start_loop_tabled [of c "typed e0" oc] running_start_loop [of c oc "typed e0"]
    by (auto simp: settled_def wanted_snoc)
  have "well_cancelled (?c\<lparr>cn_handler := Idle\<rparr>)"
    using assms by (auto simp: settled_def well_cancelled_def less_Suc_eq)
  with s True show ?thesis
    by (auto simp: finish_event_def watch_inv_def well_received_def up_to_date_def)
next
  case False
  then have "settled oc (h @ [(e0, d)]) (eds_uid e0) c" "wanted oc (h @ [(e0, d)]) (eds_uid e0) = None"
    using assms by (auto simp: settled_def wanted_snoc)
  then show ?thesis using idle_inv False by (auto simp: finish_event_def)
qed

lemma inv_settled:
  assumes "watch_inv oc h c" "cn_handler c = Idle" "map_of (cn_operating c) u = None"
  shows "settled oc h u c"
proof -
  have "running c u = None" using assms(3) by (simp add: running_def)
  with assms(1,2) show ?thesis
    by (auto simp: watch_inv_def settled_def well_cancelled_def up_to_date_def awaited_def)
qed

lemma operateEDS_inv:
  assumes "watch_inv oc h c" "cn_handler c = Idle"
  shows "watch_inv oc (h @ [(e0, d)]) (operateEDS oc e0 d c)"
proof (cases "map_of (cn_operating c) (eds_uid e0)")
  case None
  from finish_event_inv [OF inv_settled [OF assms None]] show ?thesis
    by (simp add: operateEDS_def None Let_def)
next
  case (Some i)
  then have i: "i < length (cn_loops c)" using assms(1) by (auto simp: inv_defs)
  let ?c = "(update_loop i (\<lambda>l. l\<lparr>lp_cancelled := True\<rparr>) c)\<lparr>cn_handler := Receiving i (typed e0) d\<rparr>"
  have "running ?c u = running c u" for u
    using i by (auto simp: running_def phase_is_def split: option.splits)
  moreover have "running c u = wanted oc h u" for u
    using assms by (simp add: watch_inv_def up_to_date_def)
  ultimately have "up_to_date oc (h @ [(e0, d)]) ?c"
    unfolding up_to_date_def by (simp add: wanted_snoc)
  moreover have "well_tabled ?c" using assms(1) i by (auto simp: watch_inv_def well_tabled_def)
  moreover have "well_received (h @ [(e0, d)]) ?c" using i Some by (auto simp: well_received_def)
  moreover have "well_cancelled c" using assms(1) by (simp add: watch_inv_def)
  then have "well_cancelled ?c"
    using i assms(2) unfolding well_cancelled_def by simp
  ultimately have "watch_inv oc (h @ [(e0, d)]) ?c" unfolding watch_inv_def by blast
  then show ?thesis unfolding operateEDS_def Let_def typed_uid Some option.case .
qed

lemma rendezvous_inv:
  assumes "watch_inv oc h c" "cn_handler c = Receiving i e d" "phase_is Sending i c"
  shows "watch_inv oc h (finish_event oc e d (set_phase Returned i c))"
proof -
  obtain h' e0 where h: "h = h' @ [(e0, d)]" "e = typed e0" "map_of (cn_operating c) (eds_uid e) = Some i"
    using assms(1,2) by (auto simp: watch_inv_def well_received_def)
  have i: "i < length (cn_loops c)" using assms(3) by (simp add: phase_is_def)
  have run: "running (set_phase Returned i c) u = (if u = eds_uid e then None else running c u)" for u
    using i h(3) tabledD(1) [of c] assms(1)
    by (auto simp: running_def phase_is_def set_phase_def watch_inv_def split: option.splits)
  have aw: "awaited c j \<longleftrightarrow> i = j" for j using assms(2) by (simp add: awaited_def)
  have wc: "well_cancelled c" using assms(1) by (simp add: watch_inv_def)
  have "well_tabled (set_phase Returned i c)"
    using assms(1) i by (auto simp: watch_inv_def well_tabled_def set_phase_def)
  moreover have "(lp_cancelled (cn_loops (set_phase Returned i c) ! j) \<longleftrightarrow>
        lp_phase (cn_loops (set_phase Returned i c) ! j) = Returned) \<and>
      lp_phase (cn_loops (set_phase Returned i c) ! j) \<noteq> Sending"
    if "j < length (cn_loops c)" for j
    using wc [unfolded well_cancelled_def aw, rule_format, OF that] i by (auto simp: set_phase_def)
  moreover have "running (set_phase Returned i c) v = wanted oc h' v" if "v \<noteq> eds_uid e0" for v
    using assms(1,2) h(1,2) that by (simp add: run watch_inv_def up_to_date_def wanted_snoc)
  moreover have "length (cn_loops (set_phase Returned i c)) = length (cn_loops c)" by (simp add: set_phase_def)
  ultimately have "settled oc h' (eds_uid e0) (set_phase Returned i c)"
    unfolding settled_def using h(2) by (simp add: run)
  then show ?thesis using finish_event_inv h by simp
qed

lemma internal_step_inv:
  assumes "internal_step oc c c'" "watch_inv oc h c"
  shows "watch_inv oc h c'"
  using assms
proof cases
  case (rendezvous i e d)
  then show ?thesis using rendezvous_inv assms(2) by simp
qed (auto simp: phase_is_def intro!: set_phase_inv [OF assms(2)])

lemma runs_inv: "runs oc h c \<Longrightarrow> watch_inv oc h c"
  by (induction rule: runs.induct) (auto intro: start_inv operateEDS_inv internal_step_inv)

text \<open>
  C11. However events and goroutines interleave, no two goroutines work on the same data set, and
  the one that works on a data set is the one in the table.
\<close>

theorem one_loop_per_dataset:
  assumes "runs oc h c" "i < length (cn_loops c)" "lp_phase (cn_loops c ! i) \<noteq> Returned"
  shows "map_of (cn_operating c) (eds_uid (lp_eds (cn_loops c ! i))) = Some i \<and>
    (\<forall>j < length (cn_loops c). lp_phase (cn_loops c ! j) \<noteq> Returned \<and>
       eds_uid (lp_eds (cn_loops c ! j)) = eds_uid (lp_eds (cn_loops c ! i)) \<longrightarrow> j = i)"
proof -
  have "well_tabled c" using runs_inv [OF assms(1)] by (simp add: watch_inv_def)
  from tabledD(2) [OF this] assms(2,3) show ?thesis by (metis option.inject)
qed

text \<open>
  C10. Whenever no event is being handled, the data sets that goroutines work on are those whose
  latest event is not a deletion and that the operator owns, in the version of that event, and none
  of these goroutines has been cancelled.
\<close>

theorem loops_follow_events:
  assumes "runs oc h c" "cn_handler c = Idle"
  shows "running c u = wanted oc h u \<and>
    (\<forall>i < length (cn_loops c). lp_phase (cn_loops c ! i) \<noteq> Returned \<longrightarrow> \<not> lp_cancelled (cn_loops c ! i))"
  using runs_inv [OF assms(1)] assms(2)
  by (auto simp: watch_inv_def up_to_date_def well_cancelled_def awaited_def)

section \<open>Waiting for a goroutine\<close>

lemma phase_set_phase [simp]:
  "i < length (cn_loops c) \<Longrightarrow> phase_is ph i (set_phase ph i c)" "cn_handler (set_phase ph i c) = cn_handler c"
  "i < length (cn_loops c) \<Longrightarrow> lp_cancelled (cn_loops (set_phase ph i c) ! j) = lp_cancelled (cn_loops c ! j)"
  by (auto simp: phase_is_def set_phase_def)

lemma phase_is_less: "phase_is ph i c \<Longrightarrow> i < length (cn_loops c)"
  by (simp add: phase_is_def)

lemma reaches_sending:
  assumes "i < length (cn_loops c)" "lp_phase (cn_loops c ! i) \<noteq> Returned" "lp_cancelled (cn_loops c ! i)"
  shows "\<exists>c'. (internal_step oc)\<^sup>*\<^sup>* c c' \<and> cn_handler c' = cn_handler c \<and> phase_is Sending i c'"
proof -
  have at_select: "\<exists>c'. (internal_step oc)\<^sup>*\<^sup>* c c' \<and> cn_handler c' = cn_handler c \<and> phase_is Sending i c'"
    if "phase_is AtSelect i c" "lp_cancelled (cn_loops c ! i)" for c
    using done_chosen [OF that, of oc] phase_is_less [OF that(1)]
    by (intro exI [of _ "set_phase Sending i c"]) auto
  show ?thesis
  proof (cases "lp_phase (cn_loops c ! i)")
    case Operating
    then have ph: "phase_is Operating i c" using assms(1) by (simp add: phase_is_def)
    have "phase_is AtSelect i (set_phase AtSelect i c)" "lp_cancelled (cn_loops (set_phase AtSelect i c) ! i)"
      using assms by simp_all
    from at_select [OF this] obtain c' where "(internal_step oc)\<^sup>*\<^sup>* (set_phase AtSelect i c) c'"
      "cn_handler c' = cn_handler c" "phase_is Sending i c'" by auto
    with operated [OF ph, of oc] show ?thesis by (meson converse_rtranclp_into_rtranclp)
  qed (use assms at_select in \<open>auto simp: phase_is_def\<close>)
qed

lemma runs_internals: "(internal_step oc)\<^sup>*\<^sup>* c c' \<Longrightarrow> runs oc h c \<Longrightarrow> runs oc h c'"
  by (induction rule: rtranclp_induct) (auto intro: runs.internal)

text \<open>
  As long as the goroutine that an event waits for has not returned, the event can be
  finished: the goroutine ends its operation, sees its context cancelled, and the handler receives;
  afterwards the goroutines are again those the events ask for.
\<close>

theorem waiting_can_finish:
  assumes "runs oc h c" "cn_handler c = Receiving i e d" "lp_phase (cn_loops c ! i) \<noteq> Returned"
  shows "\<exists>c'. (internal_step oc)\<^sup>*\<^sup>* c c' \<and> cn_handler c' = Idle \<and> (\<forall>u. running c' u = wanted oc h u)"
proof -
  have "i < length (cn_loops c)" "lp_cancelled (cn_loops c ! i)"
    using runs_inv [OF assms(1)] assms(2) tabledD(1) [of c]
    by (auto simp: watch_inv_def well_received_def)
  from reaches_sending [OF this(1) assms(3) this(2), of oc] assms(2) obtain c1
    where c1: "(internal_step oc)\<^sup>*\<^sup>* c c1" "cn_handler c1 = Receiving i e d" "phase_is Sending i c1" by auto
  let ?c = "finish_event oc e d (set_phase Returned i c1)"
  have reach: "(internal_step oc)\<^sup>*\<^sup>* c ?c" using c1(1) rendezvous [OF c1(2,3)] by (rule rtranclp.rtrancl_into_rtrancl)
  have idle: "cn_handler ?c = Idle" by (simp add: finish_event_def)
  from loops_follow_events [OF runs_internals [OF reach assms(1)] idle] reach idle show ?thesis by blast
qed

section \<open>Waiting for ever\<close>

lemma returned_stays:
  assumes "internal_step oc c c'" "cn_handler c = Receiving i e d" "phase_is Returned i c"
  shows "cn_handler c' = Receiving i e d \<and> phase_is Returned i c'"
  using assms by cases (auto simp: phase_is_def set_phase_def)

lemma blocked_for_ever:
  assumes "(internal_step oc)\<^sup>*\<^sup>* c c'" "cn_handler c = Receiving i e d" "phase_is Returned i c"
  shows "cn_handler c' = Receiving i e d \<and> phase_is Returned i c'"
  using assms by (induction rule: rtranclp_induct) (auto dest: returned_stays)

text \<open>An entry of the table is never removed.\<close>

lemma finish_event_table [simp]:
  "map_of (cn_operating (finish_event oc e d c)) u =
     (if \<not> d \<and> hasOwnership (oc_operator_id oc) e \<and> u = eds_uid e then Some (length (cn_loops c))
      else map_of (cn_operating c) u)"
  by (simp add: finish_event_def)

lemma table_grows:
  "map_of (cn_operating c) u \<noteq> None \<Longrightarrow> map_of (cn_operating (operateEDS oc e d c)) u \<noteq> None"
  by (auto simp: operateEDS_def Let_def split: option.splits)

lemma table_grows_internal:
  "internal_step oc c c' \<Longrightarrow> map_of (cn_operating c) u \<noteq> None \<Longrightarrow> map_of (cn_operating c') u \<noteq> None"
  by (elim internal_stepE) (auto simp: set_phase_def)

definition started :: "operator_config \<Rightarrow> (eds \<times> bool) list \<Rightarrow> string \<Rightarrow> bool" where
  "started oc h u \<longleftrightarrow> (\<exists>e. (e, False) \<in> set h \<and> eds_uid e = u \<and> hasOwnership (oc_operator_id oc) e)"

lemma started_tabled: "runs oc h c \<Longrightarrow> started oc h u \<Longrightarrow> map_of (cn_operating c) u \<noteq> None"
proof (induction arbitrary: u rule: runs.induct)
  case (event h c e d)
  show ?case
  proof (cases "started oc h u")
    case True
    then show ?thesis using event.IH table_grows by blast
  next
    case False
    with event.prems have "eds_uid e = u" "\<not> d" "hasOwnership (oc_operator_id oc) e"
      by (auto simp: started_def)
    then show ?thesis by (auto simp: operateEDS_def Let_def split: option.splits)
  qed
next
  case (internal h c c')
  then show ?case using table_grows_internal by blast
qed (simp add: started_def)

text \<open>
  C32. An entry is never removed from the table: after a data set that was operated on has been
  deleted or given to another operator, the next event of that data set waits, with the lock held,
  for a goroutine that has already returned, and no event of any data set is handled any more.
\<close>

theorem disowned_dataset_blocks:
  assumes "runs oc h c" "cn_handler c = Idle"
    and "started oc h (eds_uid e)" "wanted oc h (eds_uid e) = None"
    and "(internal_step oc)\<^sup>*\<^sup>* (operateEDS oc e d c) c'"
  shows "cn_handler c' \<noteq> Idle \<and> (\<exists>i. phase_is Returned i c' \<and> cn_handler c' = Receiving i (typed e) d)"
proof -
  obtain i where i: "map_of (cn_operating c) (eds_uid e) = Some i" using started_tabled [OF assms(1,3)] by auto
  then have "phase_is Returned i c"
    using loops_follow_events [OF assms(1,2), of "eds_uid e"] assms(4) by (auto simp: running_def split: if_splits)
  then have "phase_is Returned i (operateEDS oc e d c)" "cn_handler (operateEDS oc e d c) = Receiving i (typed e) d"
    using i by (auto simp: operateEDS_def Let_def phase_is_def)
  from blocked_for_ever [OF assms(5) this(2,1)] show ?thesis by auto
qed

end
