(* ===== verification/WatchExamples.thy ===== *)
theory WatchExamples
  imports WatchProps EdsExamples
begin

text \<open>
  A data set that is operated on and then given to another operator: instances of the theorems on
  the event handling.
\<close>

definition our_config :: operator_config where
  "our_config = NewElasticsearchOperator None 10 30 ''us'' '''' ''cluster.local'' None"

definition our_eds :: eds where
  "our_eds = example_eds None (Some [(es_operator_annotation_key, ''us'')])"

definition their_eds :: eds where
  "their_eds = example_eds None (Some [(es_operator_annotation_key, ''them'')])"

definition operating_state :: controller where
  "operating_state = operateEDS our_config our_eds False initial_controller"

definition waiting_state :: controller where
  "waiting_state = operateEDS our_config their_eds False operating_state"

definition stopped_state :: controller where
  "stopped_state = finish_event our_config (typed their_eds) False (set_phase Returned 0 (set_phase Sending 0 waiting_state))"

lemma states:
  "cn_handler initial_controller = Idle" "cn_handler operating_state = Idle"
  "cn_handler waiting_state = Receiving 0 (typed their_eds) False" "cn_handler stopped_state = Idle"
  "length (cn_loops operating_state) = 1" "lp_phase (cn_loops operating_state ! 0) = AtSelect"
  "phase_is AtSelect 0 waiting_state" "lp_cancelled (cn_loops waiting_state ! 0)"
  "phase_is Sending 0 (set_phase Sending 0 waiting_state)"
  by code_simp+

lemma operating_reached: "runs our_config [(our_eds, False)] operating_state"
  using runs.event [OF runs.start states(1)] by (simp add: operating_state_def)

lemma waiting_reached: "runs our_config [(our_eds, False), (their_eds, False)] waiting_state"
  using runs.event [OF operating_reached states(2)] by (simp add: waiting_state_def)

lemma stopped_reached: "runs our_config [(our_eds, False), (their_eds, False)] stopped_state"
proof -
  have "runs our_config [(our_eds, False), (their_eds, False)] (set_phase Sending 0 waiting_state)"
    by (rule runs.internal [OF waiting_reached done_chosen [OF states(7,8)]])
  moreover have "cn_handler (set_phase Sending 0 waiting_state) = Receiving 0 (typed their_eds) False"
    by (simp add: states)
  ultimately show ?thesis
    unfolding stopped_state_def using rendezvous [OF _ states(9)] by (blast intro: runs.internal)
qed

theorem one_loop_per_dataset_witness: "map_of (cn_operating operating_state) ''u1'' = Some 0"
proof -
  have "lp_eds (cn_loops operating_state ! 0) = typed our_eds" by code_simp
  moreover have "eds_uid our_eds = ''u1''" by code_simp
  ultimately show ?thesis
    using one_loop_per_dataset [OF operating_reached, of 0] states(5,6) by simp
qed

theorem loops_follow_events_witness:
  "running operating_state ''u1'' = Some (typed our_eds) \<and> running stopped_state ''u1'' = None"
proof -
  have "wanted our_config [(our_eds, False)] ''u1'' = Some (typed our_eds)"
    "wanted our_config [(our_eds, False), (their_eds, False)] ''u1'' = None"
    by code_simp+
  with loops_follow_events [OF operating_reached states(2)] loops_follow_events [OF stopped_reached states(4)]
  show ?thesis by simp
qed

theorem waiting_can_finish_witness:
  "\<exists>c'. (internal_step our_config)\<^sup>*\<^sup>* waiting_state c' \<and> cn_handler c' = Idle"
  using waiting_can_finish [OF waiting_reached states(3)] states(7) by (auto simp: phase_is_def)

theorem disowned_dataset_blocks_witness:
  "\<exists>i. phase_is Returned i (operateEDS our_config their_eds False stopped_state) \<and>
     cn_handler (operateEDS our_config their_eds False stopped_state) = Receiving i (typed their_eds) False"
proof -
  have "started our_config [(our_eds, False), (their_eds, False)] (eds_uid their_eds)"
    by (rule exI [of _ our_eds, THEN iffD2 [OF started_def]]) code_simp
  moreover have "wanted our_config [(our_eds, False), (their_eds, False)] (eds_uid their_eds) = None" by code_simp
  ultimately show ?thesis
    using disowned_dataset_blocks [OF stopped_reached states(4) _ _ rtranclp.rtrancl_refl] by blast
qed

end
