(* ===== verification/Convergence.thy ===== *)
theory Convergence
  imports EdsResourceProps
begin

text \<open>
  What repeated reconciliations arrive at: with the desired replicas unchanged, successful
  rescalings reach them in a known number of rounds and then stop writing; and a reconciled
  StatefulSet is not written again.
\<close>

section \<open>A successful rescaling\<close>

definition step_writes :: "int32 option \<Rightarrow> statefulset \<Rightarrow> event list \<Rightarrow> bool" where
  "step_writes desired sts ws \<longleftrightarrow>
     (case desired of
        None \<Rightarrow> ws = []
      | Some d \<Rightarrow>
          if d = sts_replicas sts then ws = []
          else \<exists>a. ws = [UpdateSts (sts\<lparr>st_replicas := Some (word_of_int
            (scale_step (sint (sts_replicas sts)) (sint d)))\<rparr>) a])"

context stateful_resources
begin

text \<open>After a successful rescaling: nothing written at the desired replicas, else one step towards them.\<close>

definition stepped :: "statefulset \<Rightarrow> event list \<Rightarrow> trace \<Rightarrow> bool" where
  "stepped sts ws tr \<longleftrightarrow>
     (\<exists>r ws'. good r \<and> fetched r tr \<and> sts_writes tr = ws @ ws' \<and> step_writes (sr_replicas (res r)) sts ws')"

lemma stepped_valid: "emits resource_event m \<Longrightarrow> valid (stepped sts ws) m (\<lambda>_. stepped sts ws) (\<lambda>_. True)"
proof (rule valid_weaken, rule valid_emits)
  fix tr tr' assume "stepped sts ws tr" "adds resource_event tr tr'"
  moreover from this(2) have "sts_writes tr' = sts_writes tr" by (rule sts_writes_resource)
  ultimately show "stepped sts ws tr'"
    using fetched_mono by (auto simp: stepped_def adds_def)
qed auto

lemma rescale_stepped:
  assumes "yields get" "documented_backoff bo"
  shows "valid (\<lambda>tr. sts_writes tr = ws) (rescaleStatefulSet bo sts get) (\<lambda>_. stepped sts ws) (\<lambda>_. True)"
  unfolding rescaleStatefulSet_def Let_def
proof (rule valid_desired [OF assms(1)], goal_cases)
  case (1 r)
  let ?c = "sint (sts_replicas sts)"
  have skip: "unwritten r ws tr \<Longrightarrow> sr_replicas (res r) = None \<or> sr_replicas (res r) = Some (sts_replicas sts) \<Longrightarrow>
      stepped sts ws tr" for tr
    using 1 by (auto simp: unwritten_def stepped_def step_writes_def)
  show ?case
  proof (cases "sr_replicas (res r)")
    case None
    then show ?thesis using skip by (auto intro: valid_return)
  next
    case (Some d)
    let ?n = "scale_step ?c (sint d)"
    let ?sts = "sts\<lparr>st_replicas := Some (word_of_int ?n)\<rparr>"
    have update: "valid (unwritten r ws) (updateStatefulSetReplicas bo sts ?n) (\<lambda>_. stepped sts ws) (\<lambda>_. True)"
      if "d \<noteq> sts_replicas sts"
      unfolding updateStatefulSetReplicas_def Let_def
    proof (rule valid_bind)
      show "valid (unwritten r ws) (io_call (\<lambda>w tr. w_update_sts w tr ?sts) (UpdateSts ?sts)) (\<lambda>_. stepped sts ws) (\<lambda>_. True)"
        using 1 Some that fetched_mono
        by (intro valid_call) (auto simp: stepped_def step_writes_def unwritten_def sts_writes_def)
    qed (intro valid_bind [where R = "\<lambda>_. stepped sts ws"] stepped_valid emits_wrap emits_answer stable_emits assms)
    have weak: "emits resource_event m \<Longrightarrow> valid (unwritten r ws) m (\<lambda>_. unwritten r ws) (\<lambda>_. True)" for m :: "'x io"
      by (rule valid_weaken [OF unwritten_valid]) auto
    have target: "valid (unwritten r ws) (srScaleTarget (res r) ?c (sint d - ?c))
        (\<lambda>n tr. unwritten r ws tr \<and> n = ?n) (\<lambda>_. True)"
      by (rule valid_weaken [OF scale_target_valid [OF 1]]) auto
    have drained: "valid (\<lambda>tr. unwritten r ws tr \<and> n = ?n) (io_bind (listStatefulSetPods sts) (\<lambda>pods.
        io_bind (drainPodsForScaleDown bo sts get pods n (sint d)) (\<lambda>_. updateStatefulSetReplicas bo sts n)))
        (\<lambda>_. stepped sts ws) (\<lambda>_. True)" if "d \<noteq> sts_replicas sts" for n
    proof (cases "n = ?n")
      case True
      show ?thesis
        unfolding True
        by (rule valid_pre [where P = "unwritten r ws"])
          (intro valid_bind [where R = "\<lambda>_. unwritten r ws"] weak list_pods_emits drain_scale_down_emits [OF assms]
            update [OF that], simp)
    qed (simp add: valid_def)
    show ?thesis
    proof (cases "d = sts_replicas sts")
      case True
      then show ?thesis using skip Some by (auto intro: valid_return)
    next
      case False
      then have "sint d - ?c \<noteq> 0" using sint32_eq_iff [of d "sts_replicas sts"] by simp
      then show ?thesis
        unfolding Some by (simp add: valid_bind [OF target drained [OF False]])
    qed
  qed
qed simp

end

section \<open>Rescaling arrives\<close>

fun written_statefulset :: "statefulset \<Rightarrow> event list \<Rightarrow> statefulset" where
  "written_statefulset sts (UpdateSts s a # ws) = s"
| "written_statefulset sts ws = sts"

text \<open>
  One successful rescaling, in a world where every answer about the data set asks for d replicas;
  the StatefulSet of the next round is the one that was written.
\<close>

definition rescale_round :: "backoff \<Rightarrow> eds_env \<Rightarrow> eds \<Rightarrow> int32 \<Rightarrow> world \<Rightarrow> statefulset \<Rightarrow> statefulset \<Rightarrow> bool" where
  "rescale_round bo env e d w sts sts' \<longleftrightarrow>
     (\<exists>tr. rescaleStatefulSet bo sts (GetResource env e) w [] = (Ok (), tr) \<and>
        sts' = written_statefulset sts (sts_writes tr) \<and>
        (\<forall>ns n e0. GetEds ns n (Inr e0) \<in> set tr \<longrightarrow> edsReplicas e0 = Some d))"

lemma round_result:
  assumes "good_env env" "documented_backoff bo" "rescale_round bo env e d w sts sts'"
  shows "sts' = (if d = sts_replicas sts then sts
    else sts\<lparr>st_replicas := Some (word_of_int (scale_step (sint (sts_replicas sts)) (sint d)))\<rparr>)"
proof -
  obtain tr where run: "rescaleStatefulSet bo sts (GetResource env e) w [] = (Ok (), tr)"
    and sts': "sts' = written_statefulset sts (sts_writes tr)"
    and d: "\<And>ns n e0. GetEds ns n (Inr e0) \<in> set tr \<Longrightarrow> edsReplicas e0 = Some d"
    using assms(3) by (auto simp: rescale_round_def)
  have "sets.stepped env sts [] tr"
    by (rule validD_Ok [OF sets.rescale_stepped [OF get_resource_yields [OF assms(1)] assms(2)] _ run])
      (simp add: sts_writes_def)
  then obtain e' where e': "fetched_set e' tr" "step_writes (edsReplicas e') sts (sts_writes tr)"
    by (auto simp: sets.stepped_def eds_resource_def)
  then have "edsReplicas e' = Some d" using d fetched_setE by (metis edsReplicas_with_type)
  with e'(2) show ?thesis by (auto simp: step_writes_def sts' split: if_splits)
qed

lemma round_step:
  assumes "good_env env" "documented_backoff bo" "rescale_round bo env e d w sts sts'"
    and "0 \<le> sint d" "0 \<le> sint (sts_replicas sts)"
  shows "sint (sts_replicas sts') =
    (if sint (sts_replicas sts) < sint d then sint d else max (sint d) (sint (sts_replicas sts) - 1))"
proof (cases "d = sts_replicas sts")
  case True
  then show ?thesis using round_result [OF assms(1-3)] by simp
next
  case False
  then have "sint (sts_replicas sts) \<noteq> sint d" using sint32_eq_iff [of d "sts_replicas sts"] by simp
  moreover have "sint (sts_replicas sts') = sint (word_of_int (scale_step (sint (sts_replicas sts)) (sint d)) :: int32)"
    using round_result [OF assms(1-3)] False by (simp add: sts_replicas_def)
  ultimately show ?thesis using scale_step_word [OF False] assms(4,5) by (auto simp: max_def)
qed

lemma replicas_after:
  assumes "good_env env" "documented_backoff bo"
    and "\<forall>i < n. rescale_round bo env e d (w i) (f i) (f (Suc i))"
    and "0 \<le> sint d" "0 \<le> sint (sts_replicas (f 0))"
  shows "sint (sts_replicas (f n)) =
    (if sint (sts_replicas (f 0)) < sint d then if n = 0 then sint (sts_replicas (f 0)) else sint d
     else max (sint d) (sint (sts_replicas (f 0)) - int n))"
  using assms(3)
proof (induction n)
  case (Suc n)
  then have IH: "sint (sts_replicas (f n)) =
    (if sint (sts_replicas (f 0)) < sint d then if n = 0 then sint (sts_replicas (f 0)) else sint d
     else max (sint d) (sint (sts_replicas (f 0)) - int n))" by simp
  then have "0 \<le> sint (sts_replicas (f n))" using assms(4,5) by auto
  from round_step [OF assms(1,2) _ assms(4) this] Suc.prems IH show ?case
    by (auto simp: max_def split: if_splits)
qed simp

text \<open>
  C30. Successful rescalings towards unchanged desired replicas arrive, upwards in one round and
  downwards after as many rounds as there are replicas too many; on the way the replicas stay
  between where they started and what is desired, and once they have arrived a rescaling leaves the
  StatefulSet as it is.
\<close>

theorem rescaling_arrives:
  assumes "good_env env" "documented_backoff bo"
    and "\<forall>i < n. rescale_round bo env e d (w i) (f i) (f (Suc i))"
    and "0 \<le> sint d" "0 \<le> sint (sts_replicas (f 0))"
  shows "(0 < n \<and> sint (sts_replicas (f 0)) \<le> sint d + int n \<longrightarrow> sts_replicas (f n) = d) \<and>
    min (sint d) (sint (sts_replicas (f 0))) \<le> sint (sts_replicas (f n)) \<and>
    sint (sts_replicas (f n)) \<le> max (sint d) (sint (sts_replicas (f 0))) \<and>
    (sts_replicas (f n) = d \<longrightarrow> (\<forall>w' sts'. rescale_round bo env e d w' (f n) sts' \<longrightarrow> sts' = f n))"
proof (intro conjI)
  show "sts_replicas (f n) = d \<longrightarrow> (\<forall>w' sts'. rescale_round bo env e d w' (f n) sts' \<longrightarrow> sts' = f n)"
    using round_result [OF assms(1,2)] by (metis (full_types))
qed (use replicas_after [OF assms] assms(4,5) in \<open>auto simp: sint32_eq_iff [symmetric] split: if_splits\<close>)

section \<open>Reconciliation settles\<close>

lemma inject_labels_Ok: "\<exists>m'. inject_labels (Some m) kvs = Ok m'"
proof (induction kvs arbitrary: m)
  case (Cons kv kvs)
  then show ?case by (cases kv) (simp add: map_set_def)
qed simp

lemma template_labels_Ok: "\<exists>t. templateInjectLabels template labels = Ok t"
proof -
  obtain m where m: "(case em_labels (pt_meta template) of None \<Rightarrow> Some [] | x \<Rightarrow> x) = Some m"
    by (cases "em_labels (pt_meta template)") auto
  obtain m' where "inject_labels (Some m) (map_entries labels) = Ok m'" using inject_labels_Ok by blast
  with m show ?thesis by (simp add: templateInjectLabels_def)
qed

lemma set_labels_Ok: "(\<exists>l. set_labels m kvs = Ok l) \<longleftrightarrow> kvs = [] \<or> m \<noteq> None"
proof (induction kvs arbitrary: m)
  case (Cons kv kvs)
  then show ?case by (cases kv; cases m) (auto simp: map_set_def)
qed simp

lemma set_labels_None: "set_labels m kvs = Ok l \<Longrightarrow> kvs = [] \<or> l \<noteq> None"
proof (induction kvs arbitrary: m)
  case (Cons kv kvs)
  then show ?case by (cases kv; cases m; cases kvs) (auto simp: map_set_def)
qed simp

text \<open>The API server stores a StatefulSet as it is sent.\<close>

definition keeps_statefulsets :: "world \<Rightarrow> bool" where
  "keeps_statefulsets w \<longleftrightarrow> (\<forall>tr s. w_create_sts w tr s = Inr s \<and> w_update_sts w tr s = Inr s)"

text \<open>A StatefulSet that needs no correction: owned, of the current generation, with labels.\<close>

definition up_to_date_for :: "stateful_resource \<Rightarrow> statefulset \<Rightarrow> bool" where
  "up_to_date_for sr s \<longleftrightarrow>
     isOwnedReference (sr_api_version sr) (sr_kind sr) (sr_uid sr) (sr_name sr) (st_owners s) \<and>
     getSTSParentGeneration s = sr_generation sr \<and> (map_entries (sr_labels sr) = [] \<or> st_labels s \<noteq> None)"

lemma fetch_result:
  assumes "fetch_statefulset sr w tr = (Ok x, tr')"
  shows "case x of None \<Rightarrow> True
    | Some s0 \<Rightarrow> isOwnedReference (sr_api_version sr) (sr_kind sr) (sr_uid sr) (sr_name sr) (st_owners s0)"
  using assms by (auto simp: fetch_statefulset_def io_ok split: sum.splits if_splits option.splits)

lemma generation_of_new: "getSTSParentGeneration (new_statefulset sr) = sr_generation sr"
  using generation_new by simp

lemma result_up_to_date:
  assumes "set_labels m (map_entries (sr_labels sr)) = Ok l"
  shows "up_to_date_for sr (desired_statefulset sr t l (new_statefulset sr))"
    and "isOwnedReference (sr_api_version sr) (sr_kind sr) (sr_uid sr) (sr_name sr) (st_owners s0) \<Longrightarrow>
      up_to_date_for sr (annotate_generation sr (desired_statefulset sr t l s0))"
    and "isOwnedReference (sr_api_version sr) (sr_kind sr) (sr_uid sr) (sr_name sr) (st_owners s0) \<Longrightarrow>
      getSTSParentGeneration s0 = sr_generation sr \<Longrightarrow> up_to_date_for sr (desired_statefulset sr t l s0)"
  unfolding up_to_date_for_def generation_annotated generation_desired generation_of_new
  using set_labels_None [OF assms]
  by (auto simp: desired_statefulset_def new_statefulset_def annotate_generation_def isOwnedReference_def Let_def)

lemma reconcile_result:
  assumes "get w tr = (Ok sr, tr1)" "keeps_statefulsets w" "reconcileStatefulset get w tr = (Ok sts, tr')"
  shows "up_to_date_for sr sts"
proof (cases "fetch_statefulset sr w tr1" rule: result_cases)
  case (Ok x tr2)
  note run = assms(3) [unfolded reconcileStatefulset_def io_bind_def assms(1) prod.case outcome.case Ok]
  show ?thesis
  proof (cases x)
    case None
    then show ?thesis
      using run assms(2) result_up_to_date(1)
      by (auto simp: io_lift_def io_fail_def io_call_def io_answer_def io_return_def keeps_statefulsets_def Let_def
          split: outcome.splits if_splits)
  next
    case (Some s0)
    then show ?thesis
      using run assms(2) fetch_result [OF Ok] result_up_to_date(2,3)
      by (auto simp: io_lift_def io_fail_def io_call_def io_answer_def io_return_def keeps_statefulsets_def Let_def
          split: outcome.splits if_splits)
  qed
qed (use assms in \<open>auto simp: reconcileStatefulset_def io_bind_def\<close>)

lemma reconcile_again:
  assumes "get w tr = (Ok sr, tr1)" "w_get_sts w tr1 (sr_namespace sr) (sr_name sr) = Inr s" "up_to_date_for sr s"
  shows "\<exists>s'. reconcileStatefulset get w tr = (Ok s', tr1 @ [GetSts (sr_namespace sr) (sr_name sr) (Inr s)]) \<and>
    st_replicas s' = st_replicas s"
proof -
  obtain t where t: "templateInjectLabels (sr_pod_template sr) (sr_label_selector sr) = Ok t"
    using template_labels_Ok by blast
  obtain l where l: "set_labels (st_labels s) (map_entries (sr_labels sr)) = Ok l"
    using set_labels_Ok assms(3) unfolding up_to_date_for_def by blast
  from assms(3) have "\<not> getSTSParentGeneration (desired_statefulset sr t l s) \<noteq> sr_generation sr"
    by (simp add: up_to_date_for_def)
  with assms t l show ?thesis
    by (intro exI [of _ "desired_statefulset sr t l s"])
      (simp add: reconcileStatefulset_def fetch_statefulset_def io_bind_def io_call_def io_return_def io_lift_def
        up_to_date_for_def Let_def, simp add: desired_statefulset_def)
qed

text \<open>
  C31. Reconciling twice is reconciling once: when the API server stores what it is sent and the
  data set has not changed, reconciling again after a success succeeds, sends nothing but the two
  requests that read, and gives the StatefulSet with the replicas it has.
\<close>

theorem reconcile_settles:
  assumes "w_get_eds w = (\<lambda>_ _ _. Inr e0)" "keeps_statefulsets w"
    and "reconcileStatefulset (GetResource env e) w tr = (Ok sts, tr')"
    and "w_get_eds w' = (\<lambda>_ _ _. Inr e0)" "w_get_sts w' = (\<lambda>_ _ _. Inr sts)"
  shows "\<exists>sts'. reconcileStatefulset (GetResource env e) w' t =
      (Ok sts', t @ [GetEds (eds_namespace e) (eds_name e) (Inr e0), GetSts (eds_namespace e0) (eds_name e0) (Inr sts)]) \<and>
    st_replicas sts' = st_replicas sts"
proof -
  let ?sr = "eds_resource env (with_type (eds_api_version e) (eds_kind e) e0)"
  have get: "GetResource env e v u = (Ok ?sr, u @ [GetEds (eds_namespace e) (eds_name e) (Inr e0)])"
    if "w_get_eds v = (\<lambda>_ _ _. Inr e0)" for v u
    using that by (simp add: GetResource_def io_bind_def io_call_def io_answer_def io_return_def Let_def)
  have n: "sr_namespace ?sr = eds_namespace e0" "sr_name ?sr = eds_name e0"
    by (simp_all add: eds_resource_def with_type_def)
  have "up_to_date_for ?sr sts" by (rule reconcile_result [OF get [OF assms(1)] assms(2,3)])
  moreover have "w_get_sts w' (t @ [GetEds (eds_namespace e) (eds_name e) (Inr e0)]) (sr_namespace ?sr) (sr_name ?sr) = Inr sts"
    using assms(5) by simp
  ultimately show ?thesis using reconcile_again [of "GetResource env e" w' t, OF get [OF assms(4)]] by (simp add: n)
qed

end
