(* ===== verification/ConvergenceExamples.thy ===== *)
theory ConvergenceExamples
  imports Convergence EdsExamples
begin

text \<open>A scale-down by one and a creation: instances of the facts on repeated reconciliations.\<close>

definition rescale_run :: "(error, unit) outcome \<times> trace" where
  "rescale_run = rescaleStatefulSet ask_once (example_sts 3) (GetResource example_env (example_eds None None)) scale_down_world []"

fun asks_for :: "int32 \<Rightarrow> event \<Rightarrow> bool" where
  "asks_for d (GetEds ns n (Inr e)) = (edsReplicas e = Some d)"
| "asks_for d _ = True"

lemma rescale_result: "case rescale_run of (r, tr) \<Rightarrow> r = Ok () \<and> list_all (asks_for 2) tr"
  unfolding rescale_run_def example_env_def reference_retry_def by code_simp

lemma rescale_example:
  "rescale_round ask_once example_env (example_eds None None) 2 scale_down_world (example_sts 3)
     (written_statefulset (example_sts 3) (sts_writes (snd rescale_run)))"
proof -
  obtain tr where tr: "rescale_run = (Ok (), tr)" "list_all (asks_for 2) tr"
    using rescale_result by (cases rescale_run) auto
  then have "edsReplicas e0 = Some 2" if "GetEds ns n (Inr e0) \<in> set tr" for ns n e0
    using that by (auto simp: list_all_iff)
  with tr show ?thesis by (auto simp: rescale_round_def rescale_run_def)
qed

theorem rescaling_arrives_witness:
  "sts_replicas (written_statefulset (example_sts 3) (sts_writes (snd rescale_run))) = 2"
proof -
  let ?f = "\<lambda>i :: nat. if i = 0 then example_sts 3 else written_statefulset (example_sts 3) (sts_writes (snd rescale_run))"
  have "\<forall>i < 1. rescale_round ask_once example_env (example_eds None None) 2 ((\<lambda>_. scale_down_world) i) (?f i) (?f (Suc i))"
    using rescale_example by simp
  moreover have "sint (sts_replicas (?f 0)) = 3" by (simp add: sts_replicas_def example_sts_def)
  ultimately show ?thesis
    using rescaling_arrives [OF example_env_good ask_once_documented, where f = ?f and n = 1] by simp
qed

lemma creation_Ok: "\<exists>sts tr. creation_run = (Ok sts, tr)"
proof -
  obtain r tr where run: "creation_run = (r, tr)" by (cases creation_run)
  have "case creation_run of (r, tr) \<Rightarrow> (case r of Ok sts \<Rightarrow> True | _ \<Rightarrow> False)"
    unfolding creation_run_def example_env_def reference_retry_def by code_simp
  from this [unfolded run] have "\<exists>sts. r = Ok sts" by (cases r) simp_all
  with run show ?thesis by blast
qed

theorem reconcile_settles_witness:
  "\<exists>sts sts' tr. creation_run = (Ok sts, tr) \<and>
     reconcileStatefulset (GetResource example_env (example_eds None None)) (new_world\<lparr>w_get_sts := \<lambda>_ _ _. Inr sts\<rparr>) [] =
       (Ok sts', [GetEds ''ns'' ''eds'' (Inr (example_eds (Some 2) None)), GetSts ''ns'' ''eds'' (Inr sts)])"
proof -
  obtain sts tr where run: "creation_run = (Ok sts, tr)" using creation_Ok by blast
  have "w_get_eds new_world = (\<lambda>_ _ _. Inr (example_eds (Some 2) None))" "keeps_statefulsets new_world"
    by (simp_all add: new_world_def keeps_statefulsets_def calm_world_def silent_world_def)
  from reconcile_settles [OF this run [unfolded creation_run_def], of "new_world\<lparr>w_get_sts := \<lambda>_ _ _. Inr sts\<rparr>" "[]"] this(1) run
  show ?thesis by (auto simp: example_eds_def)
qed

text \<open>
  A StatefulSet without labels has a nil map of labels; adding those of the data set panics.
\<close>

theorem unlabelled_statefulset_panics:
  "case reconcileStatefulset (GetResource example_env (example_eds None None))
     (new_world\<lparr>w_get_sts := \<lambda>_ _ _. Inr (example_sts 2\<lparr>st_labels := None\<rparr>)\<rparr>) [] of (r, tr) \<Rightarrow> r = Panic"
  unfolding example_env_def reference_retry_def by code_simp

end
