(* ===== verification/LabelSelector.thy ===== *)
theory LabelSelector
  imports EdsTypes GoStrings
begin

text \<open>
  label_selector.go: the command line value of the priority node selector. \<open>Set\<close> writes into the
  map it is called on and keeps what it has written when it fails; the order in which \<open>String\<close>
  sees the map is a parameter.
\<close>

datatype label_error = InvalidSelector

definition label_text :: "string \<times> string \<Rightarrow> string" where
  "label_text kv = fst kv @ ''='' @ snd kv"

definition labels_string :: "((string \<times> string) list \<Rightarrow> (string \<times> string) list) \<Rightarrow> gomap \<Rightarrow> string" where
  "labels_string order l = join_with CHR '','' (map label_text (order (map_entries l)))"

text \<open>The map after the loop, and the result.\<close>

fun set_each :: "string list \<Rightarrow> gomap \<Rightarrow> gomap \<times> (label_error, unit) outcome" where
  "set_each [] l = (l, Ok ())"
| "set_each (labelStr # labelsStrs) l =
     (let kv = split_on CHR ''='' labelStr
      in if length kv < 1 \<or> 2 < length kv then (l, Err InvalidSelector)
         else (let val = if length kv = 2 then kv ! 1 else ''''
               in case map_set l (hd kv) val of
                    Ok l' \<Rightarrow> set_each labelsStrs l'
                  | Err e \<Rightarrow> (l, Err e)
                  | Panic \<Rightarrow> (l, Panic)))"

definition labels_set :: "gomap \<Rightarrow> string \<Rightarrow> gomap \<times> (label_error, unit) outcome" where
  "labels_set l value = set_each (split_on CHR '','' value) l"

definition IsCumulative :: "gomap \<Rightarrow> bool" where
  "IsCumulative l = True"

section \<open>Properties\<close>

definition plain_text :: "string \<Rightarrow> bool" where
  "plain_text s \<longleftrightarrow> CHR '','' \<notin> set s \<and> CHR ''='' \<notin> set s"

definition plain_labels :: "gomap \<Rightarrow> bool" where
  "plain_labels l \<longleftrightarrow> (\<forall>kv \<in> set (map_entries l). plain_text (fst kv) \<and> plain_text (snd kv))"

lemma split_label:
  "plain_text (fst kv) \<Longrightarrow> plain_text (snd kv) \<Longrightarrow> split_on CHR ''='' (label_text kv) = [fst kv, snd kv]"
  by (simp add: label_text_def split_on_append split_on_single plain_text_def)

lemma label_text_plain:
  "plain_text (fst kv) \<Longrightarrow> plain_text (snd kv) \<Longrightarrow> CHR '','' \<notin> set (label_text kv)"
  by (simp add: label_text_def plain_text_def)

lemma set_each_texts:
  assumes "\<forall>kv \<in> set kvs. plain_text (fst kv) \<and> plain_text (snd kv)"
  shows "set_each (map label_text kvs) (Some m) =
    (Some (foldl (\<lambda>m kv. AList.update (fst kv) (snd kv) m) m kvs), Ok ())"
  using assms
  by (induction kvs arbitrary: m) (simp_all add: split_label map_set_def)

lemma foldl_update_distinct:
  "distinct (map fst kvs) \<Longrightarrow>
   map_of (foldl (\<lambda>m kv. AList.update (fst kv) (snd kv) m) m kvs) = map_of m ++ map_of kvs"
proof (induction kvs arbitrary: m)
  case (Cons kv kvs)
  then have "map_of kvs (fst kv) = None" by (simp add: map_of_eq_None_iff)
  with Cons show ?case by (auto simp: update_conv' map_add_def fun_eq_iff split: option.splits)
qed simp

text \<open>
  What is printed for labels without commas and equal signs is read back: setting it adds
  exactly these labels to the ones set before, so that the flag can be given several times. Only
  the empty set of labels is not read back as nothing, but as one empty label.
\<close>

theorem labels_roundtrip:
  assumes "wf_map l" "plain_labels l" "map_entries l \<noteq> []"
    and "\<forall>kvs. mset (order kvs) = mset kvs"
  shows "\<exists>m'. labels_set (Some m) (labels_string order l) = (Some m', Ok ()) \<and>
    map_of m' = map_of m ++ map_of (map_entries l)"
proof -
  let ?kvs = "order (map_entries l)"
  have kvs: "mset ?kvs = mset (map_entries l)" using assms(4) by blast
  then have s: "set ?kvs = set (map_entries l)" by (metis set_mset_mset)
  then have plain: "\<forall>kv \<in> set ?kvs. plain_text (fst kv) \<and> plain_text (snd kv)" "?kvs \<noteq> []"
    using assms(2,3) by (auto simp: plain_labels_def)
  then have "split_on CHR '','' (labels_string order l) = map label_text ?kvs"
    using label_text_plain by (simp add: labels_string_def) (intro split_join; auto)
  moreover have "distinct (map fst ?kvs)"
    using assms(1) kvs mset_eq_imp_distinct_iff [of "map fst ?kvs" "map fst (map_entries l)"]
    by (simp add: wf_map_def)
  moreover from this have "map_of ?kvs = map_of (map_entries l)"
    using assms(1) s by (intro map_of_eqI) (auto simp: wf_map_def map_of_eq_Some_iff)
  ultimately show ?thesis
    using set_each_texts [OF plain(1), of m] foldl_update_distinct [of ?kvs m]
    by (simp add: labels_set_def)
qed

lemma empty_labels_not_read_back: "labels_set (Some []) (labels_string id (Some [])) = (Some [('''', '''')], Ok ())"
  by code_simp

lemma failed_set_keeps_labels:
  "labels_set (Some []) ''master=true,worker=a=b'' = (Some [(''master'', ''true'')], Err InvalidSelector)"
  by code_simp

theorem labels_roundtrip_witness:
  "\<exists>m'. labels_set (Some [(''x'', ''1'')]) (labels_string rev (Some [(''master'', ''true''), (''x'', '''')])) = (Some m', Ok ()) \<and>
    map_of m' = map_of [(''x'', ''1'')] ++ map_of [(''master'', ''true''), (''x'', '''')]"
  using labels_roundtrip [of "Some [(''master'', ''true''), (''x'', '''')]" rev "[(''x'', ''1'')]"]
  by (simp add: wf_map_def map_entries_def plain_labels_def plain_text_def)

end
