(* ===== verification/CrdTrim.thy ===== *)
theory CrdTrim
  imports Prelude GoSort "HOL-Library.AList"
begin

text \<open>
  hack/crd/trim.go: descriptions are removed from a resource definition, the deepest first, until
  its JSON form fits into an annotation. A Go map of the document is identified by the path that
  leads to it from the root, and the entries of a map stand in the order in which a loop sees them;
  the length of a quoted string is a parameter, and so is the sort package: the theorems take any
  sort that keeps the contract slice_sort of GoSort.
\<close>

section \<open>Documents\<close>

text \<open>Numbers, booleans and null are kept as their text.\<close>

datatype json =
    JMap "(string \<times> json) list"
  | JList "json list"
  | JStr string
  | JOther string

datatype path_step = Key string | Item nat

type_synonym path = "path_step list"

definition maxAnnotationSize :: int where
  "maxAnnotationSize = 262144"

text \<open>The length of the JSON text: brackets, commas and colons, and the parts.\<close>

fun json_size :: "(string \<Rightarrow> nat) \<Rightarrow> json \<Rightarrow> nat" where
  "json_size q (JMap kvs) = 2 + (length kvs - 1) + sum_list (map (\<lambda>(k, v). q k + 1 + json_size q v) kvs)"
| "json_size q (JList xs) = 2 + (length xs - 1) + sum_list (map (json_size q) xs)"
| "json_size q (JStr s) = q s"
| "json_size q (JOther t) = length t"

section \<open>Collecting the descriptions\<close>

record crd_description =
  ds_depth :: int
  ds_property :: path
  ds_value :: string

lemma enumerate_member: "(i, x) \<in> set (enumerate n xs) \<Longrightarrow> x \<in> set xs"
  by (simp add: enumerate_eq_zip set_zip_rightD)

lemma json_size_item [termination_simp]: "(i, x) \<in> set (enumerate n xs) \<Longrightarrow> size x < Suc (size_list size xs)"
  using enumerate_member [of i x n xs] size_list_estimation' [of x xs "size x" size] by fastforce

fun collect :: "json \<Rightarrow> int \<Rightarrow> path \<Rightarrow> crd_description list" where
  "collect (JMap kvs) depth p = concat (map (\<lambda>(key, value).
     case value of
       JStr s \<Rightarrow>
         if key = ''description'' then [\<lparr>ds_depth = depth, ds_property = p, ds_value = s\<rparr>] else []
     | _ \<Rightarrow> collect value (depth + 1) (p @ [Key key])) kvs)"
| "collect (JList xs) depth p = concat (map (\<lambda>(i, item). collect item (depth + 1) (p @ [Item i])) (enumerate 0 xs))"
| "collect _ depth p = []"

section \<open>Removing descriptions\<close>

fun delete_at :: "path \<Rightarrow> json \<Rightarrow> json" where
  "delete_at [] (JMap kvs) = JMap (AList.delete ''description'' kvs)"
| "delete_at (Key k # p) (JMap kvs) = JMap (map (\<lambda>(k', v). (k', if k' = k then delete_at p v else v)) kvs)"
| "delete_at (Item i # p) (JList xs) = JList (map (\<lambda>(j, x). if j = i then delete_at p x else x) (enumerate 0 xs))"
| "delete_at p j = j"

definition trim_order :: "crd_description \<Rightarrow> crd_description \<Rightarrow> bool" where
  "trim_order a b \<longleftrightarrow>
     (if ds_depth a = ds_depth b then length (ds_value b) < length (ds_value a)
      else ds_depth b < ds_depth a)"

fun trim_loop :: "crd_description list \<Rightarrow> int \<Rightarrow> json \<Rightarrow> int \<times> json" where
  "trim_loop [] bytes j = (bytes, j)"
| "trim_loop (d # ds) bytes j =
     (if bytes \<le> maxAnnotationSize then (bytes, j)
      else trim_loop ds (bytes - int (length (ds_value d))) (delete_at (ds_property d) j))"

text \<open>None when the program ends with a fatal error.\<close>

definition trim_crd ::
  "((crd_description \<Rightarrow> crd_description \<Rightarrow> bool) \<Rightarrow> crd_description list \<Rightarrow> crd_description list) \<Rightarrow> (string \<Rightarrow> nat) \<Rightarrow>
    json \<Rightarrow> json option" where
  "trim_crd srt q j =
     (let descriptions = srt trim_order (collect j 0 []);
          (bytes, j') = trim_loop descriptions (int (json_size q j)) j
      in if maxAnnotationSize < bytes then None else Some j')"

end
