(* ===== verification/CrdTrimProps.thy ===== *)
theory CrdTrimProps
  imports CrdTrim
begin

text \<open>
  The trimmed resource definition fits into the annotation and differs from the given one in
  descriptions only.
\<close>

section \<open>Well-formed documents\<close>

fun wf_json :: "json \<Rightarrow> bool" where
  "wf_json (JMap kvs) = (distinct (map fst kvs) \<and> (\<forall>kv \<in> set kvs. wf_json (snd kv)))"
| "wf_json (JList xs) = (\<forall>x \<in> set xs. wf_json x)"
| "wf_json j = True"

text \<open>A quoted string is at least as long as the string and its quotes.\<close>

definition quoted :: "(string \<Rightarrow> nat) \<Rightarrow> bool" where
  "quoted q \<longleftrightarrow> (\<forall>s. length s + 2 \<le> q s)"

text \<open>The map at the path has the description s.\<close>

fun described :: "path \<Rightarrow> json \<Rightarrow> string \<Rightarrow> bool" where
  "described [] (JMap kvs) s = ((''description'', JStr s) \<in> set kvs)"
| "described (Key k # p) (JMap kvs) s = (\<exists>v. (k, v) \<in> set kvs \<and> described p v s)"
| "described (Item i # p) (JList xs) s = (i < length xs \<and> described p (xs ! i) s)"
| "described p j s = False"

text \<open>The document without any description.\<close>

definition is_text :: "json \<Rightarrow> bool" where
  "is_text v = (case v of JStr s \<Rightarrow> True | _ \<Rightarrow> False)"

fun bare :: "json \<Rightarrow> json" where
  "bare (JMap kvs) = JMap (map (\<lambda>(k, v). (k, bare v))
     (filter (\<lambda>(k, v). \<not> (k = ''description'' \<and> is_text v)) kvs))"
| "bare (JList xs) = JList (map bare xs)"
| "bare j = j"

lemma described_JStr [simp]: "\<not> described p (JStr t) s"
  by (cases "(p, JStr t, s)" rule: described.cases) auto

lemma delete_at_item: "delete_at (Item i # p) (JList xs) = JList (xs[i := delete_at p (xs ! i)])"
  by (auto intro!: nth_equalityI simp: nth_enumerate_eq nth_list_update)

lemma delete_at_key:
  assumes "distinct (map fst (a @ (k, v) # b))"
  shows "delete_at (Key k # p) (JMap (a @ (k, v) # b)) = JMap (a @ (k, delete_at p v) # b)"
proof -
  have "map (\<lambda>(k', v). (k', if k' = k then delete_at p v else v)) xs = xs" if "k \<notin> fst ` set xs" for xs
    using that by (induction xs) auto
  then show ?thesis using assms by (simp add: image_iff)
qed

lemma delete_description:
  assumes "distinct (map fst (a @ (''description'', v) # b))"
  shows "delete_at [] (JMap (a @ (''description'', v) # b)) = JMap (a @ b)"
proof -
  have "AList.delete k xs = xs" if "k \<notin> fst ` set xs" for k :: string and xs :: "(string \<times> json) list"
    using that by (simp add: delete_id)
  moreover have "AList.delete k (xs @ ys) = AList.delete k xs @ AList.delete k ys" for k and xs ys :: "(string \<times> json) list"
    by (simp add: AList.delete_eq)
  ultimately show ?thesis using assms by (simp add: image_iff)
qed

declare delete_at.simps [simp del]

lemma delete_at_string [simp]: "delete_at p (JStr s) = JStr s"
  by (cases "(p, JStr s)" rule: delete_at.cases) (simp_all add: delete_at.simps)

lemma delete_at_text [simp]: "delete_at p (JOther t) = JOther t"
  by (cases "(p, JOther t)" rule: delete_at.cases) (simp_all add: delete_at.simps)

lemma delete_at_other [simp]:
  "delete_at [] (JList xs) = JList xs" "delete_at (Key k # p) (JList xs) = JList xs"
  "delete_at (Item i # p) (JMap kvs) = JMap kvs"
  by (simp_all add: delete_at.simps)

lemma delete_at_is_text [simp]: "is_text (delete_at p v) = is_text v"
  by (cases "(p, v)" rule: delete_at.cases) (simp_all add: delete_at.simps is_text_def)

lemma delete_at_wf: "wf_json j \<Longrightarrow> wf_json (delete_at p j)"
proof (induction p j rule: delete_at.induct)
  case (1 kvs)
  then show ?case by (auto simp: delete_at.simps(1) distinct_map_filter AList.delete_eq)
next
  case (2 k p kvs)
  moreover have "fst \<circ> (\<lambda>(k', v). (k', if k' = k then delete_at p v else v)) = fst" by auto
  ultimately show ?case by (auto simp: delete_at.simps(2))
next
  case (3 i p xs)
  have "wf_json (if n = i then delete_at p x else x)" if e: "(n, x) \<in> set (enumerate 0 xs)" for n x
    using 3(1) [OF e refl] 3(2) enumerate_member [OF e] by simp
  then show ?case by (auto simp: delete_at.simps(3))
qed simp_all

section \<open>One deletion\<close>

lemma described_split:
  assumes "described p j s" "wf_json j"
  shows "case p of
      [] \<Rightarrow> (\<exists>a b. j = JMap (a @ (''description'', JStr s) # b) \<and> delete_at p j = JMap (a @ b))
    | Key k # p' \<Rightarrow> (\<exists>a v b. j = JMap (a @ (k, v) # b) \<and> described p' v s \<and> wf_json v \<and>
        delete_at p j = JMap (a @ (k, delete_at p' v) # b))
    | Item i # p' \<Rightarrow> (\<exists>a x b. j = JList (a @ x # b) \<and> described p' x s \<and> wf_json x \<and>
        delete_at p j = JList (a @ delete_at p' x # b))"
  using assms
proof (cases "(p, j, s)" rule: described.cases)
  case (1 kvs s')
  then obtain a b where "kvs = a @ (''description'', JStr s) # b" using assms(1) by (auto dest: split_list)
  with 1 assms(2) show ?thesis using delete_description by auto
next
  case (2 k p' kvs s')
  then obtain v where v: "(k, v) \<in> set kvs" "described p' v s" using assms(1) by auto
  then obtain a b where ab: "kvs = a @ (k, v) # b" by (auto dest: split_list)
  with 2 assms(2) have "delete_at p j = JMap (a @ (k, delete_at p' v) # b)" "wf_json v"
    using delete_at_key by auto
  with 2 v(2) ab show ?thesis by auto
next
  case (3 i p' xs s')
  then have i: "i < length xs" "described p' (xs ! i) s" using assms(1) by auto
  then have "xs = take i xs @ xs ! i # drop (Suc i) xs" by (simp add: id_take_nth_drop)
  moreover have "delete_at p j = JList (take i xs @ delete_at p' (xs ! i) # drop (Suc i) xs)"
    using 3 i(1) by (simp add: delete_at_item upd_conv_take_nth_drop)
  moreover have "wf_json (xs ! i)" using 3 assms(2) i(1) by simp
  ultimately show ?thesis using 3 i by auto
qed simp_all

lemma deletion_shrinks:
  assumes "quoted q"
  shows "described p j s \<Longrightarrow> wf_json j \<Longrightarrow> json_size q (delete_at p j) + length s \<le> json_size q j"
proof (induction p arbitrary: j)
  case Nil
  from described_split [OF Nil] obtain a b where
    "j = JMap (a @ (''description'', JStr s) # b)" "delete_at [] j = JMap (a @ b)" by auto
  moreover have "length s + 2 \<le> q s" using assms by (simp add: quoted_def)
  ultimately show ?case by simp
next
  case (Cons st p)
  show ?case
  proof (cases st)
    case (Key k)
    with described_split [OF Cons.prems] obtain a v b where
      "j = JMap (a @ (k, v) # b)" "described p v s" "wf_json v"
      "delete_at (st # p) j = JMap (a @ (k, delete_at p v) # b)" by auto
    with Cons.IH show ?thesis by simp
  next
    case (Item i)
    with described_split [OF Cons.prems] obtain a x b where
      "j = JList (a @ x # b)" "described p x s" "wf_json x"
      "delete_at (st # p) j = JList (a @ delete_at p x # b)" by auto
    with Cons.IH show ?thesis by simp
  qed
qed

lemma deletion_bare:
  "described p j s \<Longrightarrow> wf_json j \<Longrightarrow> bare (delete_at p j) = bare j"
proof (induction p arbitrary: j)
  case Nil
  from described_split [OF Nil] show ?case by (auto simp: is_text_def)
next
  case (Cons st p)
  show ?case
  proof (cases st)
    case (Key k)
    with described_split [OF Cons.prems] obtain a v b where v:
      "j = JMap (a @ (k, v) # b)" "described p v s" "wf_json v"
      "delete_at (st # p) j = JMap (a @ (k, delete_at p v) # b)" by auto
    with Cons.IH show ?thesis by simp
  next
    case (Item i)
    with described_split [OF Cons.prems] Cons.IH show ?thesis by auto
  qed
qed

text \<open>Another description stays where it is.\<close>

lemma described_Nil: "described [] j s \<Longrightarrow> \<exists>kvs. j = JMap kvs \<and> (''description'', JStr s) \<in> set kvs"
  by (cases j) auto

lemma other_description_kept:
  "described p j s \<Longrightarrow> wf_json j \<Longrightarrow> described p' j s' \<Longrightarrow> p \<noteq> p' \<Longrightarrow> described p' (delete_at p j) s'"
proof (induction p arbitrary: j p')
  case Nil
  from described_split [OF Nil(1,2)] obtain a b where
    j: "j = JMap (a @ (''description'', JStr s) # b)" "delete_at [] j = JMap (a @ b)" by auto
  from Nil(3,4) j(1) obtain k r where "p' = Key k # r" by (cases "(p', j, s')" rule: described.cases) auto
  with Nil(3) j show ?case by auto
next
  case (Cons st p)
  show ?case
  proof (cases st)
    case (Key k)
    with described_split [OF Cons.prems(1,2)] obtain a v b where v:
      "j = JMap (a @ (k, v) # b)" "described p v s" "wf_json v"
      "delete_at (st # p) j = JMap (a @ (k, delete_at p v) # b)" by auto
    show ?thesis
    proof (cases "p' = [] \<or> (\<exists>k' r. p' = Key k' # r \<and> k' \<noteq> k)")
      case True
      with Cons.prems(3) v(1,2,4) show ?thesis by auto
    next
      case False
      with Cons.prems(3) v(1) obtain r where r: "p' = Key k # r"
        by (cases "(p', j, s')" rule: described.cases) auto
      with Cons.prems(2,3) v(1) have "described r v s'" by (auto simp: image_iff)
      with Cons.IH [OF v(2,3), of r] Cons.prems(4) Key r v(4) show ?thesis by auto
    qed
  next
    case (Item i)
    with Cons.prems(1) obtain xs where j: "j = JList xs" by (cases j) auto
    with Cons.prems(3) obtain i' r where r: "p' = Item i' # r"
      by (cases "(p', j, s')" rule: described.cases) auto
    from Cons.prems(1,2) Item j have "described p (xs ! i) s" "wf_json (xs ! i)" by auto
    with Cons.IH [of "xs ! i" r] Cons.prems(3,4) Item j r show ?thesis
      by (cases "i = i'") (auto simp: delete_at_item)
  qed
qed

section \<open>The collected descriptions\<close>

lemma json_induct:
  assumes "\<And>kvs. (\<And>k v. (k, v) \<in> set kvs \<Longrightarrow> P v) \<Longrightarrow> P (JMap kvs)"
    "\<And>xs. (\<And>x. x \<in> set xs \<Longrightarrow> P x) \<Longrightarrow> P (JList xs)" "\<And>s. P (JStr s)" "\<And>t. P (JOther t)"
  shows "P j"
proof (induction j)
  case (JMap kvs)
  show ?case by (rule assms(1)) (rule JMap, auto)
qed (use assms(2-4) in blast)+

definition own_description :: "int \<Rightarrow> path \<Rightarrow> string \<Rightarrow> json \<Rightarrow> crd_description list" where
  "own_description n p k v = (case v of
     JStr s \<Rightarrow> if k = ''description'' then [\<lparr>ds_depth = n, ds_property = p, ds_value = s\<rparr>] else []
   | _ \<Rightarrow> [])"

lemma collect_map:
  "collect (JMap kvs) n p =
   concat (map (\<lambda>(k, v). own_description n p k v @ collect v (n + 1) (p @ [Key k])) kvs)"
  by (simp, intro arg_cong [where f = concat] map_cong refl)
    (auto simp: own_description_def split: json.splits)

lemma in_own_description:
  "d \<in> set (own_description n p k v) \<longleftrightarrow>
   (\<exists>s. k = ''description'' \<and> v = JStr s \<and> d = \<lparr>ds_depth = n, ds_property = p, ds_value = s\<rparr>)"
  by (auto simp: own_description_def split: json.splits)

lemma distinct_own_description: "distinct (map ds_property (own_description n p k v))"
  by (simp add: own_description_def split: json.splits)

declare collect.simps(1) [simp del]

lemma collected_described:
  "d \<in> set (collect j n p) \<Longrightarrow> \<exists>r. ds_property d = p @ r \<and> described r j (ds_value d)"
proof (induction j arbitrary: n p rule: json_induct)
  case (1 kvs)
  then obtain k v where kv: "(k, v) \<in> set kvs" and
    "d \<in> set (own_description n p k v) \<or> d \<in> set (collect v (n + 1) (p @ [Key k]))"
    by (auto simp: collect_map)
  then show ?case
  proof (elim disjE)
    assume "d \<in> set (own_description n p k v)"
    with kv show ?thesis by (intro exI [of _ "[]"]) (auto simp: in_own_description)
  next
    assume "d \<in> set (collect v (n + 1) (p @ [Key k]))"
    with 1(1) [OF kv] obtain r where "ds_property d = p @ Key k # r" "described r v (ds_value d)" by fastforce
    with kv show ?thesis by (intro exI [of _ "Key k # r"]) auto
  qed
next
  case (2 xs)
  then obtain i x where i: "(i, x) \<in> set (enumerate 0 xs)" "d \<in> set (collect x (n + 1) (p @ [Item i]))" by auto
  with 2(1) [OF enumerate_member [OF i(1)]] obtain r where
    "ds_property d = p @ Item i # r" "described r x (ds_value d)" by fastforce
  with i(1) show ?case by (intro exI [of _ "Item i # r"]) (auto simp: in_set_enumerate_eq)
qed simp_all

lemma distinct_concat_map:
  assumes "distinct xs" "\<And>x. x \<in> set xs \<Longrightarrow> distinct (f x)"
    "\<And>x y. x \<in> set xs \<Longrightarrow> y \<in> set xs \<Longrightarrow> x \<noteq> y \<Longrightarrow> set (f x) \<inter> set (f y) = {}"
  shows "distinct (concat (map f xs))"
  using assms
proof (induction xs)
  case (Cons x xs)
  then have "set (f x) \<inter> (\<Union>y \<in> set xs. set (f y)) = {}" by fastforce
  with Cons show ?case by auto
qed simp

lemma collected_depth:
  "d \<in> set (collect j n p) \<Longrightarrow> \<exists>r. ds_property d = p @ r \<and> ds_depth d = n + int (length r)"
proof (induction j arbitrary: n p rule: json_induct)
  case (1 kvs)
  then obtain k v where kv: "(k, v) \<in> set kvs" and
    "d \<in> set (own_description n p k v) \<or> d \<in> set (collect v (n + 1) (p @ [Key k]))"
    by (auto simp: collect_map)
  with 1(1) [OF kv] show ?case by (fastforce simp: in_own_description)
next
  case (2 xs)
  then obtain i x where "(i, x) \<in> set (enumerate 0 xs)" "d \<in> set (collect x (n + 1) (p @ [Item i]))" by auto
  with 2(1) [OF enumerate_member] show ?case by fastforce
qed simp_all

lemma collected_below:
  "x \<in> ds_property ` set (collect j n p) \<Longrightarrow> \<exists>r. x = p @ r"
  using collected_described by fastforce

definition collected_at :: "int \<Rightarrow> path \<Rightarrow> string \<times> json \<Rightarrow> path list" where
  "collected_at n p e = map ds_property
     (own_description n p (fst e) (snd e) @ collect (snd e) (n + 1) (p @ [Key (fst e)]))"

lemma collected_at_key:
  "x \<in> set (collected_at n p e) \<Longrightarrow> x = p \<and> fst e = ''description'' \<or> (\<exists>r. x = p @ Key (fst e) # r)"
  using collected_below [of x "snd e" "n + 1" "p @ [Key (fst e)]"]
  by (auto simp: collected_at_def in_own_description)

lemma collected_at_disjoint:
  "fst e \<noteq> fst e' \<Longrightarrow> set (collected_at n p e) \<inter> set (collected_at n p e') = {}"
  using collected_at_key [of _ n p e] collected_at_key [of _ n p e'] by fastforce

lemma collected_at_distinct:
  assumes "distinct (map ds_property (collect (snd e) (n + 1) (p @ [Key (fst e)])))"
  shows "distinct (collected_at n p e)"
proof -
  have "p \<notin> ds_property ` set (collect (snd e) (n + 1) (p @ [Key (fst e)]))"
    using collected_below [of p "snd e" "n + 1" "p @ [Key (fst e)]"] by auto
  then show ?thesis using assms
    by (auto simp: collected_at_def distinct_own_description in_own_description)
qed

lemma collected_distinct: "wf_json j \<Longrightarrow> distinct (map ds_property (collect j n p))"
proof (induction j arbitrary: n p rule: json_induct)
  case (1 kvs)
  have "distinct (concat (map (collected_at n p) kvs))"
  proof (rule distinct_concat_map)
    show "distinct kvs" using 1(2) by (simp add: distinct_map)
  next
    fix e assume "e \<in> set kvs"
    with 1(2) 1(1) [of "fst e" "snd e"] show "distinct (collected_at n p e)"
      by (intro collected_at_distinct) auto
  next
    fix e e' assume "e \<in> set kvs" "e' \<in> set kvs" "e \<noteq> e'"
    with 1(2) have "fst e \<noteq> fst e'" by (auto simp: distinct_map inj_on_def)
    then show "set (collected_at n p e) \<inter> set (collected_at n p e') = {}" by (rule collected_at_disjoint)
  qed
  moreover have "map ds_property (collect (JMap kvs) n p) = concat (map (collected_at n p) kvs)"
    by (simp add: collect_map map_concat comp_def collected_at_def [abs_def] case_prod_unfold)
  ultimately show ?case by simp
next
  case (2 xs)
  let ?at = "\<lambda>e. map ds_property (collect (snd e) (n + 1) (p @ [Item (fst e)]))"
  have below: "x \<in> set (?at e) \<Longrightarrow> \<exists>r. x = p @ Item (fst e) # r" for x e
    using collected_below [of x "snd e" "n + 1" "p @ [Item (fst e)]"] by auto
  have "distinct (concat (map ?at (enumerate 0 xs)))"
  proof (rule distinct_concat_map)
    fix e assume "e \<in> set (enumerate 0 xs)"
    then have "snd e \<in> set xs" by (metis enumerate_member prod.collapse)
    with 2 show "distinct (?at e)" by auto
  next
    fix e e' assume "e \<in> set (enumerate 0 xs)" "e' \<in> set (enumerate 0 xs)" "e \<noteq> e'"
    then have "fst e \<noteq> fst e'" by (auto simp: in_set_enumerate_eq prod_eq_iff)
    then have "x \<notin> set (?at e')" if "x \<in> set (?at e)" for x
      using below [of x e] below [of x e'] that by (metis append_same_eq list.inject path_step.inject(2) same_append_eq)
    then show "set (?at e) \<inter> set (?at e') = {}" by blast
  qed (simp add: distinct_enumerate)
  then show ?case by (simp add: map_concat comp_def case_prod_unfold)
qed simp_all

section \<open>The loop\<close>

lemma trim_loop_correct:
  assumes "quoted q"
  shows "trim_loop ds bytes j = (bytes', j') \<Longrightarrow> wf_json j \<Longrightarrow> distinct (map ds_property ds) \<Longrightarrow>
    (\<And>d. d \<in> set ds \<Longrightarrow> described (ds_property d) j (ds_value d)) \<Longrightarrow> int (json_size q j) \<le> bytes \<Longrightarrow>
    int (json_size q j') \<le> bytes' \<and> bare j' = bare j \<and> wf_json j'"
proof (induction ds arbitrary: bytes j)
  case (Cons d ds)
  show ?case
  proof (cases "bytes \<le> maxAnnotationSize")
    case False
    let ?j = "delete_at (ds_property d) j"
    have d: "described (ds_property d) j (ds_value d)" by (rule Cons.prems(4)) simp
    have "described (ds_property e) ?j (ds_value e)" if "e \<in> set ds" for e
      using other_description_kept [OF d Cons.prems(2)] Cons.prems(3,4) that by (force simp: image_iff)
    moreover have "int (json_size q ?j) \<le> bytes - int (length (ds_value d))"
      using deletion_shrinks [OF assms d Cons.prems(2)] Cons.prems(5) by linarith
    moreover have "trim_loop ds (bytes - int (length (ds_value d))) ?j = (bytes', j')"
      using Cons.prems(1) False by simp
    ultimately show ?thesis
      using Cons.IH [of "bytes - int (length (ds_value d))" ?j] Cons.prems(2,3) deletion_bare [OF d Cons.prems(2)]
      by (simp add: delete_at_wf)
  qed (use Cons.prems in simp)
qed simp

lemma trim_loop_fatal:
  "maxAnnotationSize < fst (trim_loop ds bytes j) \<longleftrightarrow>
   maxAnnotationSize < bytes - (\<Sum>d \<leftarrow> ds. int (length (ds_value d)))"
proof (induction ds arbitrary: bytes j)
  case (Cons d ds)
  have "0 \<le> (\<Sum>d \<leftarrow> ds. int (length (ds_value d)))" by (intro sum_list_nonneg) auto
  with Cons show ?case by (simp add: algebra_simps)
qed simp

lemma trim_loop_prefix:
  "\<exists>k. snd (trim_loop ds bytes j) = foldl (\<lambda>j d. delete_at (ds_property d) j) j (take k ds)"
proof (induction ds arbitrary: bytes j)
  case (Cons d ds)
  show ?case
  proof (cases "bytes \<le> maxAnnotationSize")
    case True
    then show ?thesis by (intro exI [of _ 0]) simp
  next
    case False
    with Cons.IH [of "bytes - int (length (ds_value d))" "delete_at (ds_property d) j"]
    obtain k where "snd (trim_loop (d # ds) bytes j) =
      foldl (\<lambda>j d. delete_at (ds_property d) j) (delete_at (ds_property d) j) (take k ds)" by auto
    then show ?thesis by (intro exI [of _ "Suc k"]) simp
  qed
qed simp

lemma strict_weak_trim_order: "strict_weak trim_order"
  by (auto simp: strict_weak_def trim_order_def)

section \<open>The program\<close>

context slice_sort
begin

lemma srt_sum: "(\<Sum>x \<leftarrow> srt lt xs. (f x :: int)) = (\<Sum>x \<leftarrow> xs. f x)"
  using mset_srt [of lt xs] by (metis mset_map sum_mset_sum_list)

lemma srt_distinct_map: "distinct (map f (srt lt xs)) = distinct (map f xs)"
  using mset_srt [of lt xs] by (metis mset_map mset_eq_imp_distinct_iff)

end

lemma trim_crd_Some:
  "trim_crd srt q j = Some j' \<longleftrightarrow>
   (\<exists>bytes. trim_loop (srt trim_order (collect j 0 [])) (int (json_size q j)) j = (bytes, j') \<and>
      bytes \<le> maxAnnotationSize)"
  by (auto simp: trim_crd_def Let_def split: prod.splits)

text \<open>
  C40. The trimmed definition fits into the annotation, and without the descriptions it is the given
  one; a definition that fits is not touched.
\<close>

theorem trimmed_fits:
  assumes "slice_sort srt" "quoted q" "wf_json j" "trim_crd srt q j = Some j'"
  shows "int (json_size q j') \<le> maxAnnotationSize \<and> bare j' = bare j \<and>
    (int (json_size q j) \<le> maxAnnotationSize \<longrightarrow> j' = j)"
proof -
  from assms(4) obtain bytes where
    loop: "trim_loop (srt trim_order (collect j 0 [])) (int (json_size q j)) j = (bytes, j')"
    and fits: "bytes \<le> maxAnnotationSize" by (auto simp: trim_crd_Some)
  have "described (ds_property d) j (ds_value d)" if "d \<in> set (srt trim_order (collect j 0 []))" for d
    using that collected_described [of d j 0 "[]"] by (simp add: slice_sort.set_srt [OF assms(1)])
  with trim_loop_correct [OF assms(2) loop assms(3)] have
    "int (json_size q j') \<le> bytes \<and> bare j' = bare j \<and> wf_json j'"
    using collected_distinct [OF assms(3)] by (simp add: slice_sort.srt_distinct_map [OF assms(1)])
  moreover have "j' = j" if "int (json_size q j) \<le> maxAnnotationSize"
    using loop that by (cases "srt trim_order (collect j 0 [])") auto
  ultimately show ?thesis using fits by auto
qed

definition long_crd :: "nat \<Rightarrow> json" where
  "long_crd n = JMap [(''description'', JStr (replicate n CHR ''x'')), (''kind'', JStr ''C'')]"

lemma long_crd_trimmed:
  "trim_crd sort_slice (\<lambda>s. length s + 2) (long_crd 300000) = Some (JMap [(''kind'', JStr ''C'')])"
  by (simp add: long_crd_def trim_crd_def sort_slice_def collect.simps(1) delete_at.simps maxAnnotationSize_def)

theorem trimmed_fits_witness:
  "int (json_size (\<lambda>s. length s + 2) (JMap [(''kind'', JStr ''C'')])) \<le> maxAnnotationSize \<and>
   bare (JMap [(''kind'', JStr ''C'')]) = bare (long_crd 300000)"
  using trimmed_fits [OF go_sort.slice_sort_axioms _ _ long_crd_trimmed] by (simp add: quoted_def long_crd_def)

text \<open>
  The descriptions that are removed are the first ones of the order: no description that stays is
  deeper than a removed one, or as deep and longer.
\<close>

theorem trimmed_deepest_first:
  assumes "slice_sort srt" "trim_crd srt q j = Some j'"
  shows "\<exists>ds es. mset (ds @ es) = mset (collect j 0 []) \<and>
    j' = foldl (\<lambda>j d. delete_at (ds_property d) j) j ds \<and>
    (\<forall>d \<in> set ds. \<forall>e \<in> set es. ds_depth e \<le> ds_depth d \<and>
       (ds_depth e = ds_depth d \<longrightarrow> length (ds_value e) \<le> length (ds_value d)))"
proof -
  let ?xs = "srt trim_order (collect j 0 [])"
  from assms(2) trim_loop_prefix [of ?xs "int (json_size q j)" j] obtain k where
    k: "j' = foldl (\<lambda>j d. delete_at (ds_property d) j) j (take k ?xs)" by (auto simp: trim_crd_Some)
  have "sorted_wrt (\<lambda>d e. \<not> trim_order e d) (take k ?xs @ drop k ?xs)"
    using slice_sort.sorted_srt [OF assms(1) strict_weak_trim_order] by (simp add: slice_sorted_def)
  then have "\<forall>d \<in> set (take k ?xs). \<forall>e \<in> set (drop k ?xs). \<not> trim_order e d"
    unfolding sorted_wrt_append by blast
  moreover have "ds_depth e \<le> ds_depth d \<and>
       (ds_depth e = ds_depth d \<longrightarrow> length (ds_value e) \<le> length (ds_value d))"
    if "\<not> trim_order e d" for d e
    using that by (auto simp: trim_order_def split: if_splits)
  ultimately have "\<forall>d \<in> set (take k ?xs). \<forall>e \<in> set (drop k ?xs). ds_depth e \<le> ds_depth d \<and>
       (ds_depth e = ds_depth d \<longrightarrow> length (ds_value e) \<le> length (ds_value d))" by blast
  moreover have "mset (take k ?xs @ drop k ?xs) = mset (collect j 0 [])"
    using slice_sort.mset_srt [OF assms(1)] by simp
  ultimately show ?thesis using k by blast
qed

theorem trimmed_deepest_first_witness:
  "\<exists>ds es. mset (ds @ es) = mset (collect (long_crd 300000) 0 []) \<and>
    JMap [(''kind'', JStr ''C'')] = foldl (\<lambda>j d. delete_at (ds_property d) j) (long_crd 300000) ds \<and>
    (\<forall>d \<in> set ds. \<forall>e \<in> set es. ds_depth e \<le> ds_depth d \<and>
       (ds_depth e = ds_depth d \<longrightarrow> length (ds_value e) \<le> length (ds_value d)))"
  by (rule trimmed_deepest_first [OF go_sort.slice_sort_axioms long_crd_trimmed])

text \<open>
  The program gives up exactly when the sum of the lengths of all descriptions is too small,
  whatever the sort does.
\<close>

theorem trim_gives_up:
  assumes "slice_sort srt"
  shows "trim_crd srt q j = None \<longleftrightarrow>
    maxAnnotationSize < int (json_size q j) - (\<Sum>d \<leftarrow> collect j 0 []. int (length (ds_value d)))"
  using trim_loop_fatal [of "srt trim_order (collect j 0 [])" "int (json_size q j)" j]
  by (simp add: trim_crd_def Let_def case_prod_unfold slice_sort.srt_sum [OF assms])

theorem trim_gives_up_witness:
  "trim_crd sort_slice (\<lambda>s. length s + 2) (JMap [(''kind'', JStr (replicate 300000 CHR ''x''))]) = None"
  by (simp add: trim_gives_up [OF go_sort.slice_sort_axioms] collect.simps(1) maxAnnotationSize_def)

text \<open>
  The key, the quotes and the comma that go with a description are not counted: the program also
  gives up on a definition that fits once its description is removed.
\<close>

theorem gives_up_though_it_fits:
  "\<exists>j s. described [] j s \<and> trim_crd sort_slice (\<lambda>s. length s + 2) j = None \<and>
     int (json_size (\<lambda>s. length s + 2) (delete_at [] j)) \<le> maxAnnotationSize"
proof (intro exI conjI)
  let ?j = "JMap [(''description'', JStr ''d''), (''kind'', JStr (replicate 262130 CHR ''x''))]"
  show "described [] ?j ''d''" by simp
  show "trim_crd sort_slice (\<lambda>s. length s + 2) ?j = None"
    by (simp add: trim_crd_def sort_slice_def collect.simps(1) maxAnnotationSize_def)
  show "int (json_size (\<lambda>s. length s + 2) (delete_at [] ?j)) \<le> maxAnnotationSize"
    by (simp add: delete_at.simps maxAnnotationSize_def)
qed

end
