(* ===== verification/Ticker.thy ===== *)
theory Ticker
  imports EdsTypes
begin

text \<open>
  The loop that three parts of the operator share: \<open>collectMetrics\<close> and \<open>runAutoscaler\<close> of
  operator/elasticsearch.go and \<open>Operator.Run\<close> of operator/operator.go wait in a select for a timer
  or for the end of their context, and start a round when the timer fires. The timer of a select is
  armed when the select is entered; it fires at once when the time of the next check has passed.
\<close>

datatype ticker_phase = NotBegun | Waiting | InRound | Stopped

record ticker =
  tk_next :: time
  tk_deadline :: time
  tk_started :: time
  tk_phase :: ticker_phase

definition unbegun :: ticker where
  "unbegun = \<lparr>tk_next = 0, tk_deadline = 0, tk_started = 0, tk_phase = NotBegun\<rparr>"

definition enter_select :: "time \<Rightarrow> ticker \<Rightarrow> ticker" where
  "enter_select now tk = tk\<lparr>tk_deadline := max now (tk_next tk), tk_phase := Waiting\<rparr>"

definition begin_loop :: "duration \<Rightarrow> time \<Rightarrow> ticker" where
  "begin_loop interval now = enter_select now (unbegun\<lparr>tk_next := now + sint (- interval)\<rparr>)"

definition can_fire :: "time \<Rightarrow> ticker \<Rightarrow> bool" where
  "can_fire now tk \<longleftrightarrow> tk_phase tk = Waiting \<and> tk_deadline tk \<le> now"

definition fire :: "duration \<Rightarrow> time \<Rightarrow> ticker \<Rightarrow> ticker" where
  "fire interval now tk = tk\<lparr>tk_next := now + sint interval, tk_started := now, tk_phase := InRound\<rparr>"

definition stop_loop :: "ticker \<Rightarrow> ticker" where
  "stop_loop tk = tk\<lparr>tk_phase := Stopped\<rparr>"

lemma ticker_simps [simp]:
  "tk_phase (enter_select now tk) = Waiting" "tk_next (enter_select now tk) = tk_next tk"
  "tk_started (enter_select now tk) = tk_started tk" "tk_deadline (enter_select now tk) = max now (tk_next tk)"
  "tk_phase (begin_loop interval now) = Waiting"
  "tk_phase (fire interval now tk) = InRound" "tk_next (fire interval now tk) = now + sint interval"
  "tk_started (fire interval now tk) = now"
  "tk_phase (stop_loop tk) = Stopped" "tk_next (stop_loop tk) = tk_next tk" "tk_started (stop_loop tk) = tk_started tk"
  "tk_phase unbegun = NotBegun"
  by (simp_all add: enter_select_def begin_loop_def fire_def stop_loop_def unbegun_def)

text \<open>The first round can start at once, the next ones when their time has come.\<close>

lemma sint_negative: "0 < sint (w :: int64) \<Longrightarrow> sint (- w) = - sint w"
proof -
  assume "0 < sint w"
  then have "sint (word_of_int (- sint w) :: int64) = - sint w"
    using sint64_upper [of w] by (intro sint64_word_of_int) linarith+
  then show ?thesis by simp
qed

lemma first_round: "0 < sint interval \<Longrightarrow> can_fire now (begin_loop interval now)"
  by (simp add: can_fire_def begin_loop_def enter_select_def unbegun_def sint_negative)

lemma next_round:
  "now \<le> t \<Longrightarrow> can_fire t (enter_select now (fire interval now0 tk)) \<longleftrightarrow> now0 + sint interval \<le> t"
  by (simp add: can_fire_def)

end
