(* ===== verification/Process.thy ===== *)
theory Process
  imports Watch Metrics Ticker
begin

text \<open>
  The operator's process as a whole: main.go, the start-up and the two endless loops of
  operator/elasticsearch.go, the goroutines of the data sets, and the events of the watch, as steps
  that interleave freely. A round of a loop is not atomic: it starts in one step and ends in
  another, with what it has done in between recorded; what the services answer it may depend on
  everything else, because the world of each round is arbitrary.
\<close>

section \<open>Starting up\<close>

text \<open>The answers of the informer library to the calls made while starting.\<close>

datatype informer = PodInformer | NodeInformer

record startup =
  su_add_handler :: "informer \<Rightarrow> unit answer"
  su_poll_synced :: "informer \<Rightarrow> unit answer"
  su_watch_handler :: "unit answer"
  su_watch_synced :: bool

fun first_error :: "string \<Rightarrow> unit answer list \<Rightarrow> (error, unit) outcome" where
  "first_error what [] = Ok ()"
| "first_error what (Inl e # rs) = Err (Failed what e)"
| "first_error what (Inr u # rs) = first_error what rs"

definition setupInformers :: "startup \<Rightarrow> (error, unit) outcome" where
  "setupInformers su =
     (let informers = [PodInformer, NodeInformer] in
      bind_outcome (first_error ''failed to add event handler'' (map (su_add_handler su) informers)) (\<lambda>_.
        first_error ''failed to sync cache for informer'' (map (su_poll_synced su) informers)))"

datatype stage = Starting | Launched | Syncing | Watching | Finished "error option" | Crashed

text \<open>
  Where \<open>Run\<close> gets with these answers. A failed start ends it, and with it the process. The watch is
  running while its cache is filled, and \<open>runWatch\<close> gives up when that takes longer than its context.
\<close>

definition after_setup :: "startup \<Rightarrow> stage" where
  "after_setup su = (case setupInformers su of Ok _ \<Rightarrow> Launched | Err e \<Rightarrow> Finished (Some e) | Panic \<Rightarrow> Crashed)"

definition start_watch :: "startup \<Rightarrow> stage" where
  "start_watch su = (case su_watch_handler su of
     Inl e \<Rightarrow> Finished (Some (Failed ''failed to add event handler'' e)) | Inr _ \<Rightarrow> Syncing)"

definition sync_watch :: "bool \<Rightarrow> stage" where
  "sync_watch synced =
     (if synced then Watching else Finished (Some (KubeError ''timed out waiting for caches to sync'')))"

section \<open>The process\<close>

text \<open>
  The goroutines with a loop. A worker operates one data set; its number is that of its goroutine
  in the state of the event handling.
\<close>

datatype thread = Collector | Autoscaler | Worker nat

text \<open>
  What the run depends on: the settings of the operator, the answers while starting, the libraries,
  and the order of the loops over maps.
\<close>

record program =
  pg_config :: operator_config
  pg_startup :: startup
  pg_backoff :: backoff
  pg_retry :: retrier
  pg_scaling :: scaling_env
  pg_convert :: "f64 \<Rightarrow> int64"
  pg_order :: "pod \<Rightarrow> resources \<Rightarrow> resources"
  pg_visit :: "resources \<Rightarrow> es_resource list"

record round =
  rd_thread :: thread
  rd_start :: time
  rd_end :: time
  rd_result :: "(error, unit) outcome"
  rd_trace :: trace

record process =
  pr_time :: time
  pr_cancelled :: bool
  pr_stage :: stage
  pr_tickers :: "thread \<Rightarrow> ticker"
  pr_controller :: controller
  pr_rounds :: "round list"

definition initial_process :: "time \<Rightarrow> process" where
  "initial_process now =
     \<lparr>pr_time = now, pr_cancelled = False, pr_stage = Starting, pr_tickers = (\<lambda>_. unbegun),
      pr_controller = initial_controller, pr_rounds = []\<rparr>"

definition worker_loop :: "nat \<Rightarrow> process \<Rightarrow> loop" where
  "worker_loop i p = cn_loops (pr_controller p) ! i"

definition handleSigterm :: "process \<Rightarrow> process" where
  "handleSigterm p = p\<lparr>pr_cancelled := True\<rparr>"

section \<open>What a thread does\<close>

definition interval_of :: "program \<Rightarrow> thread \<Rightarrow> process \<Rightarrow> duration" where
  "interval_of pg th p =
     (case th of
        Collector \<Rightarrow> oc_metrics_interval (pg_config pg)
      | Autoscaler \<Rightarrow> oc_autoscaler_interval (pg_config pg)
      | Worker i \<Rightarrow> lp_interval (worker_loop i p))"

text \<open>The client and the settings a worker was started with.\<close>

definition worker_env :: "program \<Rightarrow> loop \<Rightarrow> eds_env" where
  "worker_env pg l = \<lparr>en_json = sn_json (pg_scaling pg), en_retry = pg_retry pg, en_draining = lp_draining l\<rparr>"

definition worker_round :: "program \<Rightarrow> loop \<Rightarrow> unit io" where
  "worker_round pg l =
     operate (pg_backoff pg) (oc_priority_node_selectors (pg_config pg)) (GetResource (worker_env pg l) (lp_eds l))"

definition round_of :: "program \<Rightarrow> thread \<Rightarrow> process \<Rightarrow> unit io" where
  "round_of pg th p =
     (case th of
        Collector \<Rightarrow> metrics_round (pg_config pg) (pg_convert pg) (pg_order pg) (pg_visit pg)
      | Autoscaler \<Rightarrow> autoscaler_round (pg_config pg)
          ((pg_scaling pg)\<lparr>sn_interval := oc_metrics_interval (pg_config pg)\<rparr>) (pg_order pg) (pg_visit pg)
      | Worker i \<Rightarrow> worker_round pg (worker_loop i p))"

text \<open>The context of a worker is its own; it does not end with that of the process.\<close>

definition context_done :: "thread \<Rightarrow> process \<Rightarrow> bool" where
  "context_done th p = (case th of Worker i \<Rightarrow> lp_cancelled (worker_loop i p) | _ \<Rightarrow> pr_cancelled p)"

definition in_phase :: "loop_phase \<Rightarrow> thread \<Rightarrow> process \<Rightarrow> bool" where
  "in_phase ph th p = (case th of Worker i \<Rightarrow> phase_is ph i (pr_controller p) | _ \<Rightarrow> True)"

definition set_thread :: "loop_phase \<Rightarrow> thread \<Rightarrow> ticker \<Rightarrow> process \<Rightarrow> process" where
  "set_thread ph th tk p =
     p\<lparr>pr_tickers := (pr_tickers p)(th := tk),
       pr_controller := (case th of Worker i \<Rightarrow> set_phase ph i (pr_controller p) | _ \<Rightarrow> pr_controller p)\<rparr>"

definition running_stage :: "stage \<Rightarrow> bool" where
  "running_stage s \<longleftrightarrow> s = Launched \<or> s = Syncing \<or> s = Watching"

definition end_round :: "program \<Rightarrow> thread \<Rightarrow> (error, unit) outcome \<Rightarrow> trace \<Rightarrow> process \<Rightarrow> process" where
  "end_round pg th r tr p =
     (set_thread AtSelect th (enter_select (pr_time p) (pr_tickers p th)) p)
       \<lparr>pr_rounds := pr_rounds p @
          [\<lparr>rd_thread = th, rd_start = tk_started (pr_tickers p th), rd_end = pr_time p, rd_result = r, rd_trace = tr\<rparr>],
        pr_stage := (if r = Panic then Crashed else pr_stage p)\<rparr>"

section \<open>Steps\<close>

text \<open>
  The end of \<open>Run\<close> is the end of the process, and so is a panic of any goroutine. Events arrive from
  the moment the informer runs, before its cache counts as synced.
\<close>

inductive process_step :: "program \<Rightarrow> process \<Rightarrow> process \<Rightarrow> bool" for pg where
  elapse: "pr_time p \<le> t \<Longrightarrow> process_step pg p (p\<lparr>pr_time := t\<rparr>)"
| sigterm: "process_step pg p (handleSigterm p)"
| set_up: "pr_stage p = Starting \<Longrightarrow> process_step pg p (p\<lparr>pr_stage := after_setup (pg_startup pg)\<rparr>)"
| watch: "pr_stage p = Launched \<Longrightarrow> process_step pg p (p\<lparr>pr_stage := start_watch (pg_startup pg)\<rparr>)"
| sync: "pr_stage p = Syncing \<Longrightarrow> synced \<longrightarrow> su_watch_synced (pg_startup pg) \<Longrightarrow>
    \<not> synced \<longrightarrow> \<not> su_watch_synced (pg_startup pg) \<or> pr_cancelled p \<Longrightarrow>
    process_step pg p (p\<lparr>pr_stage := sync_watch synced\<rparr>)"
| terminate: "pr_stage p = Watching \<Longrightarrow> pr_cancelled p \<Longrightarrow> process_step pg p (p\<lparr>pr_stage := Finished None\<rparr>)"
| enter: "running_stage (pr_stage p) \<Longrightarrow> in_phase AtSelect th p \<Longrightarrow> tk_phase (pr_tickers p th) = NotBegun \<Longrightarrow>
    process_step pg p (p\<lparr>pr_tickers := (pr_tickers p)(th := begin_loop (interval_of pg th p) (pr_time p))\<rparr>)"
| tick: "running_stage (pr_stage p) \<Longrightarrow> in_phase AtSelect th p \<Longrightarrow> can_fire (pr_time p) (pr_tickers p th) \<Longrightarrow>
    process_step pg p (set_thread Operating th (fire (interval_of pg th p) (pr_time p) (pr_tickers p th)) p)"
| finish: "running_stage (pr_stage p) \<Longrightarrow> in_phase Operating th p \<Longrightarrow> tk_phase (pr_tickers p th) = InRound \<Longrightarrow>
    round_of pg th p w [] = (r, tr) \<Longrightarrow> process_step pg p (end_round pg th r tr p)"
| stop: "running_stage (pr_stage p) \<Longrightarrow> in_phase AtSelect th p \<Longrightarrow> tk_phase (pr_tickers p th) = Waiting \<Longrightarrow>
    context_done th p \<Longrightarrow> process_step pg p (set_thread Sending th (stop_loop (pr_tickers p th)) p)"
| receive: "running_stage (pr_stage p) \<Longrightarrow> cn_handler (pr_controller p) = Receiving i e deleted \<Longrightarrow>
    phase_is Sending i (pr_controller p) \<Longrightarrow>
    process_step pg p (p\<lparr>pr_controller := finish_event (pg_config pg) e deleted (set_phase Returned i (pr_controller p))\<rparr>)"

text \<open>The events delivered by the watch, and the state reached.\<close>

inductive executes :: "program \<Rightarrow> (eds \<times> bool) list \<Rightarrow> process \<Rightarrow> bool" for pg where
  initial: "executes pg [] (initial_process now)"
| event: "executes pg h p \<Longrightarrow> pr_stage p = Syncing \<or> pr_stage p = Watching \<Longrightarrow> cn_handler (pr_controller p) = Idle \<Longrightarrow>
    executes pg (h @ [(e, deleted)]) (p\<lparr>pr_controller := operateEDS (pg_config pg) e deleted (pr_controller p)\<rparr>)"
| step: "executes pg h p \<Longrightarrow> process_step pg p p' \<Longrightarrow> executes pg h p'"

inductive_cases process_stepE: "process_step pg p p'"

end
