(* ===== verification/Shift.thy ===== *)
theory Shift
  imports Io
begin

text \<open>
  A handler cannot tell from which trace it began: run after some calls, it does what it would do
  from the empty trace in the world that has already answered these calls. A theorem about a
  handler run on its own therefore holds for the handler as a part of a longer run.
\<close>

section \<open>The world after some calls\<close>

definition shift_world :: "trace \<Rightarrow> world \<Rightarrow> world" where
  "shift_world pre w =
     \<lparr>w_health = (\<lambda>tr. w_health w (pre @ tr)),
      w_get_settings = (\<lambda>tr. w_get_settings w (pre @ tr)),
      w_put_settings = (\<lambda>tr. w_put_settings w (pre @ tr)),
      w_shards = (\<lambda>tr. w_shards w (pre @ tr)),
      w_nodes = (\<lambda>tr. w_nodes w (pre @ tr)),
      w_indices = (\<lambda>tr. w_indices w (pre @ tr)),
      w_put_replicas = (\<lambda>tr. w_put_replicas w (pre @ tr)),
      w_put_index = (\<lambda>tr. w_put_index w (pre @ tr)),
      w_remove_index = (\<lambda>tr. w_remove_index w (pre @ tr)),
      w_context_done = (\<lambda>tr. w_context_done w (pre @ tr)),
      w_now = (\<lambda>tr. w_now w (pre @ tr)),
      w_get_eds = (\<lambda>tr. w_get_eds w (pre @ tr)),
      w_update_eds = (\<lambda>tr. w_update_eds w (pre @ tr)),
      w_update_eds_status = (\<lambda>tr. w_update_eds_status w (pre @ tr)),
      w_list_eds = (\<lambda>tr. w_list_eds w (pre @ tr)),
      w_list_metric_sets = (\<lambda>tr. w_list_metric_sets w (pre @ tr)),
      w_create_metric_set = (\<lambda>tr. w_create_metric_set w (pre @ tr)),
      w_update_metric_set = (\<lambda>tr. w_update_metric_set w (pre @ tr)),
      w_list_pod_metrics = (\<lambda>tr. w_list_pod_metrics w (pre @ tr)),
      w_get_sts = (\<lambda>tr. w_get_sts w (pre @ tr)),
      w_create_sts = (\<lambda>tr. w_create_sts w (pre @ tr)),
      w_update_sts = (\<lambda>tr. w_update_sts w (pre @ tr)),
      w_list_pods = (\<lambda>tr. w_list_pods w (pre @ tr)),
      w_list_nodes = (\<lambda>tr. w_list_nodes w (pre @ tr)),
      w_get_pod = (\<lambda>tr. w_get_pod w (pre @ tr)),
      w_patch_pod = (\<lambda>tr. w_patch_pod w (pre @ tr)),
      w_delete_pod = (\<lambda>tr. w_delete_pod w (pre @ tr)),
      w_get_pdb = (\<lambda>tr. w_get_pdb w (pre @ tr)),
      w_create_pdb = (\<lambda>tr. w_create_pdb w (pre @ tr)),
      w_get_service = (\<lambda>tr. w_get_service w (pre @ tr)),
      w_create_service = (\<lambda>tr. w_create_service w (pre @ tr))\<rparr>"

lemma shift_world_simps [simp]:
  "w_health (shift_world pre w) tr = w_health w (pre @ tr)"
  "w_get_settings (shift_world pre w) tr = w_get_settings w (pre @ tr)"
  "w_put_settings (shift_world pre w) tr = w_put_settings w (pre @ tr)"
  "w_shards (shift_world pre w) tr = w_shards w (pre @ tr)"
  "w_nodes (shift_world pre w) tr = w_nodes w (pre @ tr)"
  "w_indices (shift_world pre w) tr = w_indices w (pre @ tr)"
  "w_put_replicas (shift_world pre w) tr = w_put_replicas w (pre @ tr)"
  "w_put_index (shift_world pre w) tr = w_put_index w (pre @ tr)"
  "w_remove_index (shift_world pre w) tr = w_remove_index w (pre @ tr)"
  "w_context_done (shift_world pre w) tr = w_context_done w (pre @ tr)"
  "w_now (shift_world pre w) tr = w_now w (pre @ tr)"
  "w_get_eds (shift_world pre w) tr = w_get_eds w (pre @ tr)"
  "w_update_eds (shift_world pre w) tr = w_update_eds w (pre @ tr)"
  "w_update_eds_status (shift_world pre w) tr = w_update_eds_status w (pre @ tr)"
  "w_list_eds (shift_world pre w) tr = w_list_eds w (pre @ tr)"
  "w_list_metric_sets (shift_world pre w) tr = w_list_metric_sets w (pre @ tr)"
  "w_create_metric_set (shift_world pre w) tr = w_create_metric_set w (pre @ tr)"
  "w_update_metric_set (shift_world pre w) tr = w_update_metric_set w (pre @ tr)"
  "w_list_pod_metrics (shift_world pre w) tr = w_list_pod_metrics w (pre @ tr)"
  "w_get_sts (shift_world pre w) tr = w_get_sts w (pre @ tr)"
  "w_create_sts (shift_world pre w) tr = w_create_sts w (pre @ tr)"
  "w_update_sts (shift_world pre w) tr = w_update_sts w (pre @ tr)"
  "w_list_pods (shift_world pre w) tr = w_list_pods w (pre @ tr)"
  "w_list_nodes (shift_world pre w) tr = w_list_nodes w (pre @ tr)"
  "w_get_pod (shift_world pre w) tr = w_get_pod w (pre @ tr)"
  "w_patch_pod (shift_world pre w) tr = w_patch_pod w (pre @ tr)"
  "w_delete_pod (shift_world pre w) tr = w_delete_pod w (pre @ tr)"
  "w_get_pdb (shift_world pre w) tr = w_get_pdb w (pre @ tr)"
  "w_create_pdb (shift_world pre w) tr = w_create_pdb w (pre @ tr)"
  "w_get_service (shift_world pre w) tr = w_get_service w (pre @ tr)"
  "w_create_service (shift_world pre w) tr = w_create_service w (pre @ tr)"
  by (simp_all add: shift_world_def)

section \<open>Handlers that do not see their past\<close>

definition shiftable :: "'a io \<Rightarrow> bool" where
  "shiftable m \<longleftrightarrow> (\<forall>w pre tr. m w (pre @ tr) = apsnd ((@) pre) (m (shift_world pre w) tr))"

named_theorems shift_intros \<open>handlers that do not see their past\<close>

lemma shiftableI: "(\<And>w pre tr. m w (pre @ tr) = apsnd ((@) pre) (m (shift_world pre w) tr)) \<Longrightarrow> shiftable m"
  by (simp add: shiftable_def)

lemma shiftableD: "shiftable m \<Longrightarrow> m w (pre @ tr) = apsnd ((@) pre) (m (shift_world pre w) tr)"
  by (simp add: shiftable_def)

lemma shift_return [shift_intros]: "shiftable (io_return a)"
  by (simp add: shiftable_def io_return_def)

lemma shift_fail [shift_intros]: "shiftable (io_fail e)"
  by (simp add: shiftable_def io_fail_def)

lemma shift_lift [shift_intros]: "shiftable (io_lift r)"
  by (simp add: shiftable_def io_lift_def)

lemma shift_answer [shift_intros]: "shiftable (io_answer r)"
  by (cases r) (simp_all add: io_answer_def shift_return shift_fail)

lemma shift_call [shift_intros]:
  "(\<And>w pre tr. f w (pre @ tr) = f (shift_world pre w) tr) \<Longrightarrow> shiftable (io_call f ev)"
  by (simp add: shiftable_def io_call_def Let_def)

lemma shift_bind [shift_intros]:
  assumes "shiftable m" "\<And>a. shiftable (f a)"
  shows "shiftable (io_bind m f)"
proof (rule shiftableI)
  fix w pre tr
  show "io_bind m f w (pre @ tr) = apsnd ((@) pre) (io_bind m f (shift_world pre w) tr)"
    by (cases "m (shift_world pre w) tr" rule: result_cases)
      (simp_all add: io_bind_def shiftableD [OF assms(1)] shiftableD [OF assms(2)])
qed

lemma shift_try [shift_intros]: "shiftable m \<Longrightarrow> shiftable (io_try m)"
proof (rule shiftableI)
  fix w pre tr assume "shiftable m"
  then show "io_try m w (pre @ tr) = apsnd ((@) pre) (io_try m (shift_world pre w) tr)"
    by (cases "m (shift_world pre w) tr" rule: result_cases) (simp_all add: io_try_def shiftableD)
qed

lemma shift_wrap [shift_intros]: "shiftable m \<Longrightarrow> shiftable (io_wrap s m)"
proof (rule shiftableI)
  fix w pre tr assume "shiftable m"
  then show "io_wrap s m w (pre @ tr) = apsnd ((@) pre) (io_wrap s m (shift_world pre w) tr)"
    by (cases "m (shift_world pre w) tr" rule: result_cases) (simp_all add: io_wrap_def shiftableD)
qed

lemma shift_for [shift_intros]: "(\<And>x. shiftable (f x)) \<Longrightarrow> shiftable (io_for xs f)"
  by (induction xs) (simp_all add: shift_return shift_bind)

lemma shift_if [shift_intros]: "(c \<Longrightarrow> shiftable m) \<Longrightarrow> (\<not> c \<Longrightarrow> shiftable m') \<Longrightarrow> shiftable (if c then m else m')"
  by simp

lemma shift_let [shift_intros]: "shiftable (f a) \<Longrightarrow> shiftable (let x = a in f x)"
  by simp

lemma shift_option [shift_intros]:
  "shiftable f \<Longrightarrow> (\<And>a. shiftable (g a)) \<Longrightarrow> shiftable (case r of None \<Rightarrow> f | Some a \<Rightarrow> g a)"
  by (cases r) auto

lemma shift_sum [shift_intros]:
  "(\<And>e. shiftable (f e)) \<Longrightarrow> (\<And>a. shiftable (g a)) \<Longrightarrow> shiftable (case r of Inl e \<Rightarrow> f e | Inr a \<Rightarrow> g a)"
  by (cases r) auto

lemma shift_http [shift_intros]:
  "(\<And>e. shiftable (f e)) \<Longrightarrow> (\<And>st b. shiftable (g st b)) \<Longrightarrow>
   shiftable (case r of NoResponse e \<Rightarrow> f e | Response st b \<Rightarrow> g st b)"
  by (cases r) auto

lemma shift_prod [shift_intros]: "(\<And>a b. shiftable (f a b)) \<Longrightarrow> shiftable (case x of (a, b) \<Rightarrow> f a b)"
  by (cases x) auto

text \<open>A run from any trace is a run from the empty trace in a world of its own.\<close>

lemma shifted_run:
  assumes "shiftable m" "m w tr = (r, tr')"
  obtains es where "tr' = tr @ es" "m (shift_world tr w) [] = (r, es)"
proof -
  have "apsnd ((@) tr) (m (shift_world tr w) []) = (r, tr')"
    using shiftableD [OF assms(1), of w tr "[]"] assms(2) by simp
  then have "tr' = tr @ snd (m (shift_world tr w) [])" "m (shift_world tr w) [] = (r, snd (m (shift_world tr w) []))"
    by (auto simp: apsnd_def map_prod_def split: prod.splits)
  then show ?thesis by (rule that)
qed

end
