(* ===== verification/RoundProps.thy ===== *)
theory RoundProps
  imports Shift MetricsProps ControllerProps CollectProps "HOL-Library.Sublist"
begin

text \<open>
  A round of the autoscaler or of the metrics collector as a whole: it works on the collected data
  sets one after the other, an error with one of them does not keep it from the others, and what it
  writes belongs to data sets of this operator.
\<close>

section \<open>A loop over the collected data sets\<close>

text \<open>
  Both rounds run a job for every collected data set that has scaling enabled, and go on after an
  error. The job is part of a longer run, but each of its runs is one on its own.
\<close>

locale guarded_loop =
  fixes job :: "es_resource \<Rightarrow> unit io" and each :: "es_resource list \<Rightarrow> unit io"
  assumes each_Nil: "each [] = io_return ()"
    and each_Cons: "each (es # ess) =
      io_bind (if scaling_enabled es then io_bind (io_try (job es)) (\<lambda>_. io_return ()) else io_return ()) (\<lambda>_. each ess)"
    and job_shiftable: "shiftable (job es)"
begin

definition job_run :: "es_resource \<times> trace \<Rightarrow> bool" where
  "job_run x \<longleftrightarrow> scaling_enabled (fst x) \<and> (\<exists>w r. job (fst x) w [] = (r, snd x))"

lemma each_runs:
  "each ess w tr = (r, tr') \<Longrightarrow> \<exists>runs. tr' = tr @ concat (map snd runs) \<and>
     prefix (map fst runs) (filter scaling_enabled ess) \<and> (\<forall>x \<in> set runs. job_run x) \<and>
     (r = Ok () \<and> map fst runs = filter scaling_enabled ess \<or> r = Panic)"
proof (induction ess arbitrary: tr)
  case Nil
  then show ?case by (intro exI [of _ "[]"]) (simp add: each_Nil io_return_def)
next
  case (Cons es ess)
  show ?case
  proof (cases "scaling_enabled es")
    case False
    with Cons show ?thesis by (simp add: each_Cons io_bind_def io_return_def)
  next
    case True
    obtain r1 t1 where t1: "job es w tr = (r1, t1)" by (cases "job es w tr")
    obtain run where run: "t1 = tr @ run" "job es (shift_world tr w) [] = (r1, run)"
      using shifted_run [OF job_shiftable t1] .
    then have es: "job_run (es, run)" using True by (auto simp: job_run_def)
    show ?thesis
    proof (cases "r1 = Panic")
      case panic: True
      with Cons.prems True t1 have "r = Panic" "tr' = tr @ run"
        by (auto simp: each_Cons io_bind_def io_try_def run(1))
      with es True show ?thesis by (intro exI [of _ "[(es, run)]"]) simp
    next
      case False
      with Cons.prems True t1 have "each ess w (tr @ run) = (r, tr')"
        by (cases r1) (auto simp: each_Cons io_bind_def io_try_def io_return_def run(1))
      from Cons.IH [OF this] obtain runs where
        "tr' = (tr @ run) @ concat (map snd runs)" "prefix (map fst runs) (filter scaling_enabled ess)"
        "\<forall>x \<in> set runs. job_run x" "r = Ok () \<and> map fst runs = filter scaling_enabled ess \<or> r = Panic" by blast
      with es True show ?thesis by (intro exI [of _ "(es, run) # runs"]) auto
    qed
  qed
qed

lemma each_event:
  assumes "each ess w tr = (r, tr')" "ev \<in> set tr'" "ev \<notin> set tr"
  obtains es run w' r' where "es \<in> set ess" "scaling_enabled es" "job es w' [] = (r', run)" "ev \<in> set run"
    "set run \<subseteq> set tr'"
proof -
  obtain runs where runs: "tr' = tr @ concat (map snd runs)" "prefix (map fst runs) (filter scaling_enabled ess)"
    "\<forall>x \<in> set runs. job_run x" using each_runs [OF assms(1)] by blast
  with assms(2,3) obtain es run where x: "(es, run) \<in> set runs" "ev \<in> set run" by auto
  then have "es \<in> set (filter scaling_enabled ess)"
    using set_mono_prefix [OF runs(2)] by (metis fst_conv image_eqI image_set subsetD)
  moreover obtain w' r' where "job es w' [] = (r', run)" using runs(3) x(1) by (auto simp: job_run_def)
  moreover have "set run \<subseteq> set tr'" using runs(1) x(1) by auto
  ultimately show ?thesis using that x(2) by auto
qed

end

lemma decode_shiftable [shift_intros]: "shiftable (decode r)"
  unfolding decode_def by (intro shift_intros)

lemma get_operation_shiftable: "shiftable (GetScalingOperation env es)"
  unfolding GetScalingOperation_def GetIndices_def GetShards_def GetNodes_def Let_def
  by (intro shift_intros | simp)+

lemma scale_shiftable: "shiftable (scaleEDS env es)"
  unfolding scaleEDS_def updateScalingOperation_def record_scaling_def Let_def
  by (intro shift_intros get_operation_shiftable | simp)+

lemma collect_shiftable: "shiftable (collectMetrics cv es)"
  unfolding collectMetrics_def storeMedian_def Let_def
  by (intro shift_intros | simp)+

interpretation scaling_loop: guarded_loop "scaleEDS env" "scale_each env" for env
  by unfold_locales (simp_all add: scale_shiftable)

interpretation metrics_loop: guarded_loop "Metrics.collectMetrics cv" "collect_each cv" for cv
  by unfold_locales (simp_all add: collect_shiftable)

section \<open>What a round works on\<close>

text \<open>
  Whatever the order of the loops, an entry of the collected map is an owned data set of the list
  answer, under its UID, with a metric set of its own and pods that carry its name.
\<close>

definition owned_entry :: "string \<Rightarrow> eds list \<Rightarrow> string \<times> es_resource \<Rightarrow> bool" where
  "owned_entry operatorID edss x \<longleftrightarrow>
     (\<exists>e \<in> set edss. hasOwnership operatorID e \<and> rs_eds (snd x) = typed e \<and> fst x = om_uid (eds_meta e)) \<and>
     (\<forall>ms. rs_metric_set (snd x) = Some ms \<longrightarrow> belongs_to (rs_eds (snd x)) ms) \<and>
     (\<forall>p \<in> set (rs_pods (snd x)). labelled_for p (snd x))"

lemma typed_meta [simp]: "eds_meta (with_type v k e) = eds_meta e" "eds_spec (with_type v k e) = eds_spec e"
  by (simp_all add: with_type_def)

lemma set_update: "y \<in> set (AList.update k v xs) \<Longrightarrow> y = (k, v) \<or> y \<in> set xs"
  by (induction xs) (auto split: if_splits)

lemma owned_entry_eds: "\<forall>x \<in> set (foldl (add_eds i) [] edss). owned_entry i edss x"
proof (induction edss rule: rev_induct)
  case (snoc e edss)
  have "owned_entry i (edss @ [e]) x" if "owned_entry i edss x" for x
    using that by (auto simp: owned_entry_def)
  moreover have "hasOwnership i e \<Longrightarrow>
      owned_entry i (edss @ [e]) (om_uid (eds_meta e), \<lparr>rs_eds = typed e, rs_metric_set = None, rs_pods = []\<rparr>)"
    by (auto simp: owned_entry_def)
  ultimately show ?case using snoc by (auto simp: add_eds_def dest!: set_update)
qed simp

lemma owned_entry_metric_set:
  assumes "\<forall>x \<in> set rs. owned_entry i edss x"
  shows "\<forall>x \<in> set (add_metric_set rs ms). owned_entry i edss x"
proof -
  have "owned_entry i edss (u, er\<lparr>rs_metric_set := Some ms\<rparr>)"
    if "getOwnerUID (ms_meta ms) = Some u" "map_of rs u = Some er" for u er
    using assms map_of_SomeD [OF that(2)] that(1)
    by (fastforce simp: owned_entry_def belongs_to_def labelled_for_def)
  with assms show ?thesis by (auto simp: add_metric_set_def split: option.splits dest!: set_update)
qed

lemma owned_entry_pod:
  assumes "\<And>p rs. set (order p rs) = set rs" "\<forall>x \<in> set rs. owned_entry i edss x"
  shows "\<forall>x \<in> set (add_pod order rs p). owned_entry i edss x"
proof (cases "find (\<lambda>(uid, es). labelled_for p es) (order p rs)")
  case (Some x)
  obtain u es where x: "x = (u, es)" by (cases x)
  then have "(u, es) \<in> set rs" "labelled_for p es"
    using find_SomeD [OF Some] assms(1) by auto
  with assms(2) have "owned_entry i edss (u, es\<lparr>rs_pods := rs_pods es @ [p]\<rparr>)"
    by (fastforce simp: owned_entry_def labelled_for_def)
  with assms(2) Some x show ?thesis by (auto simp: add_pod_def dest!: set_update)
qed (use assms in \<open>simp add: add_pod_def\<close>)

lemma collected_owned:
  assumes "\<And>p rs. set (order p rs) = set rs" "collectResources oc order w tr = (Ok rs, tr')"
  shows "\<exists>edss. ListEds (oc_namespace oc) (Inr edss) \<in> set tr' \<and>
    (\<forall>x \<in> set rs. owned_entry (oc_operator_id oc) edss x)"
proof -
  let ?i = "oc_operator_id oc"
  obtain edss mss ps where r: "ListEds (oc_namespace oc) (Inr edss) \<in> set tr'"
    "rs = foldl (add_pod order) (foldl add_metric_set (foldl (add_eds ?i) [] edss) mss) ps"
    using assms(2) by (auto simp: collectResources_def io_ok io_answer_def split: sum.splits)
  have "\<forall>x \<in> set (foldl add_metric_set (foldl (add_eds ?i) [] edss) mss). owned_entry ?i edss x" (is "?P mss")
    by (induction mss rule: rev_induct) (simp_all add: owned_entry_eds owned_entry_metric_set)
  then have "\<forall>x \<in> set (foldl (add_pod order) (foldl add_metric_set (foldl (add_eds ?i) [] edss) mss) ps). owned_entry ?i edss x"
    by (induction ps rule: rev_induct) (simp_all add: owned_entry_pod [OF assms(1)])
  with r show ?thesis by blast
qed

text \<open>The reading part of a round writes nothing.\<close>

fun lists :: "event \<Rightarrow> bool" where
  "lists (ListEds ns a) = True"
| "lists (ListMetricSets ns a) = True"
| "lists (ListPods ns l a) = True"
| "lists _ = False"

lemma collect_emits: "emits lists (collectResources oc order)"
  unfolding collectResources_def by (intro emits_intros) simp_all

definition collected_round ::
  "operator_config \<Rightarrow> (pod \<Rightarrow> resources \<Rightarrow> resources) \<Rightarrow> (resources \<Rightarrow> es_resource list) \<Rightarrow> (es_resource list \<Rightarrow> unit io) \<Rightarrow> unit io" where
  "collected_round oc order visit each =
     io_bind (io_try (collectResources oc order)) (\<lambda>r.
       case r of Inl _ \<Rightarrow> io_return () | Inr resources \<Rightarrow> each (visit resources))"

lemma rounds_collected:
  "autoscaler_round oc env order visit = collected_round oc order visit (scale_each env)"
  "metrics_round oc cv order visit = collected_round oc order visit (collect_each cv)"
  by (simp_all add: autoscaler_round_def metrics_round_def collected_round_def)

context guarded_loop
begin

lemma round_event:
  assumes "\<And>p rs. set (order p rs) = set rs" "\<And>rs. set (visit rs) = snd ` set rs"
    and "collected_round oc order visit each w [] = (r, tr)" "ev \<in> set tr" "\<not> lists ev"
  obtains edss e es run w' r' where "ListEds (oc_namespace oc) (Inr edss) \<in> set tr" "e \<in> set edss"
    "owned_entry (oc_operator_id oc) edss (om_uid (eds_meta e), es)" "hasOwnership (oc_operator_id oc) e" "rs_eds es = typed e"
    "scaling_enabled es" "job es w' [] = (r', run)" "ev \<in> set run" "set run \<subseteq> set tr"
proof -
  obtain rc t where c: "collectResources oc order w [] = (rc, t)" by (cases "collectResources oc order w []")
  have t: "ev \<notin> set t"
    using emits_run [OF collect_emits c] assms(5) by auto
  then obtain rs where rc: "rc = Ok rs"
    using assms(3,4) by (cases rc) (auto simp: collected_round_def io_bind_def io_try_def c io_return_def)
  with assms(3) c have run: "each (visit rs) w t = (r, tr)"
    by (simp add: collected_round_def io_bind_def io_try_def)
  from collected_owned [OF assms(1) c [unfolded rc]] obtain edss where
    edss: "ListEds (oc_namespace oc) (Inr edss) \<in> set t" "\<forall>x \<in> set rs. owned_entry (oc_operator_id oc) edss x" by blast
  from each_event [OF run assms(4) t] obtain es jr w' r' where
    es: "es \<in> set (visit rs)" "scaling_enabled es" "job es w' [] = (r', jr)" "ev \<in> set jr" "set jr \<subseteq> set tr" .
  then obtain u where u: "(u, es) \<in> set rs" using assms(2) by auto
  with edss(2) obtain e where "e \<in> set edss" "hasOwnership (oc_operator_id oc) e" "rs_eds es = typed e"
    "owned_entry (oc_operator_id oc) edss (om_uid (eds_meta e), es)"
    by (fastforce simp: owned_entry_def)
  moreover have "set t \<subseteq> set tr" using each_runs [OF run] by auto
  ultimately show ?thesis using that edss(1) es(2-5) by blast
qed

end

section \<open>The rounds\<close>

lemma unchanged_meta [simp]:
  "eds_meta (mark_scaling now n cur e) = eds_meta e" "eds_meta (set_replicas x e) = eds_meta e"
  "om_uid (eds_meta (set_annotations m e)) = om_uid (eds_meta e)"
  by (simp_all add: mark_scaling_def set_replicas_def set_annotations_def)

lemma record_identity:
  assumes "record_scaling op cur e w tr = (Ok e1, tr1)"
  shows "eds_meta e1 = eds_meta e \<or>
    (\<exists>e2 b. UpdateEdsStatus e2 (Inr b) \<in> set tr1 \<and> eds_meta e2 = eds_meta e \<and> eds_meta e1 = eds_meta b)"
proof (cases "eds_meta e1 = eds_meta e")
  case False
  then obtain n now b where "tr1 = tr @ [Now now, UpdateEdsStatus (mark_scaling now n cur e) (Inr b)]" "e1 = set_replicas (Some n) b"
    using assms by (cases "so_node_replicas op") (auto simp: record_scaling_def io_ok Let_def split: if_splits)
  then have "UpdateEdsStatus (mark_scaling now n cur e) (Inr b) \<in> set tr1 \<and>
      eds_meta (mark_scaling now n cur e) = eds_meta e \<and> eds_meta e1 = eds_meta b" by simp
  then show ?thesis by blast
qed simp

lemma scale_identity:
  assumes "scaleEDS env es w [] = (r, tr)" "UpdateEds e' a \<in> set tr"
  shows "om_uid (eds_meta e') = om_uid (eds_meta (rs_eds es)) \<or>
    (\<exists>e2 b. UpdateEdsStatus e2 (Inr b) \<in> set tr \<and> eds_meta e2 = eds_meta (rs_eds es) \<and>
       om_uid (eds_meta e') = om_uid (eds_meta b))"
proof -
  obtain cur where
    run: "updateScalingOperation env (es\<lparr>rs_eds := set_replicas (Some cur) (rs_eds es)\<rparr>) cur w [] = (r, tr)"
    using scale_run [OF assms] by blast
  from update_operation_run [OF this assms(2)] obtain op t e1 t1 m where
    rec: "record_scaling op cur (set_replicas (Some cur) (rs_eds es)) w t = (Ok e1, t1)"
    and e': "e' = set_annotations m e1" "tr = t1 @ [UpdateEds e' a]" by auto
  have "om_uid (eds_meta e') = om_uid (eds_meta e1)" by (simp add: e'(1))
  moreover have "set t1 \<subseteq> set tr" by (auto simp: e'(2))
  moreover have "eds_meta e1 = eds_meta (rs_eds es) \<or>
    (\<exists>e2 b. UpdateEdsStatus e2 (Inr b) \<in> set t1 \<and> eds_meta e2 = eds_meta (rs_eds es) \<and> eds_meta e1 = eds_meta b)"
    using record_identity [OF rec] by simp
  ultimately show ?thesis by (metis subsetD)
qed


text \<open>A run of the collector: the sample it adds, to a metric set of the data set.\<close>

lemma collect_write:
  assumes "Metrics.collectMetrics cv es w [] = (r, tr)" "ev \<in> set tr" "written_set ev = Some ms" "scaling_enabled es"
    and "\<forall>old. rs_metric_set es = Some old \<longrightarrow> belongs_to (rs_eds es) old"
  shows "belongs_to (rs_eds es) ms \<and>
    (\<exists>kept t v. ms_metrics ms = kept @ [\<lparr>mt_timestamp = t, mt_value = v\<rparr>] \<and> Now t \<in> set tr)"
proof -
  obtain sc where sc: "sp_scaling (eds_spec (rs_eds es)) = Some sc"
    using assms(4) by (auto simp: scaling_enabled_def split: option.splits)
  have "is_metric_write ev" using assms(3) by (cases ev) simp_all
  then obtain v metrics where st: "storeMedian cv es v w [ListPodMetrics (eds_namespace (rs_eds es)) (Inr metrics)] = (r, tr)"
    using collect_run [OF assms(1,2)] by auto
  have "Now (w_now w [ListPodMetrics (eds_namespace (rs_eds es)) (Inr metrics)]) \<in> set tr"
    using store_median_run [OF st sc] by (auto split: option.splits)
  with written_shape [OF st assms(2,3) sc assms(5)] show ?thesis by blast
qed

text \<open>
  A round of the collector writes metric sets of this operator's data sets only: the one owner
  reference of a metric set that it creates or updates is a data set of the list it has just read,
  owned by this operator and with scaling enabled; the last sample is the one just taken.
\<close>

theorem collector_round_writes:
  assumes "\<And>p rs. set (order p rs) = set rs" "\<And>rs. set (visit rs) = snd ` set rs"
    and "metrics_round oc cv order visit w [] = (r, tr)" "ev \<in> set tr" "written_set ev = Some ms"
  shows "\<exists>edss e kept t v. ListEds (oc_namespace oc) (Inr edss) \<in> set tr \<and> e \<in> set edss \<and>
    hasOwnership (oc_operator_id oc) e \<and> (\<exists>sc. sp_scaling (eds_spec e) = Some sc \<and> sc_enabled sc) \<and>
    belongs_to e ms \<and> ms_metrics ms = kept @ [\<lparr>mt_timestamp = t, mt_value = v\<rparr>] \<and> Now t \<in> set tr"
proof -
  have "\<not> lists ev" using assms(5) by (cases ev) simp_all
  from metrics_loop.round_event [OF assms(1,2) assms(3) [unfolded rounds_collected] assms(4) this]
  obtain edss e es run w' r' where e: "ListEds (oc_namespace oc) (Inr edss) \<in> set tr" "e \<in> set edss"
    "owned_entry (oc_operator_id oc) edss (om_uid (eds_meta e), es)" "hasOwnership (oc_operator_id oc) e"
    and es: "rs_eds es = typed e" "scaling_enabled es"
    and run: "Metrics.collectMetrics cv es w' [] = (r', run)" "ev \<in> set run" "set run \<subseteq> set tr" .
  have "\<forall>old. rs_metric_set es = Some old \<longrightarrow> belongs_to (rs_eds es) old"
    using e(3) by (simp add: owned_entry_def)
  from collect_write [OF run(1,2) assms(5) es(2) this] obtain kept t v where
    w: "belongs_to e ms" "ms_metrics ms = kept @ [\<lparr>mt_timestamp = t, mt_value = v\<rparr>]" "Now t \<in> set run"
    by (auto simp: es(1) belongs_to_def)
  have "\<exists>sc. sp_scaling (eds_spec e) = Some sc \<and> sc_enabled sc"
    using es by (auto simp: scaling_enabled_def split: option.splits)
  with e(1,2,4) w run(3) show ?thesis by blast
qed

end
