(* ===== verification/ProcessProps.thy ===== *)
theory ProcessProps
  imports Process WatchProps RoundProps EdsResourceProps
begin

text \<open>
  Invariants of the whole process: its event handling is the one of Watch, every recorded round is
  a round of its thread, rounds of a thread keep their distance, and those of a data set never
  overlap.
\<close>

section \<open>The event handling of the process\<close>

lemma handleSigterm_simps [simp]:
  "pr_controller (handleSigterm p) = pr_controller p" "pr_rounds (handleSigterm p) = pr_rounds p"
  "pr_tickers (handleSigterm p) = pr_tickers p" "pr_time (handleSigterm p) = pr_time p"
  by (simp_all add: handleSigterm_def)

lemma set_thread_simps [simp]:
  "pr_tickers (set_thread ph th tk p) = (pr_tickers p)(th := tk)" "pr_time (set_thread ph th tk p) = pr_time p"
  "pr_stage (set_thread ph th tk p) = pr_stage p" "pr_rounds (set_thread ph th tk p) = pr_rounds p"
  "pr_controller (set_thread ph th tk p) =
     (case th of Worker i \<Rightarrow> set_phase ph i (pr_controller p) | _ \<Rightarrow> pr_controller p)"
  by (simp_all add: set_thread_def)

lemma end_round_simps [simp]:
  "pr_tickers (end_round pg th r tr p) = (pr_tickers p)(th := enter_select (pr_time p) (pr_tickers p th))"
  "pr_time (end_round pg th r tr p) = pr_time p"
  "pr_controller (end_round pg th r tr p) =
     (case th of Worker i \<Rightarrow> set_phase AtSelect i (pr_controller p) | _ \<Rightarrow> pr_controller p)"
  "pr_rounds (end_round pg th r tr p) = pr_rounds p @
     [\<lparr>rd_thread = th, rd_start = tk_started (pr_tickers p th), rd_end = pr_time p, rd_result = r, rd_trace = tr\<rparr>]"
  "pr_stage (end_round pg th r tr p) = (if r = Panic then Crashed else pr_stage p)"
  by (simp_all add: end_round_def)

text \<open>A step of the process is a step of the event handling or leaves it alone.\<close>

lemma process_step_watch:
  "process_step pg p p' \<Longrightarrow> pr_controller p' = pr_controller p \<or>
     internal_step (pg_config pg) (pr_controller p) (pr_controller p')"
proof (erule process_stepE)
  fix th assume p': "p' = set_thread Operating th (fire (interval_of pg th p) (pr_time p) (pr_tickers p th)) p"
    "in_phase AtSelect th p"
  then show ?thesis by (cases th) (auto simp: in_phase_def intro: internal_step.timer)
next
  fix th r tr assume "p' = end_round pg th r tr p" "in_phase Operating th p"
  then show ?thesis by (cases th) (auto simp: in_phase_def intro: internal_step.operated)
next
  fix th assume "p' = set_thread Sending th (stop_loop (pr_tickers p th)) p" "in_phase AtSelect th p" "context_done th p"
  then show ?thesis
    by (cases th) (auto simp: in_phase_def context_done_def worker_loop_def intro: internal_step.done_chosen)
qed (auto intro: internal_step.rendezvous)

lemma executes_runs: "executes pg h p \<Longrightarrow> runs (pg_config pg) h (pr_controller p)"
proof (induction rule: executes.induct)
  case (initial now)
  then show ?case by (simp add: initial_process_def runs.start)
next
  case (event h p e deleted)
  then show ?case by (simp add: runs.event)
next
  case (step h p p')
  then show ?case using process_step_watch by (metis runs.internal)
qed

section \<open>What a goroutine was started with\<close>

definition loop_key :: "loop \<Rightarrow> eds \<times> draining_config \<times> duration" where
  "loop_key l = (lp_eds l, lp_draining l, lp_interval l)"

definition keys :: "controller \<Rightarrow> (eds \<times> draining_config \<times> duration) list" where
  "keys c = map loop_key (cn_loops c)"

definition job_for :: "operator_config \<Rightarrow> eds \<Rightarrow> eds \<times> draining_config \<times> duration" where
  "job_for oc e = (typed e, getDrainingConfig (typed e), oc_interval oc)"

lemma keys_update_loop [simp]:
  "(\<And>l. loop_key (f l) = loop_key l) \<Longrightarrow> keys (update_loop i f c) = keys c"
  by (cases "i < length (cn_loops c)")
    (auto simp: keys_def update_loop_def map_update list_update_id nth_map list_update_beyond
      intro!: nth_equalityI simp: nth_list_update)

lemma keys_simps [simp]:
  "keys (set_phase ph i c) = keys c" "keys (c\<lparr>cn_handler := x\<rparr>) = keys c"
  "keys (update_loop i (\<lambda>l. l\<lparr>lp_cancelled := True\<rparr>) c) = keys c"
  by (simp_all add: set_phase_def loop_key_def) (simp add: keys_def)

lemma keys_finish_event:
  "keys (finish_event oc (typed e) d c) =
     keys c @ (if \<not> d \<and> hasOwnership (oc_operator_id oc) e then [job_for oc e] else [])"
  by (simp add: finish_event_def start_loop_def keys_def loop_key_def job_for_def)

text \<open>Every goroutine works for an event with a data set of this operator.\<close>

definition jobs_for :: "operator_config \<Rightarrow> (eds \<times> bool) list \<Rightarrow> controller \<Rightarrow> bool" where
  "jobs_for oc h c \<longleftrightarrow> (\<forall>k \<in> set (keys c). \<exists>e. (e, False) \<in> set h \<and> hasOwnership (oc_operator_id oc) e \<and> k = job_for oc e)"

lemma jobs_for_finish:
  "jobs_for oc h c \<Longrightarrow> (e, d) \<in> set h' \<Longrightarrow> set h \<subseteq> set h' \<Longrightarrow> jobs_for oc h' (finish_event oc (typed e) d c)"
  by (auto simp: jobs_for_def keys_finish_event)

lemma jobs_for_mono: "jobs_for oc h c \<Longrightarrow> keys c' = keys c \<Longrightarrow> set h \<subseteq> set h' \<Longrightarrow> jobs_for oc h' c'"
  unfolding jobs_for_def by (metis subsetD)

lemma keys_operateEDS:
  "keys (operateEDS oc e d c) =
     keys c @ (if map_of (cn_operating c) (eds_uid e) = None \<and> \<not> d \<and> hasOwnership (oc_operator_id oc) e then [job_for oc e] else [])"
  by (auto simp: operateEDS_def Let_def keys_finish_event split: option.splits)

lemma keys_internal_step:
  "internal_step oc c c' \<Longrightarrow> keys c' = keys c \<or>
     (\<exists>i e d. cn_handler c = Receiving i e d \<and> c' = finish_event oc e d (set_phase Returned i c))"
  by (erule internal_stepE) auto

lemma runs_jobs: "runs oc h c \<Longrightarrow> jobs_for oc h c"
proof (induction rule: runs.induct)
  case start
  then show ?case by (simp add: jobs_for_def keys_def initial_controller_def)
next
  case (event h c e deleted)
  then show ?case by (auto simp: jobs_for_def keys_operateEDS)
next
  case (internal h c c')
  from keys_internal_step [OF internal(2)] show ?case
  proof (elim disjE exE conjE)
    assume "keys c' = keys c"
    with internal(3) show ?thesis by (rule jobs_for_mono) simp
  next
    fix i e d assume r: "cn_handler c = Receiving i e d" "c' = finish_event oc e d (set_phase Returned i c)"
    then obtain h' e0 where "h = h' @ [(e0, d)]" "e = typed e0"
      using runs_inv [OF internal(1)] by (auto simp: watch_inv_def well_received_def)
    moreover have "jobs_for oc h (set_phase Returned i c)" using internal(3) by (rule jobs_for_mono) simp_all
    ultimately show ?thesis using jobs_for_finish [of oc h "set_phase Returned i c" e0 d h] by (simp add: r(2))
  qed
qed

text \<open>The goroutines that there are keep what they were started with.\<close>

lemma keys_step:
  assumes "internal_step oc c c'" "runs oc h c"
  shows "\<exists>ks. keys c' = keys c @ ks"
  using keys_internal_step [OF assms(1)]
proof (elim disjE exE conjE)
  fix i e d assume r: "cn_handler c = Receiving i e d" "c' = finish_event oc e d (set_phase Returned i c)"
  then obtain e0 where "e = typed e0"
    using runs_inv [OF assms(2)] by (auto simp: watch_inv_def well_received_def)
  then show ?thesis by (simp add: r(2) keys_finish_event)
qed simp

lemma keys_kept:
  assumes "executes pg h p" "process_step pg p p'"
  shows "\<exists>ks. keys (pr_controller p') = keys (pr_controller p) @ ks"
  using process_step_watch [OF assms(2)] keys_step [OF _ executes_runs [OF assms(1)]] by (metis append_Nil2)

lemma key_kept:
  assumes "executes pg h p" "process_step pg p p'" "i < length (keys (pr_controller p))"
  shows "i < length (keys (pr_controller p')) \<and> keys (pr_controller p') ! i = keys (pr_controller p) ! i"
  using keys_kept [OF assms(1,2)] assms(3) by (auto simp: nth_append)

lemma event_key_kept:
  "i < length (keys c) \<Longrightarrow> i < length (keys (operateEDS oc e d c)) \<and> keys (operateEDS oc e d c) ! i = keys c ! i"
  by (auto simp: keys_operateEDS nth_append)

lemma length_keys [simp]: "length (keys c) = length (cn_loops c)"
  by (simp add: keys_def)

lemma job_of_worker:
  assumes "executes pg h p" "i < length (cn_loops (pr_controller p))"
  obtains e where "(e, False) \<in> set h" "hasOwnership (oc_operator_id (pg_config pg)) e"
    "keys (pr_controller p) ! i = job_for (pg_config pg) e"
proof -
  have "keys (pr_controller p) ! i \<in> set (keys (pr_controller p))" using assms(2) by simp
  from bspec [OF runs_jobs [OF executes_runs [OF assms(1)], unfolded jobs_for_def] this]
  obtain e where "(e, False) \<in> set h \<and> hasOwnership (oc_operator_id (pg_config pg)) e \<and>
    keys (pr_controller p) ! i = job_for (pg_config pg) e" ..
  then show ?thesis using that [of e] by (elim conjE) assumption
qed

section \<open>Recorded rounds are rounds of their thread\<close>

definition genuine :: "program \<Rightarrow> controller \<Rightarrow> round \<Rightarrow> bool" where
  "genuine pg c rd \<longleftrightarrow> (\<exists>w.
     (case rd_thread rd of
        Collector \<Rightarrow> metrics_round (pg_config pg) (pg_convert pg) (pg_order pg) (pg_visit pg) w []
      | Autoscaler \<Rightarrow> autoscaler_round (pg_config pg)
          ((pg_scaling pg)\<lparr>sn_interval := oc_metrics_interval (pg_config pg)\<rparr>) (pg_order pg) (pg_visit pg) w []
      | Worker i \<Rightarrow> operate (pg_backoff pg) (oc_priority_node_selectors (pg_config pg))
          (GetResource \<lparr>en_json = sn_json (pg_scaling pg), en_retry = pg_retry pg, en_draining = fst (snd (keys c ! i))\<rparr>
            (fst (keys c ! i))) w []) = (rd_result rd, rd_trace rd)) \<and>
     (case rd_thread rd of Worker i \<Rightarrow> i < length (cn_loops c) | _ \<Rightarrow> True)"

lemma genuine_kept:
  assumes "genuine pg c rd"
    and "\<And>i. i < length (cn_loops c) \<Longrightarrow> i < length (cn_loops c') \<and> keys c' ! i = keys c ! i"
  shows "genuine pg c' rd"
  using assms by (cases "rd_thread rd") (auto simp: genuine_def)

lemma genuine_end:
  assumes "in_phase Operating th p" "round_of pg th p w [] = (r, tr)" "rd_thread rd = th" "rd_result rd = r" "rd_trace rd = tr"
  shows "genuine pg (pr_controller p) rd"
  using assms
  by (cases th) (auto simp: genuine_def round_of_def worker_round_def worker_env_def worker_loop_def in_phase_def
      phase_is_def keys_def loop_key_def)

lemma process_step_rounds:
  "process_step pg p p' \<Longrightarrow> pr_rounds p' = pr_rounds p \<or>
     (\<exists>th r tr w. p' = end_round pg th r tr p \<and> in_phase Operating th p \<and>
        tk_phase (pr_tickers p th) = InRound \<and> round_of pg th p w [] = (r, tr))"
  by (erule process_stepE) auto

lemma rounds_genuine: "executes pg h p \<Longrightarrow> \<forall>rd \<in> set (pr_rounds p). genuine pg (pr_controller p) rd"
proof (induction rule: executes.induct)
  case (initial now)
  then show ?case by (simp add: initial_process_def)
next
  case (event h p e deleted)
  have "genuine pg (operateEDS (pg_config pg) e deleted (pr_controller p)) rd" if "genuine pg (pr_controller p) rd" for rd
    using genuine_kept [OF that] event_key_kept by simp
  with event.IH show ?case by simp
next
  case (step h p p')
  have kept: "genuine pg (pr_controller p') rd" if "genuine pg (pr_controller p) rd" for rd
    using genuine_kept [OF that, of "pr_controller p'"] key_kept [OF step(1,2)] by simp
  from process_step_rounds [OF step(2)] show ?case
  proof (elim disjE exE conjE)
    assume "pr_rounds p' = pr_rounds p"
    with step(3) kept show ?thesis by auto
  next
    fix th r tr w
    assume fin: "p' = end_round pg th r tr p" "in_phase Operating th p" "round_of pg th p w [] = (r, tr)"
    let ?rd = "\<lparr>rd_thread = th, rd_start = tk_started (pr_tickers p th), rd_end = pr_time p, rd_result = r, rd_trace = tr\<rparr>"
    have "genuine pg (pr_controller p) ?rd" by (rule genuine_end [OF fin(2,3)]) simp_all
    with step(3) kept show ?thesis by (auto simp: fin(1))
  qed
qed

section \<open>Rounds of a thread keep their distance\<close>

definition period :: "program \<Rightarrow> thread \<Rightarrow> int" where
  "period pg th = sint (case th of
     Collector \<Rightarrow> oc_metrics_interval (pg_config pg)
   | Autoscaler \<Rightarrow> oc_autoscaler_interval (pg_config pg)
   | Worker i \<Rightarrow> oc_interval (pg_config pg))"

lemma interval_period:
  assumes "executes pg h p" "in_phase ph th p"
  shows "sint (interval_of pg th p) = period pg th"
proof (cases th)
  case (Worker i)
  then have i: "i < length (cn_loops (pr_controller p))" using assms(2) by (simp add: in_phase_def phase_is_def)
  from job_of_worker [OF assms(1) i] obtain e where "keys (pr_controller p) ! i = job_for (pg_config pg) e" .
  with i Worker show ?thesis by (simp add: interval_of_def period_def worker_loop_def keys_def loop_key_def job_for_def)
qed (simp_all add: interval_of_def period_def)

definition round_starts :: "thread \<Rightarrow> process \<Rightarrow> time list" where
  "round_starts th p = map rd_start (filter (\<lambda>rd. rd_thread rd = th) (pr_rounds p))"

definition all_starts :: "ticker \<Rightarrow> time list \<Rightarrow> time list" where
  "all_starts tk ss = ss @ (if tk_phase tk = InRound then [tk_started tk] else [])"

definition spaced :: "int \<Rightarrow> ticker \<Rightarrow> time list \<Rightarrow> bool" where
  "spaced d tk ss \<longleftrightarrow> successively (\<lambda>a b. a + d \<le> b) (all_starts tk ss) \<and>
     (all_starts tk ss \<noteq> [] \<longrightarrow> tk_next tk = last (all_starts tk ss) + d) \<and>
     (tk_phase tk = Waiting \<longrightarrow> tk_next tk \<le> tk_deadline tk) \<and>
     (tk_phase tk = NotBegun \<longrightarrow> ss = [])"

lemma spaced_unbegun: "spaced d unbegun []"
  by (simp add: spaced_def all_starts_def)

lemma spaced_begin: "spaced d tk ss \<Longrightarrow> tk_phase tk = NotBegun \<Longrightarrow> spaced d (begin_loop i t) ss"
  by (simp add: spaced_def all_starts_def begin_loop_def)

lemma spaced_fire:
  "spaced d tk ss \<Longrightarrow> can_fire t tk \<Longrightarrow> sint i = d \<Longrightarrow> spaced d (fire i t tk) ss"
  by (auto simp: spaced_def all_starts_def can_fire_def successively_append_iff)

lemma spaced_finish:
  "spaced d tk ss \<Longrightarrow> tk_phase tk = InRound \<Longrightarrow> spaced d (enter_select t tk) (ss @ [tk_started tk])"
  by (simp add: spaced_def all_starts_def)

lemma spaced_stop: "spaced d tk ss \<Longrightarrow> tk_phase tk = Waiting \<Longrightarrow> spaced d (stop_loop tk) ss"
  by (simp add: spaced_def all_starts_def)

lemma process_spaced: "executes pg h p \<Longrightarrow> spaced (period pg th) (pr_tickers p th) (round_starts th p)"
proof (induction arbitrary: th rule: executes.induct)
  case (initial now)
  then show ?case by (simp add: initial_process_def round_starts_def spaced_unbegun)
next
  case (event h p e deleted)
  then show ?case by (simp add: round_starts_def)
next
  case (step h p p')
  from step(2) show ?case
  proof cases
    case (enter th')
    then show ?thesis using step(3) [of th] spaced_begin [of _ "pr_tickers p th"] by (auto simp: round_starts_def)
  next
    case (tick th')
    then show ?thesis
      using step(3) [of th] spaced_fire [of "period pg th" "pr_tickers p th" "round_starts th p"] interval_period [OF step(1)]
      by (auto simp: round_starts_def)
  next
    case (finish th' w r tr)
    then show ?thesis using step(3) [of th] spaced_finish [of _ "pr_tickers p th"] by (auto simp: round_starts_def)
  next
    case (stop th')
    then show ?thesis using step(3) [of th] spaced_stop [of _ "pr_tickers p th"] by (auto simp: round_starts_def)
  qed (use step(3) [of th] in \<open>simp_all add: round_starts_def\<close>)
qed

lemma spaced_nth:
  fixes xs :: "int list"
  assumes "successively (\<lambda>a b. a + d \<le> b) xs" "k < length xs"
  shows "xs ! 0 + int k * d \<le> xs ! k"
  using assms(2)
proof (induction k)
  case (Suc k)
  then have "xs ! k + d \<le> xs ! Suc k" using assms(1) by (simp add: successively_conv_nth)
  with Suc show ?case by (simp add: algebra_simps)
qed simp

text \<open>
  C35. However the process runs, the rounds of a thread start at least its interval apart: the metrics
  collector every minute at most, the autoscaler and each goroutine at the configured interval. So
  the k-th round starts no earlier than k intervals after the first one.
\<close>

theorem rounds_spaced:
  assumes "executes pg h p"
  shows "successively (\<lambda>a b. a + period pg th \<le> b) (round_starts th p) \<and>
    (\<forall>k < length (round_starts th p). round_starts th p ! 0 + int k * period pg th \<le> round_starts th p ! k) \<and>
    (round_starts th p \<noteq> [] \<and> can_fire (pr_time p) (pr_tickers p th) \<longrightarrow>
       last (round_starts th p) + period pg th \<le> pr_time p)"
proof -
  have sp: "spaced (period pg th) (pr_tickers p th) (round_starts th p)" by (rule process_spaced [OF assms])
  then have succ: "successively (\<lambda>a b. a + period pg th \<le> b) (round_starts th p)"
    by (auto simp: spaced_def all_starts_def successively_append_iff split: if_splits)
  have last: "round_starts th p \<noteq> [] \<and> can_fire (pr_time p) (pr_tickers p th) \<longrightarrow>
       last (round_starts th p) + period pg th \<le> pr_time p"
    using sp by (auto simp: spaced_def all_starts_def can_fire_def)
  show ?thesis by (rule conjI [OF succ conjI [OF _ last]]) (use spaced_nth [OF succ] in blast)
qed

section \<open>Rounds of a data set do not overlap\<close>

definition worker_uid :: "controller \<Rightarrow> thread \<Rightarrow> string option" where
  "worker_uid c th = (case th of Worker i \<Rightarrow> if i < length (cn_loops c) then Some (eds_uid (fst (keys c ! i))) else None | _ \<Rightarrow> None)"

definition same_set :: "controller \<Rightarrow> thread \<Rightarrow> thread \<Rightarrow> bool" where
  "same_set c th th' \<longleftrightarrow> worker_uid c th \<noteq> None \<and> worker_uid c th = worker_uid c th'"

definition apart :: "process \<Rightarrow> bool" where
  "apart p \<longleftrightarrow>
     sorted_wrt (\<lambda>a b. same_set (pr_controller p) (rd_thread a) (rd_thread b) \<longrightarrow> rd_end a \<le> rd_start b) (pr_rounds p) \<and>
     (\<forall>a \<in> set (pr_rounds p). rd_end a \<le> pr_time p) \<and>
     (\<forall>th. in_phase Operating th p \<longrightarrow> (\<forall>a \<in> set (pr_rounds p).
        same_set (pr_controller p) (rd_thread a) th \<longrightarrow> rd_end a \<le> tk_started (pr_tickers p th)))"

text \<open>Two goroutines that operate on the same data set are the same.\<close>

lemma operating_same:
  assumes "executes pg h p" "in_phase Operating th p" "in_phase Operating th' p" "same_set (pr_controller p) th th'"
  shows "th = th'"
proof -
  let ?c = "pr_controller p"
  obtain i j where ij: "th = Worker i" "th' = Worker j" "i < length (cn_loops ?c)" "j < length (cn_loops ?c)"
    "eds_uid (lp_eds (cn_loops ?c ! i)) = eds_uid (lp_eds (cn_loops ?c ! j))"
    using assms(4) by (cases th; cases th') (auto simp: same_set_def worker_uid_def keys_def loop_key_def split: if_splits)
  have wt: "well_tabled ?c" using runs_inv [OF executes_runs [OF assms(1)]] by (simp add: watch_inv_def)
  have "lp_phase (cn_loops ?c ! i) = Operating" "lp_phase (cn_loops ?c ! j) = Operating"
    using assms(2,3) ij(1,2) by (simp_all add: in_phase_def phase_is_def)
  then have "map_of (cn_operating ?c) (eds_uid (lp_eds (cn_loops ?c ! i))) = Some i"
    "map_of (cn_operating ?c) (eds_uid (lp_eds (cn_loops ?c ! j))) = Some j"
    using tabledD(2) [OF wt ij(3)] tabledD(2) [OF wt ij(4)] by simp_all
  then have "i = j" unfolding ij(5) by (rule option.inject [THEN iffD1, OF trans [OF sym]])
  with ij(1,2) show ?thesis by simp
qed

lemma worker_uid_keys: "keys c = keys c' \<Longrightarrow> worker_uid c th = worker_uid c' th"
  by (cases th) (auto simp: worker_uid_def dest: arg_cong [where f = length])

lemma set_phase_length [simp]: "length (cn_loops (set_phase ph i c)) = length (cn_loops c)"
  by (simp add: set_phase_def)

text \<open>What the steps do to the goroutines that operate.\<close>

lemma operating_set_phase:
  "phase_is Operating j (set_phase ph i c) \<Longrightarrow> phase_is Operating j c \<or> (j = i \<and> ph = Operating)"
  by (cases "i < length (cn_loops c)") (auto simp: phase_is_def set_phase_def update_loop_def nth_list_update split: if_splits)

lemma operating_finish_event: "phase_is Operating j (finish_event oc e d c) \<Longrightarrow> phase_is Operating j c"
  by (auto simp: finish_event_def phase_is_def less_Suc_eq split: if_splits)

lemma operating_event: "phase_is Operating j (operateEDS oc e d c) \<Longrightarrow> phase_is Operating j c"
proof -
  assume op: "phase_is Operating j (operateEDS oc e d c)"
  show ?thesis
  proof (cases "map_of (cn_operating c) (eds_uid e)")
    case None
    with op show ?thesis by (auto simp: operateEDS_def Let_def dest: operating_finish_event)
  next
    case (Some i)
    with op show ?thesis
      by (cases "i < length (cn_loops c)") (auto simp: operateEDS_def Let_def phase_is_def update_loop_def nth_list_update split: if_splits)
  qed
qed

definition kept :: "controller \<Rightarrow> controller \<Rightarrow> bool" where
  "kept c c' \<longleftrightarrow> (\<forall>i < length (cn_loops c). i < length (cn_loops c') \<and> keys c' ! i = keys c ! i)"

definition known :: "controller \<Rightarrow> thread \<Rightarrow> bool" where
  "known c th \<longleftrightarrow> (case th of Worker i \<Rightarrow> i < length (cn_loops c) | _ \<Rightarrow> True)"

lemma kept_step: "executes pg h p \<Longrightarrow> process_step pg p p' \<Longrightarrow> kept (pr_controller p) (pr_controller p')"
  using key_kept [of pg h p p'] by (simp add: kept_def)

lemma kept_event: "kept c (operateEDS oc e d c)"
  using event_key_kept [of _ c] by (simp add: kept_def)

lemma same_set_kept:
  "kept c c' \<Longrightarrow> known c th \<Longrightarrow> known c th' \<Longrightarrow> same_set c' th th' = same_set c th th'"
  by (cases th; cases th') (auto simp: same_set_def worker_uid_def kept_def known_def)

lemma rounds_known: "executes pg h p \<Longrightarrow> rd \<in> set (pr_rounds p) \<Longrightarrow> known (pr_controller p) (rd_thread rd)"
  using rounds_genuine [of pg h p] by (auto simp: genuine_def known_def)

lemma operating_known: "in_phase ph th p \<Longrightarrow> known (pr_controller p) th"
  by (cases th) (auto simp: in_phase_def known_def phase_is_def)

text \<open>A step that records nothing: whatever operates did so before, or starts now.\<close>

lemma apart_unrecorded:
  assumes "executes pg h p" "apart p" "kept (pr_controller p) (pr_controller p')" "pr_rounds p' = pr_rounds p"
    and "pr_time p \<le> pr_time p'"
    and "\<And>i. phase_is Operating i (pr_controller p') \<Longrightarrow>
      phase_is Operating i (pr_controller p) \<and> tk_started (pr_tickers p' (Worker i)) = tk_started (pr_tickers p (Worker i)) \<or>
      pr_time p \<le> tk_started (pr_tickers p' (Worker i))"
  shows "apart p'"
proof -
  let ?c = "pr_controller p" and ?c' = "pr_controller p'"
  have rs: "sorted_wrt (\<lambda>a b. same_set ?c' (rd_thread a) (rd_thread b) \<longrightarrow> rd_end a \<le> rd_start b) (pr_rounds p)"
    using assms(2) same_set_kept [OF assms(3)] rounds_known [OF assms(1)]
    unfolding apart_def by (auto elim!: sorted_wrt_mono_rel [rotated])
  have "rd_end a \<le> tk_started (pr_tickers p' th)"
    if a: "a \<in> set (pr_rounds p)" and th: "in_phase Operating th p'" "same_set ?c' (rd_thread a) th" for a th
  proof -
    from th(2) obtain i where i: "th = Worker i" by (cases th) (auto simp: same_set_def worker_uid_def)
    with th(1) have "phase_is Operating i ?c'" by (simp add: in_phase_def)
    from assms(6) [OF this] show ?thesis
    proof (elim disjE conjE)
      assume *: "phase_is Operating i ?c" "tk_started (pr_tickers p' (Worker i)) = tk_started (pr_tickers p (Worker i))"
      then have "known ?c th" by (simp add: i known_def phase_is_def)
      with th(2) same_set_kept [OF assms(3) rounds_known [OF assms(1) a]] have "same_set ?c (rd_thread a) th" by simp
      with assms(2) a * i show ?thesis by (auto simp: apart_def in_phase_def)
    next
      assume "pr_time p \<le> tk_started (pr_tickers p' (Worker i))"
      with assms(2) a i show ?thesis by (fastforce simp: apart_def)
    qed
  qed
  with rs assms(2,4,5) show ?thesis by (fastforce simp: apart_def)
qed

text \<open>A step that records a round: it has ended before the present, and nobody else works on its data set.\<close>

lemma apart_recorded:
  assumes "executes pg h p" "apart p" "in_phase Operating th p"
  shows "apart (end_round pg th r tr p)"
proof -
  let ?c = "pr_controller p" and ?p = "end_round pg th r tr p"
  let ?rd = "\<lparr>rd_thread = th, rd_start = tk_started (pr_tickers p th), rd_end = pr_time p, rd_result = r, rd_trace = tr\<rparr>"
  have keys: "keys (pr_controller ?p) = keys ?c" by (simp split: thread.splits)
  then have same: "same_set (pr_controller ?p) a b = same_set ?c a b" for a b
    using worker_uid_keys [OF keys] by (simp add: same_set_def)
  have ops: "in_phase Operating th' p \<and> th' \<noteq> th"
    if "in_phase Operating th' ?p" "same_set ?c x th'" for th' x
  proof (cases th')
    case (Worker j)
    with that(1) have j: "phase_is Operating j (pr_controller ?p)" by (simp add: in_phase_def)
    show ?thesis
    proof (cases "th = th'")
      case True
      with j Worker assms(3) show ?thesis by (auto simp: in_phase_def phase_is_def set_phase_def)
    next
      case False
      with j Worker show ?thesis
        by (cases th) (auto simp: in_phase_def dest: operating_set_phase)
    qed
  qed (use that(2) in \<open>auto simp: same_set_def worker_uid_def\<close>)
  have "rd_end a \<le> tk_started (pr_tickers p th')"
    if "a \<in> set (pr_rounds ?p)" "in_phase Operating th' ?p" "same_set ?c (rd_thread a) th'" for a th'
  proof (cases "a \<in> set (pr_rounds p)")
    case True
    with assms(2) ops [OF that(2,3)] that(3) show ?thesis by (auto simp: apart_def)
  next
    case False
    with that(1) have "a = ?rd" by simp
    with that(3) have "same_set ?c th th'" by simp
    with operating_same [OF assms(1,3)] ops [OF that(2,3)] have False by blast
    then show ?thesis ..
  qed
  moreover have "tk_started (pr_tickers ?p th') = tk_started (pr_tickers p th')" for th' by simp
  ultimately show ?thesis
    using assms(2,3) unfolding apart_def same by (auto simp: sorted_wrt_append)
qed

lemma process_apart: "executes pg h p \<Longrightarrow> apart p"
proof (induction rule: executes.induct)
  case (initial now)
  then show ?case
    by (auto simp: apart_def initial_process_def)
next
  case (event h p e deleted)
  show ?case
    by (rule apart_unrecorded [OF event(1,4)]) (auto simp: kept_event dest: operating_event)
next
  case (step h p p')
  note kept = kept_step [OF step(1,2)] and unrecorded = apart_unrecorded [OF step(1,3)]
  from step(2) show ?case
  proof cases
    case (tick th)
    then show ?thesis
      by (cases th; intro unrecorded [OF kept]) (auto dest: operating_set_phase)
  next
    case (finish th w r tr)
    then show ?thesis using apart_recorded [OF step(1,3)] by simp
  next
    case (enter th)
    then show ?thesis
      by (intro unrecorded [OF kept]) (auto simp: begin_loop_def enter_select_def in_phase_def phase_is_def)
  next
    case (stop th)
    then show ?thesis
      by (cases th; intro unrecorded [OF kept]) (auto dest: operating_set_phase)
  next
    case (receive i e deleted)
    then show ?thesis
      by (intro unrecorded [OF kept]) (auto dest!: operating_finish_event operating_set_phase)
  qed (intro unrecorded [OF kept]; simp)+
qed

text \<open>
  C3. However events, signals and goroutines interleave, two reconciliations of the same data set (by the
  goroutines of different events for it, or by the same one) never overlap: a round that was recorded
  later began no earlier than the other one ended.
\<close>

theorem rounds_never_overlap:
  assumes "executes pg h p" "k < j" "j < length (pr_rounds p)"
    and "rd_thread (pr_rounds p ! k) = Worker m" "rd_thread (pr_rounds p ! j) = Worker n"
    and "eds_uid (lp_eds (worker_loop m p)) = eds_uid (lp_eds (worker_loop n p))"
  shows "rd_end (pr_rounds p ! k) \<le> rd_start (pr_rounds p ! j)"
proof -
  have mem: "pr_rounds p ! k \<in> set (pr_rounds p)" "pr_rounds p ! j \<in> set (pr_rounds p)" using assms(2,3) by simp_all
  from rounds_known [OF assms(1) mem(1)] rounds_known [OF assms(1) mem(2)]
  have "same_set (pr_controller p) (Worker m) (Worker n)"
    using assms(4-6) by (simp add: known_def same_set_def worker_uid_def keys_def loop_key_def worker_loop_def)
  with process_apart [OF assms(1)] assms(2-5) show ?thesis
    by (auto simp: apart_def sorted_wrt_iff_nth_less)
qed

section \<open>Whose data sets the process works on\<close>

text \<open>
  The rounds of the autoscaler and of the collector: besides the lists it reads, an event of a round
  belongs to a run of its job for a listed data set of this operator that has scaling enabled.
\<close>

definition for_owned_set :: "operator_config \<Rightarrow> (es_resource \<Rightarrow> unit io) \<Rightarrow> trace \<Rightarrow> event \<Rightarrow> bool" where
  "for_owned_set oc job tr ev \<longleftrightarrow> (\<exists>edss e es w r run. ListEds (oc_namespace oc) (Inr edss) \<in> set tr \<and> e \<in> set edss \<and>
     hasOwnership (oc_operator_id oc) e \<and> rs_eds es = typed e \<and> scaling_enabled es \<and>
     job es w [] = (r, run) \<and> ev \<in> set run \<and> set run \<subseteq> set tr)"

context guarded_loop
begin

lemma round_for_owned:
  assumes "\<And>p rs. set (order p rs) = set rs" "\<And>rs. set (visit rs) = snd ` set rs"
    and "collected_round oc order visit each w [] = (r, tr)" "ev \<in> set tr" "\<not> lists ev"
  shows "for_owned_set oc job tr ev"
proof -
  from round_event [OF assms] obtain edss e es run w' r' where "ListEds (oc_namespace oc) (Inr edss) \<in> set tr"
    "e \<in> set edss" "hasOwnership (oc_operator_id oc) e" "rs_eds es = typed e" "scaling_enabled es"
    "job es w' [] = (r', run)" "ev \<in> set run" "set run \<subseteq> set tr" .
  then show ?thesis unfolding for_owned_set_def by blast
qed

end

text \<open>The client of a worker, for the data set of the event it was started for.\<close>

definition client_env :: "program \<Rightarrow> eds \<Rightarrow> eds_env" where
  "client_env pg e = \<lparr>en_json = sn_json (pg_scaling pg), en_retry = pg_retry pg, en_draining = getDrainingConfig (typed e)\<rparr>"

definition scaling_settings :: "program \<Rightarrow> scaling_env" where
  "scaling_settings pg = (pg_scaling pg)\<lparr>sn_interval := oc_metrics_interval (pg_config pg)\<rparr>"

definition acts_for_owned :: "program \<Rightarrow> (eds \<times> bool) list \<Rightarrow> round \<Rightarrow> bool" where
  "acts_for_owned pg h rd \<longleftrightarrow> (
    case rd_thread rd of
      Worker i \<Rightarrow> (\<exists>e w. (e, False) \<in> set h \<and> hasOwnership (oc_operator_id (pg_config pg)) e \<and>
        operate (pg_backoff pg) (oc_priority_node_selectors (pg_config pg)) (GetResource (client_env pg e) (typed e)) w [] =
          (rd_result rd, rd_trace rd))
    | Autoscaler \<Rightarrow> (\<forall>ev \<in> set (rd_trace rd). lists ev \<or>
        for_owned_set (pg_config pg) (scaleEDS (scaling_settings pg)) (rd_trace rd) ev)
    | Collector \<Rightarrow> (\<forall>ev \<in> set (rd_trace rd). lists ev \<or>
        for_owned_set (pg_config pg) (Metrics.collectMetrics (pg_convert pg)) (rd_trace rd) ev))"

lemma owned_sets_rounds:
  assumes "executes pg h p" "rd \<in> set (pr_rounds p)"
    and "\<And>p rs. set (pg_order pg p rs) = set rs" "\<And>rs. set (pg_visit pg rs) = snd ` set rs"
  shows "acts_for_owned pg h rd"
proof -
  have gen: "genuine pg (pr_controller p) rd" using rounds_genuine [OF assms(1)] assms(2) by blast
  show ?thesis
  proof (cases "rd_thread rd")
    case Collector
    with gen obtain w where "collected_round (pg_config pg) (pg_order pg) (pg_visit pg) (collect_each (pg_convert pg)) w [] =
        (rd_result rd, rd_trace rd)" by (auto simp: genuine_def rounds_collected)
    from metrics_loop.round_for_owned [OF assms(3,4) this] Collector show ?thesis by (auto simp: acts_for_owned_def)
  next
    case Autoscaler
    with gen obtain w where "collected_round (pg_config pg) (pg_order pg) (pg_visit pg) (scale_each (scaling_settings pg)) w [] =
        (rd_result rd, rd_trace rd)" by (auto simp: genuine_def rounds_collected scaling_settings_def)
    from scaling_loop.round_for_owned [OF assms(3,4) this] Autoscaler show ?thesis by (auto simp: acts_for_owned_def)
  next
    case (Worker i)
    with gen have i: "i < length (cn_loops (pr_controller p))" by (simp add: genuine_def)
    from job_of_worker [OF assms(1) i] obtain e where e: "(e, False) \<in> set h"
      "hasOwnership (oc_operator_id (pg_config pg)) e" "keys (pr_controller p) ! i = job_for (pg_config pg) e" .
    with gen Worker show ?thesis by (auto simp: acts_for_owned_def genuine_def job_for_def client_env_def)
  qed
qed

text \<open>
  C12. Whatever the process records, it has done for data sets of this operator: a round of a goroutine
  operates the data set of a delivered event, which was owned by the operator and not deleted, with
  the draining settings of that data set; an event of a round of the autoscaler or of the collector,
  apart from the lists it reads, belongs to a run for a data set it has just listed and owns.
\<close>

theorem rounds_for_owned_sets:
  assumes "executes pg h p" "rd \<in> set (pr_rounds p)"
    and "\<And>p rs. set (pg_order pg p rs) = set rs" "\<And>rs. set (pg_visit pg rs) = snd ` set rs"
  shows "case rd_thread rd of
      Worker i \<Rightarrow> (\<exists>e w. (e, False) \<in> set h \<and> hasOwnership (oc_operator_id (pg_config pg)) e \<and>
        operate (pg_backoff pg) (oc_priority_node_selectors (pg_config pg)) (GetResource (client_env pg e) (typed e)) w [] =
          (rd_result rd, rd_trace rd))
    | Autoscaler \<Rightarrow> (\<forall>ev \<in> set (rd_trace rd). lists ev \<or>
        for_owned_set (pg_config pg) (scaleEDS (scaling_settings pg)) (rd_trace rd) ev)
    | Collector \<Rightarrow> (\<forall>ev \<in> set (rd_trace rd). lists ev \<or>
        for_owned_set (pg_config pg) (Metrics.collectMetrics (pg_convert pg)) (rd_trace rd) ev)"
  using owned_sets_rounds [OF assms] unfolding acts_for_owned_def .

section \<open>Pods that the process deletes\<close>

lemma jobs_delete_nothing:
  "emits (\<lambda>ev. \<not> is_delete ev) (scaleEDS env es)" "emits (\<lambda>ev. \<not> is_delete ev) (Metrics.collectMetrics cv es)"
  unfolding scaleEDS_def updateScalingOperation_def record_scaling_def GetScalingOperation_def GetIndices_def GetShards_def
    GetNodes_def decode_def collectMetrics_def storeMedian_def Let_def
  by (intro emits_intros | simp)+

lemma owned_delete_nothing:
  "for_owned_set oc (scaleEDS env) tr ev \<Longrightarrow> \<not> is_delete ev"
  "for_owned_set oc (Metrics.collectMetrics cv) tr ev \<Longrightarrow> \<not> is_delete ev"
  using emits_run [OF jobs_delete_nothing(1)] emits_run [OF jobs_delete_nothing(2)]
  by (fastforce simp: for_owned_set_def)+

lemma lists_delete_nothing: "lists ev \<Longrightarrow> \<not> is_delete ev"
  by (cases ev) simp_all


section \<open>Starting up\<close>

definition quiet :: "process \<Rightarrow> bool" where
  "quiet p \<longleftrightarrow> pr_rounds p = [] \<and> cn_loops (pr_controller p) = [] \<and> (\<forall>th. pr_tickers p th = unbegun)"

definition started_well :: "program \<Rightarrow> (eds \<times> bool) list \<Rightarrow> process \<Rightarrow> bool" where
  "started_well pg h p \<longleftrightarrow>
     (pr_stage p = Starting \<longrightarrow> h = [] \<and> quiet p) \<and>
     (\<forall>e. setupInformers (pg_startup pg) = Err e \<longrightarrow>
        h = [] \<and> quiet p \<and> (pr_stage p = Starting \<or> pr_stage p = Finished (Some e))) \<and>
     (pr_stage p = Launched \<longrightarrow> h = [] \<and> cn_loops (pr_controller p) = [])"

lemma process_started: "executes pg h p \<Longrightarrow> started_well pg h p"
proof (induction rule: executes.induct)
  case (initial now)
  then show ?case by (simp add: started_well_def quiet_def initial_process_def initial_controller_def)
next
  case (event h p e deleted)
  then show ?case by (auto simp: started_well_def)
next
  case (step h p p')
  from step(2,3) show ?case
    by cases (auto simp: started_well_def quiet_def running_stage_def set_phase_def update_loop_def phase_is_def
        handleSigterm_def after_setup_def start_watch_def sync_watch_def split: outcome.splits sum.splits thread.splits)
qed

lemma setup_fails:
  assumes "su_add_handler su i = Inl x \<or> su_poll_synced su i = Inl x"
  obtains e where "setupInformers su = Err e"
proof -
  have "\<exists>e. setupInformers su = Err e"
    using assms
    by (cases i; cases "su_add_handler su PodInformer"; cases "su_add_handler su NodeInformer";
        cases "su_poll_synced su PodInformer"; cases "su_poll_synced su NodeInformer")
      (auto simp: setupInformers_def Let_def)
  then show ?thesis using that by blast
qed

text \<open>
  C36. Before the caches of pods and nodes are filled the operator does nothing: when a handler cannot be
  added to one of their informers, or its cache does not sync, then no goroutine ever runs a round,
  no event is handled, and the process ends with that error.
\<close>

theorem startup_failure:
  assumes "executes pg h p"
    and "su_add_handler (pg_startup pg) i = Inl x \<or> su_poll_synced (pg_startup pg) i = Inl x"
  shows "h = [] \<and> pr_rounds p = [] \<and> cn_loops (pr_controller p) = [] \<and>
    (\<forall>th. tk_phase (pr_tickers p th) = NotBegun) \<and>
    (pr_stage p = Starting \<or> (\<exists>e. setupInformers (pg_startup pg) = Err e \<and> pr_stage p = Finished (Some e)))"
proof -
  obtain e where e: "setupInformers (pg_startup pg) = Err e" using setup_fails [OF assms(2)] .
  with process_started [OF assms(1)] show ?thesis by (auto simp: started_well_def quiet_def)
qed

end
