(* ===== verification/RoundExamples.thy ===== *)
theory RoundExamples
  imports RoundProps MetricsExamples
begin

text \<open>A round of the autoscaler and one of the collector, on one data set with a label on its pods.\<close>

lemma example_typed: "typed (scaled_eds n a) = scaled_eds n a"
  by (simp add: with_type_def scaled_eds_def example_eds_def Let_def)

lemma example_owned: "hasOwnership (oc_operator_id all_namespaces) (scaled_eds n (Some []))"
    "hasOwnership (oc_operator_id all_namespaces) (scaled_eds n None)"
  by (simp_all add: hasOwnership_def scaled_eds_def example_eds_def Let_def map_get_def all_namespaces_def
      NewElasticsearchOperator_def)

lemma example_uid: "om_uid (eds_meta (scaled_eds n a)) = ''u1''" "eds_name (scaled_eds n a) = ''eds''"
  by (simp_all add: scaled_eds_def example_eds_def Let_def)

lemma collect_answers:
  assumes "\<And>t n. w_list_eds w t n = Inr es" "\<And>t n. w_list_metric_sets w t n = Inr mss" "\<And>t n l. w_list_pods w t n l = Inr ps"
  shows "\<exists>t. collectResources oc order w [] =
    (Ok (foldl (add_pod order) (foldl add_metric_set (foldl (add_eds (oc_operator_id oc)) [] es) mss) ps), t)"
  by (simp add: collectResources_def io_bind_def io_call_def io_answer_def io_return_def assms Let_def)

definition scaling_round :: "(error, unit) outcome \<times> trace" where
  "scaling_round = autoscaler_round all_namespaces example_scaling_env (\<lambda>p rs. rs) (map snd) lean_world []"

lemma lean_collected:
  "\<exists>t. collectResources all_namespaces (\<lambda>p rs. rs) lean_world [] = (Ok [(''u1'', lean_resource (Some []))], t)"
proof -
  have "foldl (add_pod (\<lambda>p rs. rs)) (foldl add_metric_set
      (foldl (add_eds (oc_operator_id all_namespaces)) [] [scaled_eds (Some 4) (Some [])]) []) [lean_pod] =
    [(''u1'', lean_resource (Some []))]"
    by (simp add: add_eds_def example_owned example_typed example_uid add_pod_def labelled_for_def lean_resource_def
        resource_of_def lean_pod_def map_get_def map_entries_def)
  moreover have "\<exists>t. collectResources all_namespaces (\<lambda>p rs. rs) lean_world [] =
    (Ok (foldl (add_pod (\<lambda>p rs. rs)) (foldl add_metric_set
      (foldl (add_eds (oc_operator_id all_namespaces)) [] [scaled_eds (Some 4) (Some [])]) []) [lean_pod]), t)"
    by (rule collect_answers) (simp_all add: lean_world_def calm_world_def silent_world_def)
  ultimately show ?thesis by simp
qed

lemma lean_shift: "shift_world t lean_world = lean_world"
  by (simp add: shift_world_def lean_world_def calm_world_def silent_world_def)

lemma scaling_round_updates: "\<exists>tr e' a. scaling_round = (Ok (), tr) \<and> UpdateEds e' a \<in> set tr"
proof -
  obtain t where t: "collectResources all_namespaces (\<lambda>p rs. rs) lean_world [] = (Ok [(''u1'', lean_resource (Some []))], t)"
    using lean_collected by blast
  have "edsScalingOperation (sn_json example_scaling_env) (rs_eds (lean_resource (Some []))) = Ok None"
    by (simp add: edsScalingOperation_def map_get_def)
  from lean_scale [OF this] obtain tr e' where
    run: "scaleEDS example_scaling_env (lean_resource (Some [])) lean_world [] = (Ok (), tr @ [UpdateEds e' (Inr e')])"
    by (auto simp: map_set_def)
  then have "scaleEDS example_scaling_env (lean_resource (Some [])) lean_world t = (Ok (), t @ tr @ [UpdateEds e' (Inr e')])"
    using shiftableD [OF scale_shiftable, of example_scaling_env "lean_resource (Some [])" lean_world t "[]"] lean_shift by simp
  then show ?thesis
    by (auto simp: scaling_round_def autoscaler_round_def io_bind_def io_try_def t scaling_enabled_def
        example_scaling_def io_return_def)
qed


definition collector_round :: "(error, unit) outcome \<times> trace" where
  "collector_round = metrics_round all_namespaces (\<lambda>_. 0) (\<lambda>p rs. rs) (map snd) metered_world []"

lemma metered_collected:
  "\<exists>t. collectResources all_namespaces (\<lambda>p rs. rs) metered_world [] = (Ok [(''u1'', metered_resource)], t)"
proof -
  have "getOwnerUID (ms_meta old_set) = Some ''u1''"
    by (simp add: old_set_def new_metric_set_def getOwnerUID_def example_uid)
  then have "foldl (add_pod (\<lambda>p rs. rs)) (foldl add_metric_set
      (foldl (add_eds (oc_operator_id all_namespaces)) [] [scaled_eds None None]) [old_set]) metered_pods =
    [(''u1'', metered_resource)]"
    by (simp add: add_eds_def example_owned example_typed example_uid add_pod_def labelled_for_def add_metric_set_def
        metered_resource_def metered_pods_def metered_pod_def map_get_def map_entries_def)
  moreover have "\<exists>t. collectResources all_namespaces (\<lambda>p rs. rs) metered_world [] =
    (Ok (foldl (add_pod (\<lambda>p rs. rs)) (foldl add_metric_set
      (foldl (add_eds (oc_operator_id all_namespaces)) [] [scaled_eds None None]) [old_set]) metered_pods), t)"
    by (rule collect_answers) (simp_all add: metered_world_def)
  ultimately show ?thesis by simp
qed

lemma metered_shift: "shift_world t metered_world = metered_world"
  by (simp add: shift_world_def metered_world_def calm_world_def silent_world_def)

lemma collector_round_updates: "\<exists>r tr a. collector_round = (r, tr) \<and> UpdateMetricSet stored_set a \<in> set tr"
proof -
  obtain t where t: "collectResources all_namespaces (\<lambda>p rs. rs) metered_world [] = (Ok [(''u1'', metered_resource)], t)"
    using metered_collected by blast
  obtain r tr a where run: "Metrics.collectMetrics (\<lambda>_. 0) metered_resource metered_world [] = (r, tr)"
    "UpdateMetricSet stored_set a \<in> set tr" using metered_run by blast
  then have "Metrics.collectMetrics (\<lambda>_. 0) metered_resource metered_world t = (r, t @ tr)"
    using shiftableD [OF collect_shiftable, of "\<lambda>_. 0" metered_resource metered_world t "[]"] metered_shift by simp
  with run(2) show ?thesis
    by (cases r) (auto simp: collector_round_def metrics_round_def io_bind_def io_try_def t scaling_enabled_def
        example_scaling_def io_return_def)
qed

theorem collector_round_writes_witness:
  "\<exists>kept t v. ms_metrics stored_set = kept @ [\<lparr>mt_timestamp = t, mt_value = v\<rparr>] \<and> Now t \<in> set (snd collector_round)"
proof -
  obtain r tr a where run: "collector_round = (r, tr)" "UpdateMetricSet stored_set a \<in> set tr"
    using collector_round_updates by blast
  from collector_round_writes [OF _ _ run(1) [unfolded collector_round_def] run(2), of stored_set]
  have "\<exists>kept t v. ms_metrics stored_set = kept @ [\<lparr>mt_timestamp = t, mt_value = v\<rparr>] \<and> Now t \<in> set tr" by auto
  then show ?thesis by (simp add: run(1))
qed

end
