(* ===== verification/ProcessExamples.thy ===== *)
theory ProcessExamples
  imports ProcessProps RoundExamples
begin

text \<open>
  Short executions of the process: a failed start, two rounds of the autoscaler, and two rounds of
  the goroutine of a data set.
\<close>

definition good_startup :: startup where
  "good_startup = \<lparr>su_add_handler = (\<lambda>_. Inr ()), su_poll_synced = (\<lambda>_. Inr ()), su_watch_handler = Inr (), su_watch_synced = True\<rparr>"

definition example_program :: program where
  "example_program = \<lparr>pg_config = all_namespaces, pg_startup = good_startup, pg_backoff = ask_once,
     pg_retry = reference_retry, pg_scaling = example_scaling_env, pg_convert = (\<lambda>_. 0),
     pg_order = (\<lambda>p rs. rs), pg_visit = map snd\<rparr>"

definition failing_program :: program where
  "failing_program = example_program\<lparr>pg_startup := good_startup\<lparr>su_poll_synced := (\<lambda>i. case i of
     NodeInformer \<Rightarrow> Inl (KubeError ''timeout'') | PodInformer \<Rightarrow> Inr ())\<rparr>\<rparr>"

theorem startup_failure_witness:
  "\<exists>p. executes failing_program [] p \<and>
     pr_stage p = Finished (Some (Failed ''failed to sync cache for informer'' (KubeError ''timeout''))) \<and> pr_rounds p = []"
proof -
  have failed: "setupInformers (pg_startup failing_program) = Err (Failed ''failed to sync cache for informer'' (KubeError ''timeout''))"
    by code_simp
  let ?p = "(initial_process 0)\<lparr>pr_stage := Finished (Some (Failed ''failed to sync cache for informer'' (KubeError ''timeout'')))\<rparr>"
  have run: "executes failing_program [] ?p"
    using executes.step [OF executes.initial process_step.set_up, of "0" failing_program] by (simp add: initial_process_def after_setup_def failed)
  have "su_poll_synced (pg_startup failing_program) NodeInformer = Inl (KubeError ''timeout'')"
    by (simp add: failing_program_def)
  from startup_failure [OF run disjI2 [OF this]] have "pr_rounds ?p = []" by blast
  with run show ?thesis by (intro exI [of _ ?p]) simp
qed

section \<open>Rounds\<close>

definition watching :: process where
  "watching = (initial_process 0)\<lparr>pr_stage := Watching\<rparr>"

lemma watching_executes: "executes example_program [] watching"
proof -
  have good: "setupInformers (pg_startup example_program) = Ok ()" "su_watch_handler (pg_startup example_program) = Inr ()"
    "su_watch_synced (pg_startup example_program)" by code_simp+
  have 1: "executes example_program [] ((initial_process 0)\<lparr>pr_stage := Launched\<rparr>)"
    using executes.step [OF executes.initial process_step.set_up, of "0" example_program] by (simp add: initial_process_def after_setup_def good)
  have 2: "executes example_program [] ((initial_process 0)\<lparr>pr_stage := Syncing\<rparr>)"
    using executes.step [OF 1 process_step.watch] by (simp add: start_watch_def good)
  show ?thesis
    using executes.step [OF 2 process_step.sync, of True] by (simp add: sync_watch_def good watching_def)
qed

text \<open>One round of a thread, and then the thread waits again.\<close>

definition one_round :: "program \<Rightarrow> thread \<Rightarrow> (error, unit) outcome \<Rightarrow> trace \<Rightarrow> process \<Rightarrow> process" where
  "one_round pg th r tr p =
     end_round pg th r tr (set_thread Operating th (fire (interval_of pg th p) (pr_time p) (pr_tickers p th)) p)"

lemma round_of_cong:
  assumes "keys (pr_controller p') = keys (pr_controller p)" "in_phase ph th p"
  shows "round_of pg th p' = round_of pg th p" "interval_of pg th p' = interval_of pg th p"
proof -
  have "loop_key (worker_loop i p') = loop_key (worker_loop i p)" if "th = Worker i" for i
  proof -
    have "i < length (cn_loops (pr_controller p))" "i < length (cn_loops (pr_controller p'))"
      using assms(2) that arg_cong [OF assms(1), of length] by (simp_all add: in_phase_def phase_is_def)
    then show ?thesis using arg_cong [OF assms(1), of "\<lambda>ks. ks ! i"] by (simp add: keys_def worker_loop_def)
  qed
  then show "round_of pg th p' = round_of pg th p" "interval_of pg th p' = interval_of pg th p"
    by (cases th; simp add: round_of_def worker_round_def worker_env_def loop_key_def interval_of_def)+
qed

lemma one_round_executes:
  assumes "executes pg h p" "running_stage (pr_stage p)" "in_phase AtSelect th p" "can_fire (pr_time p) (pr_tickers p th)"
    and "round_of pg th p w [] = (r, tr)"
  shows "executes pg h (one_round pg th r tr p)"
proof -
  let ?p = "set_thread Operating th (fire (interval_of pg th p) (pr_time p) (pr_tickers p th)) p"
  have "executes pg h ?p" by (rule executes.step [OF assms(1) process_step.tick [OF assms(2-4)]])
  moreover have "round_of pg th ?p = round_of pg th p"
    by (rule round_of_cong [OF _ assms(3)]) (simp split: thread.splits)
  moreover have "in_phase Operating th ?p"
    using assms(3) by (cases th) (auto simp: in_phase_def dest: phase_is_less)
  ultimately show ?thesis
    using executes.step [OF _ process_step.finish, of pg h ?p th w r tr] assms(2,5) by (simp add: one_round_def)
qed

lemma one_round_simps:
  assumes "r \<noteq> Panic"
  shows "pr_time (one_round pg th r tr p) = pr_time p" "pr_stage (one_round pg th r tr p) = pr_stage p"
    "keys (pr_controller (one_round pg th r tr p)) = keys (pr_controller p)"
    "in_phase AtSelect th p \<Longrightarrow> in_phase AtSelect th (one_round pg th r tr p)"
    "pr_tickers (one_round pg th r tr p) th =
       enter_select (pr_time p) (fire (interval_of pg th p) (pr_time p) (pr_tickers p th))"
    "pr_rounds (one_round pg th r tr p) = pr_rounds p @
       [\<lparr>rd_thread = th, rd_start = pr_time p, rd_end = pr_time p, rd_result = r, rd_trace = tr\<rparr>]"
  using assms
  by (simp_all add: one_round_def split: thread.splits)
    (cases th; auto simp: in_phase_def phase_is_def set_phase_def one_round_def)

lemma two_rounds:
  assumes "executes pg h p" "running_stage (pr_stage p)" "in_phase AtSelect th p"
    and "tk_phase (pr_tickers p th) = NotBegun" "0 < period pg th" "round_of pg th p w [] = (r, tr)" "r \<noteq> Panic"
  shows "\<exists>p'. executes pg h p' \<and> keys (pr_controller p') = keys (pr_controller p) \<and> pr_rounds p' = pr_rounds p @
    [\<lparr>rd_thread = th, rd_start = pr_time p, rd_end = pr_time p, rd_result = r, rd_trace = tr\<rparr>,
     \<lparr>rd_thread = th, rd_start = pr_time p + period pg th, rd_end = pr_time p + period pg th, rd_result = r, rd_trace = tr\<rparr>]"
proof -
  let ?p1 = "p\<lparr>pr_tickers := (pr_tickers p)(th := begin_loop (interval_of pg th p) (pr_time p))\<rparr>"
  let ?p2 = "one_round pg th r tr ?p1"
  let ?p3 = "?p2\<lparr>pr_time := pr_time p + period pg th\<rparr>"
  have at: "in_phase AtSelect th ?p1" using assms(3) by (simp add: in_phase_def split: thread.splits)
  have d: "sint (interval_of pg th p) = period pg th" by (rule interval_period [OF assms(1,3)])
  have same1: "round_of pg th ?p1 = round_of pg th p" "interval_of pg th ?p1 = interval_of pg th p"
    using round_of_cong [OF _ assms(3), of ?p1 pg] by simp_all
  have 1: "executes pg h ?p1" by (rule executes.step [OF assms(1) process_step.enter [OF assms(2-4)]])
  have 2: "executes pg h ?p2"
    by (rule one_round_executes [OF 1 _ at]) (use assms(2,5,6) d first_round same1 in simp_all)
  have 3: "executes pg h ?p3"
    by (rule executes.step [OF 2 process_step.elapse]) (use assms(5) in \<open>simp add: one_round_simps [OF assms(7)]\<close>)
  have at3: "in_phase AtSelect th ?p3"
    using one_round_simps(4) [OF assms(7) at, of pg tr] by (simp add: in_phase_def split: thread.splits)
  have same3: "round_of pg th ?p3 = round_of pg th p" "interval_of pg th ?p3 = interval_of pg th p"
    using round_of_cong [OF _ assms(3), of ?p3 pg] by (simp_all add: one_round_simps [OF assms(7)])
  have "executes pg h (one_round pg th r tr ?p3)"
    by (rule one_round_executes [OF 3 _ at3])
      (use assms(2,5,6) d same1 same3 in \<open>simp_all add: one_round_simps [OF assms(7)] next_round\<close>)
  then show ?thesis
    by (intro exI [of _ "one_round pg th r tr ?p3"]) (simp add: one_round_simps [OF assms(7)])
qed

text \<open>The autoscaler, twice.\<close>

lemma watching_simps [simp]:
  "running_stage (pr_stage watching)" "pr_tickers watching th = unbegun" "pr_rounds watching = []" "pr_time watching = 0"
  "pr_controller watching = initial_controller"
  by (simp_all add: watching_def initial_process_def running_stage_def)

lemma example_period: "period example_program Autoscaler = 30000000000" "period example_program (Worker i) = 10000000000"
  by (simp_all add: period_def example_program_def all_namespaces_def NewElasticsearchOperator_def)

definition autoscaler_at :: "time \<Rightarrow> trace \<Rightarrow> round" where
  "autoscaler_at t tr = \<lparr>rd_thread = Autoscaler, rd_start = t, rd_end = t, rd_result = Ok (), rd_trace = tr\<rparr>"

lemma autoscaler_execution:
  "\<exists>p tr e' a. executes example_program [] p \<and> UpdateEds e' a \<in> set tr \<and>
     pr_rounds p = [autoscaler_at 0 tr, autoscaler_at 30000000000 tr]"
proof -
  obtain tr e' a where run: "scaling_round = (Ok (), tr)" "UpdateEds e' a \<in> set tr" using scaling_round_updates by blast
  have "oc_metrics_interval all_namespaces = sn_interval example_scaling_env"
    by (simp add: all_namespaces_def NewElasticsearchOperator_def example_scaling_env_def)
  then have "round_of example_program Autoscaler watching lean_world [] = (Ok (), tr)"
    using run(1) by (simp add: round_of_def example_program_def scaling_round_def)
  with two_rounds [OF watching_executes, of Autoscaler lean_world "Ok ()" tr] run(2) show ?thesis
    by (auto simp: example_period autoscaler_at_def in_phase_def)
qed

theorem rounds_spaced_witness:
  "\<exists>p. executes example_program [] p \<and> round_starts Autoscaler p = [0, 30000000000] \<and>
     round_starts Autoscaler p ! 0 + int 1 * period example_program Autoscaler \<le> round_starts Autoscaler p ! 1"
proof -
  obtain p tr where p: "executes example_program [] p" "pr_rounds p = [autoscaler_at 0 tr, autoscaler_at 30000000000 tr]"
    using autoscaler_execution by blast
  then have starts: "round_starts Autoscaler p = [0, 30000000000]" by (simp add: round_starts_def autoscaler_at_def)
  from rounds_spaced [OF p(1), of Autoscaler] starts
  have "round_starts Autoscaler p ! 0 + int 1 * period example_program Autoscaler \<le> round_starts Autoscaler p ! 1"
    by (metis One_nat_def length_Cons lessI list.size(3))
  with p(1) starts show ?thesis by blast
qed

theorem rounds_for_owned_sets_witness:
  "\<exists>tr e' a. UpdateEds e' a \<in> set tr \<and>
     for_owned_set all_namespaces (scaleEDS (scaling_settings example_program)) tr (UpdateEds e' a)"
proof -
  obtain p tr e' a where p: "executes example_program [] p" "UpdateEds e' a \<in> set tr"
    "pr_rounds p = [autoscaler_at 0 tr, autoscaler_at 30000000000 tr]"
    using autoscaler_execution by blast
  have lib: "set (pg_order example_program q rs) = set rs" "set (pg_visit example_program rs) = snd ` set rs" for q rs
    by (simp_all add: example_program_def)
  from rounds_for_owned_sets [OF p(1) _ lib, of "autoscaler_at 0 tr"] p(2,3)
  have "for_owned_set all_namespaces (scaleEDS (scaling_settings example_program)) tr (UpdateEds e' a)"
    by (auto simp: autoscaler_at_def example_program_def)
  with p(2) show ?thesis by blast
qed

text \<open>The goroutine of a data set, twice.\<close>

definition with_worker :: "eds \<Rightarrow> process" where
  "with_worker e = watching\<lparr>pr_controller := operateEDS all_namespaces e False initial_controller\<rparr>"

lemma with_worker_controller:
  "hasOwnership (oc_operator_id all_namespaces) e \<Longrightarrow>
   pr_controller (with_worker e) = start_loop all_namespaces (typed e) initial_controller"
  by (simp add: with_worker_def operateEDS_def Let_def initial_controller_def finish_event_def start_loop_def)

lemma with_worker_executes: "executes example_program [(e, False)] (with_worker e)"
  using executes.event [OF watching_executes, of e False]
  by (simp add: with_worker_def watching_def initial_process_def initial_controller_def example_program_def)

lemma worker_runs:
  assumes "hasOwnership (oc_operator_id all_namespaces) e"
    and "operate ask_once None (GetResource (client_env example_program e) (typed e)) w [] = (r, tr)" "r \<noteq> Panic"
  obtains p where "executes example_program [(e, False)] p" "length (pr_rounds p) = 2"
    "\<And>i. i < 2 \<Longrightarrow> rd_thread (pr_rounds p ! i) = Worker 0 \<and> rd_trace (pr_rounds p ! i) = tr"
proof -
  let ?p = "with_worker e"
  have at: "in_phase AtSelect (Worker 0) ?p"
    by (simp add: in_phase_def phase_is_def with_worker_controller [OF assms(1)] start_loop_def initial_controller_def)
  have "round_of example_program (Worker 0) ?p w [] = (r, tr)"
    using assms(2)
    by (simp add: round_of_def worker_round_def worker_loop_def with_worker_controller [OF assms(1)] start_loop_def
        initial_controller_def worker_env_def client_env_def example_program_def all_namespaces_def NewElasticsearchOperator_def)
  from two_rounds [OF with_worker_executes _ at _ _ this assms(3)] obtain p where
    "executes example_program [(e, False)] p" "pr_rounds p =
      [\<lparr>rd_thread = Worker 0, rd_start = 0, rd_end = 0, rd_result = r, rd_trace = tr\<rparr>,
       \<lparr>rd_thread = Worker 0, rd_start = 10000000000, rd_end = 10000000000, rd_result = r, rd_trace = tr\<rparr>]"
    by (auto simp: with_worker_def example_period)
  then show ?thesis by (intro that [of p]) (auto simp: less_2_cases_iff)
qed

definition silent_run :: "(error, unit) outcome \<times> trace" where
  "silent_run = operate ask_once None (GetResource (client_env example_program (scaled_eds None None)) (typed (scaled_eds None None)))
     calm_world []"

lemma silent_result: "fst silent_run \<noteq> Panic"
  by (simp add: silent_run_def operate_def GetResource_def io_bind_def io_wrap_def io_call_def io_answer_def io_fail_def
      calm_world_def silent_world_def Let_def)

theorem rounds_never_overlap_witness:
  "\<exists>p. executes example_program [(scaled_eds None None, False)] p \<and> length (pr_rounds p) = 2 \<and>
     rd_thread (pr_rounds p ! 0) = Worker 0 \<and> rd_thread (pr_rounds p ! 1) = Worker 0 \<and>
     rd_end (pr_rounds p ! 0) \<le> rd_start (pr_rounds p ! 1)"
proof -
  have "silent_run = (fst silent_run, snd silent_run)" by simp
  from worker_runs [OF example_owned(2) this [unfolded silent_run_def] silent_result [unfolded silent_run_def]]
  obtain p where p: "executes example_program [(scaled_eds None None, False)] p" "length (pr_rounds p) = 2"
    "\<And>i. i < 2 \<Longrightarrow> rd_thread (pr_rounds p ! i) = Worker 0" by metis
  from rounds_never_overlap [OF p(1), of 0 1 0 0] p(2) p(3) [of 0] p(3) [of 1]
  have "rd_end (pr_rounds p ! 0) \<le> rd_start (pr_rounds p ! 1)" by simp
  with p(1,2) p(3) [of 0] p(3) [of 1] show ?thesis by auto
qed

text \<open>A goroutine that updates a pod.\<close>

definition deleting_run :: "(error, unit) outcome \<times> trace" where
  "deleting_run = operate ask_once None (GetResource (client_env example_program (example_eds (Some 1) None))
     (typed (example_eds (Some 1) None))) update_world []"

lemma deleting_result: "fst deleting_run \<noteq> Panic" "list_ex is_delete (snd deleting_run)"
  unfolding deleting_run_def client_env_def example_program_def program.simps reference_retry_def by code_simp+


end
