(* ===== verification/Clients.thy ===== *)
theory Clients
  imports Complex_Main Io
begin

text \<open>
  The clients the operator talks through: pkg/clientset/clientset.go, and for the custom resources the
  client set of pkg/client/clientset/versioned. They are made from a configuration, of which every
  constructor works on a copy of its own. The constructors of the Kubernetes libraries are parameters.
\<close>

section \<open>Configurations\<close>

record http_transport =
  ht_dial_timeout :: duration
  ht_keep_alive :: duration
  ht_tls_handshake_timeout :: duration
  ht_response_header_timeout :: duration
  ht_max_idle_conns :: int
  ht_max_idle_conns_per_host :: int
  ht_idle_conn_timeout :: duration
  ht_tls :: "payload option"

text \<open>A token bucket: so many requests a second, and so many at once. The rate is a finite float.\<close>

record token_bucket =
  tb_qps :: rat
  tb_burst :: int64

record rest_config =
  rc_host :: string
  rc_api_path :: string
  rc_group_version :: "(string \<times> string) option"
  rc_serializer :: "payload option"
  rc_user_agent :: string
  rc_timeout :: duration
  rc_transport :: "http_transport option"
  rc_qps :: rat
  rc_burst :: int64
  rc_rate_limiter :: "token_bucket option"
  rc_tls :: "payload option"

record kube_libraries =
  kl_user_agent :: string
  kl_serializer :: payload
  kl_http_client :: "rest_config \<Rightarrow> payload answer"
  kl_rest_client :: "rest_config \<Rightarrow> payload \<Rightarrow> payload answer"
  kl_discovery :: "rest_config \<Rightarrow> payload \<Rightarrow> payload answer"
  kl_kubernetes :: "rest_config \<Rightarrow> payload answer"
  kl_metrics :: "rest_config \<Rightarrow> payload answer"

section \<open>The client of the custom resources\<close>

definition groupName :: string where
  "groupName = ''zalando.org''"

definition SchemeGroupVersion :: "string \<times> string" where
  "SchemeGroupVersion = (groupName, ''v1'')"

definition with_user_agent :: "kube_libraries \<Rightarrow> rest_config \<Rightarrow> rest_config" where
  "with_user_agent kl config =
     (if rc_user_agent config = '''' then config\<lparr>rc_user_agent := kl_user_agent kl\<rparr> else config)"

definition setConfigDefaults :: "kube_libraries \<Rightarrow> rest_config \<Rightarrow> rest_config" where
  "setConfigDefaults kl config =
     with_user_agent kl (config\<lparr>rc_group_version := Some SchemeGroupVersion, rc_api_path := ''/apis'',
       rc_serializer := Some (kl_serializer kl)\<rparr>)"

definition ZalandoV1_NewForConfigAndClient :: "kube_libraries \<Rightarrow> rest_config \<Rightarrow> payload \<Rightarrow> payload answer" where
  "ZalandoV1_NewForConfigAndClient kl c h = kl_rest_client kl (setConfigDefaults kl c) h"

definition ZalandoV1_NewForConfig :: "kube_libraries \<Rightarrow> rest_config \<Rightarrow> payload answer" where
  "ZalandoV1_NewForConfig kl c =
     (let config = setConfigDefaults kl c
      in case kl_http_client kl config of
           Inl e \<Rightarrow> Inl e
         | Inr httpClient \<Rightarrow> ZalandoV1_NewForConfigAndClient kl config httpClient)"

definition ZalandoV1_NewForConfigOrDie :: "kube_libraries \<Rightarrow> rest_config \<Rightarrow> (error, payload) outcome" where
  "ZalandoV1_NewForConfigOrDie kl c = (case ZalandoV1_NewForConfig kl c of Inl e \<Rightarrow> Panic | Inr client \<Rightarrow> Ok client)"

record versioned_clientset =
  vs_zalando :: payload
  vs_discovery :: payload

definition limit_rate :: "rest_config \<Rightarrow> rest_config answer" where
  "limit_rate c =
     (if rc_rate_limiter c = None \<and> 0 < rc_qps c
      then if sint (rc_burst c) \<le> 0
           then Inl (KubeError ''burst is required to be greater than 0 when RateLimiter is not set and QPS is set to greater than 0'')
           else Inr (c\<lparr>rc_rate_limiter := Some \<lparr>tb_qps = rc_qps c, tb_burst = rc_burst c\<rparr>\<rparr>)
      else Inr c)"

definition NewForConfigAndClient :: "kube_libraries \<Rightarrow> rest_config \<Rightarrow> payload \<Rightarrow> versioned_clientset answer" where
  "NewForConfigAndClient kl c httpClient =
     (case limit_rate c of
        Inl e \<Rightarrow> Inl e
      | Inr config \<Rightarrow>
          (case ZalandoV1_NewForConfigAndClient kl config httpClient of
             Inl e \<Rightarrow> Inl e
           | Inr zalandoV1 \<Rightarrow>
               (case kl_discovery kl config httpClient of
                  Inl e \<Rightarrow> Inl e
                | Inr discovery \<Rightarrow> Inr \<lparr>vs_zalando = zalandoV1, vs_discovery = discovery\<rparr>)))"

definition NewForConfig :: "kube_libraries \<Rightarrow> rest_config \<Rightarrow> versioned_clientset answer" where
  "NewForConfig kl c =
     (let config = with_user_agent kl c
      in case kl_http_client kl config of
           Inl e \<Rightarrow> Inl e
         | Inr httpClient \<Rightarrow> NewForConfigAndClient kl config httpClient)"

definition NewForConfigOrDie :: "kube_libraries \<Rightarrow> rest_config \<Rightarrow> (error, versioned_clientset) outcome" where
  "NewForConfigOrDie kl c = (case NewForConfig kl c of Inl e \<Rightarrow> Panic | Inr cs \<Rightarrow> Ok cs)"

section \<open>All clients of the operator\<close>

record kube_clients =
  kc_kubernetes :: payload
  kc_zalando :: versioned_clientset
  kc_metrics :: payload

definition NewClientset :: "kube_libraries \<Rightarrow> rest_config \<Rightarrow> kube_clients answer" where
  "NewClientset kl kubeConfig =
     (case kl_kubernetes kl kubeConfig of
        Inl e \<Rightarrow> Inl (Failed ''failed to setup Kubernetes client'' e)
      | Inr client \<Rightarrow>
          (case NewForConfig kl kubeConfig of
             Inl e \<Rightarrow> Inl (Failed ''failed to setup Kubernetes CRD client'' e)
           | Inr zClient \<Rightarrow>
               (case kl_metrics kl kubeConfig of
                  Inl e \<Rightarrow> Inl (Failed ''failed to setup Kubernetes metrics client'' e)
                | Inr mClient \<Rightarrow> Inr \<lparr>kc_kubernetes = client, kc_zalando = zClient, kc_metrics = mClient\<rparr>)))"

section \<open>What the clients are made from\<close>

text \<open>The configuration of the client of the custom resources: that of all clients, with four things added.\<close>

definition zalando_config :: "kube_libraries \<Rightarrow> rest_config \<Rightarrow> rest_config" where
  "zalando_config kl c =
     (setConfigDefaults kl c)\<lparr>rc_rate_limiter := Some \<lparr>tb_qps = rc_qps c, tb_burst = rc_burst c\<rparr>\<rparr>"

text \<open>A call of a library that fails with an error.\<close>

definition library_error :: "kube_libraries \<Rightarrow> error \<Rightarrow> bool" where
  "library_error kl e \<longleftrightarrow>
     (\<exists>c. kl_http_client kl c = Inl e \<or> kl_kubernetes kl c = Inl e \<or> kl_metrics kl c = Inl e \<or>
        (\<exists>h. kl_rest_client kl c h = Inl e \<or> kl_discovery kl c h = Inl e))"

lemma limited_rate:
  assumes "rc_rate_limiter c = None" "0 < rc_qps c" "0 < sint (rc_burst c)"
  shows "limit_rate (with_user_agent kl c) =
    Inr ((with_user_agent kl c)\<lparr>rc_rate_limiter := Some \<lparr>tb_qps = rc_qps c, tb_burst = rc_burst c\<rparr>\<rparr>)"
  using assms by (simp add: limit_rate_def with_user_agent_def)

lemma zalando_config_made:
  "setConfigDefaults kl ((with_user_agent kl c)\<lparr>rc_rate_limiter := Some \<lparr>tb_qps = rc_qps c, tb_burst = rc_burst c\<rparr>\<rparr>) =
   zalando_config kl c"
  by (simp add: setConfigDefaults_def with_user_agent_def zalando_config_def)

lemma NewClientset_made:
  assumes "rc_rate_limiter c = None" "0 < rc_qps c" "0 < sint (rc_burst c)"
  shows "case NewClientset kl c of
      Inr client \<Rightarrow> \<exists>http. kl_http_client kl (with_user_agent kl c) = Inr http \<and>
        kl_rest_client kl (zalando_config kl c) http = Inr (vs_zalando (kc_zalando client)) \<and>
        kl_kubernetes kl c = Inr (kc_kubernetes client) \<and> kl_metrics kl c = Inr (kc_metrics client)
    | Inl e \<Rightarrow> \<exists>what e'. e = Failed what e' \<and> library_error kl e'"
  unfolding NewClientset_def NewForConfig_def NewForConfigAndClient_def ZalandoV1_NewForConfigAndClient_def Let_def
    library_error_def limited_rate [OF assms]
  by (auto simp: zalando_config_made split: sum.splits)

end
