(* ===== verification/Startup.thy ===== *)
theory Startup
  imports Process Clients
begin

text \<open>
  main.go: the command line flags, the configuration of the Kubernetes client, and the operator that
  is started with them. What the client libraries answer is a parameter; the text of a URL, TLS
  settings and labels are kept as they are.
\<close>

section \<open>Flags\<close>

record flags =
  fl_interval :: duration
  fl_autoscaler_interval :: duration
  fl_api_server :: "string option"
  fl_pod_selectors :: gomap
  fl_priority_node_selectors :: gomap
  fl_metrics_address :: string
  fl_client_go_timeout :: duration
  fl_debug :: bool
  fl_operator_id :: string
  fl_namespace :: string
  fl_cluster_dns_zone :: string
  fl_elasticsearch_endpoint :: "url option"

definition defaultClientGoTimeout :: duration where
  "defaultClientGoTimeout = 30000000000"

definition default_flags :: flags where
  "default_flags =
     \<lparr>fl_interval = 10000000000, fl_autoscaler_interval = 30000000000, fl_api_server = None,
      fl_pod_selectors = Some [], fl_priority_node_selectors = Some [], fl_metrics_address = '':7979'',
      fl_client_go_timeout = defaultClientGoTimeout, fl_debug = False, fl_operator_id = '''',
      fl_namespace = '''', fl_cluster_dns_zone = ''cluster.local.'', fl_elasticsearch_endpoint = None\<rparr>"

section \<open>The Kubernetes client\<close>

text \<open>The answers of the client library inside a cluster.\<close>

record in_cluster =
  ic_config :: "rest_config answer"
  ic_transport_config :: "rest_config \<Rightarrow> payload answer"
  ic_tls_config :: "payload \<Rightarrow> payload option answer"

definition plain_transport :: "duration \<Rightarrow> http_transport" where
  "plain_transport timeout =
     \<lparr>ht_dial_timeout = timeout, ht_keep_alive = 30000000000, ht_tls_handshake_timeout = timeout,
      ht_response_header_timeout = 10000000000, ht_max_idle_conns = 10, ht_max_idle_conns_per_host = 2,
      ht_idle_conn_timeout = 20000000000, ht_tls = None\<rparr>"

definition configureKubeConfig :: "string option \<Rightarrow> duration \<Rightarrow> in_cluster \<Rightarrow> rest_config answer" where
  "configureKubeConfig apiServerURL timeout ic =
     (let tr = plain_transport timeout in
      case apiServerURL of
        Some url \<Rightarrow> Inr \<lparr>rc_host = url, rc_api_path = '''', rc_group_version = None, rc_serializer = None, rc_user_agent = '''',
          rc_timeout = timeout, rc_transport = Some tr, rc_qps = 100, rc_burst = 500, rc_rate_limiter = None, rc_tls = None\<rparr>
      | None \<Rightarrow>
          (case ic_config ic of
             Inl e \<Rightarrow> Inl e
           | Inr config \<Rightarrow>
               (case ic_transport_config ic config of
                  Inl e \<Rightarrow> Inl e
                | Inr restTransportConfig \<Rightarrow>
                    (case ic_tls_config ic restTransportConfig of
                       Inl e \<Rightarrow> Inl e
                     | Inr restTLSConfig \<Rightarrow> Inr (config\<lparr>rc_timeout := timeout,
                         rc_transport := Some (tr\<lparr>ht_tls := restTLSConfig\<rparr>), rc_qps := 100, rc_burst := 500,
                         rc_tls := None\<rparr>)))))"

section \<open>The operator\<close>

definition operator_of_flags :: "flags \<Rightarrow> operator_config" where
  "operator_of_flags fl =
     NewElasticsearchOperator (fl_priority_node_selectors fl) (fl_interval fl) (fl_autoscaler_interval fl)
       (fl_operator_id fl) (fl_namespace fl) (fl_cluster_dns_zone fl) (fl_elasticsearch_endpoint fl)"

text \<open>What the program runs, unless it ends with a fatal error before.\<close>

definition main_operator :: "flags \<Rightarrow> in_cluster \<Rightarrow> kube_libraries \<Rightarrow> (rest_config \<times> kube_clients \<times> operator_config) answer" where
  "main_operator fl ic kl =
     (case configureKubeConfig (fl_api_server fl) defaultClientGoTimeout ic of
        Inl e \<Rightarrow> Inl (Failed ''Failed to setup Kubernetes config'' e)
      | Inr kubeConfig \<Rightarrow>
          (case NewClientset kl kubeConfig of
             Inl e \<Rightarrow> Inl (Failed ''Failed to setup Kubernetes client'' e)
           | Inr client \<Rightarrow> Inr (kubeConfig, client, operator_of_flags fl)))"

text \<open>Two flags have no effect: the timeout of the client, and the selector of pods.\<close>

lemma ignored_flags:
  "main_operator (fl\<lparr>fl_client_go_timeout := t\<rparr>) = main_operator fl"
  "main_operator (fl\<lparr>fl_pod_selectors := s\<rparr>) = main_operator fl"
  by (intro ext, simp add: main_operator_def operator_of_flags_def split: sum.splits)+

text \<open>By default, data sets without the operator annotation are owned, in all namespaces.\<close>

lemma default_ownership:
  "hasOwnership (oc_operator_id (operator_of_flags default_flags)) e \<longleftrightarrow>
   map_get (eds_annotations e) es_operator_annotation_key \<in> {None, Some ''''}"
  by (auto simp: hasOwnership_def operator_of_flags_def default_flags_def NewElasticsearchOperator_def split: option.splits)

section \<open>The clients of the program\<close>

text \<open>
  A configuration for use inside a cluster holds the host, TLS settings and a token; in particular the
  library sets no rate limiter in it.
\<close>

definition documented_in_cluster :: "in_cluster \<Rightarrow> bool" where
  "documented_in_cluster ic \<longleftrightarrow> (case ic_config ic of Inr config \<Rightarrow> rc_rate_limiter config = None | Inl e \<Rightarrow> True)"

lemma kube_config:
  assumes "configureKubeConfig url timeout ic = Inr kubeConfig" "documented_in_cluster ic"
  shows "rc_timeout kubeConfig = timeout \<and> rc_qps kubeConfig = 100 \<and> rc_burst kubeConfig = 500 \<and>
    rc_rate_limiter kubeConfig = None \<and> rc_tls kubeConfig = None \<and>
    (\<exists>tls. rc_transport kubeConfig = Some ((plain_transport timeout)\<lparr>ht_tls := tls\<rparr>))"
  using assms
  by (auto simp: configureKubeConfig_def documented_in_cluster_def plain_transport_def Let_def split: sum.splits option.splits)

lemma kube_config_error:
  assumes "configureKubeConfig url timeout ic = Inl e"
  shows "url = None \<and> (ic_config ic = Inl e \<or> (\<exists>c. ic_transport_config ic c = Inl e) \<or> (\<exists>t. ic_tls_config ic t = Inl e))"
  using assms by (auto simp: configureKubeConfig_def Let_def split: sum.splits option.splits)

text \<open>
  When the program starts, its client for the custom resources talks to the group zalando.org/v1 below
  /apis, gives up a request after 30 seconds, and has a rate limiter of its own: 100 requests a second, with
  bursts of 500. The limits never make the start fail. When it does fail, a call of a library has
  failed, and inside the cluster only the configuration can be the reason.
\<close>

theorem clients_configured:
  assumes "documented_in_cluster ic"
  shows "case main_operator fl ic kl of
      Inr (kubeConfig, client, oc) \<Rightarrow> oc = operator_of_flags fl \<and> rc_rate_limiter kubeConfig = None \<and>
        (\<exists>config http. kl_rest_client kl config http = Inr (vs_zalando (kc_zalando client)) \<and>
           rc_host config = rc_host kubeConfig \<and> rc_transport config = rc_transport kubeConfig \<and>
           rc_group_version config = Some (''zalando.org'', ''v1'') \<and> rc_api_path config = ''/apis'' \<and>
           rc_timeout config = 30000000000 \<and> rc_rate_limiter config = Some \<lparr>tb_qps = 100, tb_burst = 500\<rparr>)
    | Inl e \<Rightarrow> (\<exists>e'. e = Failed ''Failed to setup Kubernetes config'' e' \<and> fl_api_server fl = None \<and>
          (ic_config ic = Inl e' \<or> (\<exists>c. ic_transport_config ic c = Inl e') \<or> (\<exists>t. ic_tls_config ic t = Inl e'))) \<or>
        (\<exists>what e'. e = Failed ''Failed to setup Kubernetes client'' (Failed what e') \<and> library_error kl e')"
proof (cases "configureKubeConfig (fl_api_server fl) defaultClientGoTimeout ic")
  case (Inl e)
  with kube_config_error [OF Inl] show ?thesis by (simp add: main_operator_def)
next
  case (Inr c)
  note c = kube_config [OF Inr assms]
  then have made: "case NewClientset kl c of
      Inr client \<Rightarrow> \<exists>http. kl_http_client kl (with_user_agent kl c) = Inr http \<and>
        kl_rest_client kl (zalando_config kl c) http = Inr (vs_zalando (kc_zalando client)) \<and>
        kl_kubernetes kl c = Inr (kc_kubernetes client) \<and> kl_metrics kl c = Inr (kc_metrics client)
    | Inl e \<Rightarrow> \<exists>what e'. e = Failed what e' \<and> library_error kl e'"
    by (intro NewClientset_made) simp_all
  have settings: "rc_host (zalando_config kl c) = rc_host c" "rc_transport (zalando_config kl c) = rc_transport c"
    "rc_group_version (zalando_config kl c) = Some (''zalando.org'', ''v1'')" "rc_api_path (zalando_config kl c) = ''/apis''"
    "rc_timeout (zalando_config kl c) = 30000000000"
    "rc_rate_limiter (zalando_config kl c) = Some \<lparr>tb_qps = 100, tb_burst = 500\<rparr>"
    using c by (simp_all add: zalando_config_def setConfigDefaults_def with_user_agent_def SchemeGroupVersion_def groupName_def
        defaultClientGoTimeout_def)
  show ?thesis
  proof (cases "NewClientset kl c")
    case (Inl e)
    with made Inr show ?thesis by (simp add: main_operator_def)
  next
    case (Inr client)
    with made \<open>configureKubeConfig _ _ _ = Inr c\<close> c settings show ?thesis by (auto simp: main_operator_def)
  qed
qed

text \<open>Libraries that answer every call, outside and inside a cluster.\<close>

definition example_libraries :: kube_libraries where
  "example_libraries =
     \<lparr>kl_user_agent = ''es-operator'', kl_serializer = ''json'', kl_http_client = (\<lambda>_. Inr ''http''),
      kl_rest_client = (\<lambda>c h. Inr (rc_api_path c @ h)), kl_discovery = (\<lambda>_ h. Inr h),
      kl_kubernetes = (\<lambda>c. Inr (rc_host c)), kl_metrics = (\<lambda>c. Inr (rc_host c))\<rparr>"

definition no_cluster :: in_cluster where
  "no_cluster = \<lparr>ic_config = Inl (KubeError ''not in a cluster''), ic_transport_config = (\<lambda>_. Inr ''''), ic_tls_config = (\<lambda>_. Inr None)\<rparr>"

lemma no_cluster_documented: "documented_in_cluster no_cluster"
  by (simp add: documented_in_cluster_def no_cluster_def)

theorem clients_configured_witness:
  "(\<exists>c client. main_operator (default_flags\<lparr>fl_api_server := Some ''http://localhost''\<rparr>) no_cluster example_libraries =
      Inr (c, client, operator_of_flags default_flags) \<and> vs_zalando (kc_zalando client) = ''/apishttp'') \<and>
   main_operator default_flags no_cluster example_libraries =
     Inl (Failed ''Failed to setup Kubernetes config'' (KubeError ''not in a cluster''))"
proof -
  let ?fl = "default_flags\<lparr>fl_api_server := Some ''http://localhost''\<rparr>"
  have "\<exists>x. main_operator ?fl no_cluster example_libraries = Inr x"
    by (simp add: main_operator_def configureKubeConfig_def NewClientset_def NewForConfig_def NewForConfigAndClient_def
        ZalandoV1_NewForConfigAndClient_def limit_rate_def with_user_agent_def example_libraries_def default_flags_def Let_def)
  then obtain c client oc where run: "main_operator ?fl no_cluster example_libraries = Inr (c, client, oc)" by auto
  from clients_configured [OF no_cluster_documented, of ?fl example_libraries] run
  have "oc = operator_of_flags ?fl" by simp
  moreover have "operator_of_flags ?fl = operator_of_flags default_flags" by (simp add: operator_of_flags_def)
  moreover have "vs_zalando (kc_zalando client) = ''/apishttp''"
    using run by (simp add: main_operator_def configureKubeConfig_def NewClientset_def NewForConfig_def NewForConfigAndClient_def
        ZalandoV1_NewForConfigAndClient_def limit_rate_def with_user_agent_def setConfigDefaults_def example_libraries_def
        default_flags_def Let_def split: sum.splits) auto
  moreover have "main_operator default_flags no_cluster example_libraries =
     Inl (Failed ''Failed to setup Kubernetes config'' (KubeError ''not in a cluster''))"
    by (simp add: main_operator_def configureKubeConfig_def default_flags_def no_cluster_def Let_def)
  ultimately show ?thesis using run by auto
qed

end
