(* ===== verification/Store.thy ===== *)
theory Store
  imports EdsTypes "HOL-Library.Monad_Syntax"
begin

text \<open>
  The objects of the custom resources as they lie in memory: a Go pointer, slice or map is an address,
  and what it points to is a cell of the heap. The rest of the development has values instead; the
  views below say which value a struct stands for in a heap. Structs of the Kubernetes libraries
  (ObjectMeta, ListMeta, PodSpec, PersistentVolumeClaimSpec) and their cells are type parameters, and
  how they are read and copied is a parameter, because this code belongs to the libraries.
\<close>

section \<open>Structs\<close>

type_synonym addr = nat

record h_embedded_meta =
  hm_labels :: "addr option"
  hm_annotations :: "addr option"

record h_named_meta =
  hn_name :: string
  hn_labels :: "addr option"
  hn_annotations :: "addr option"

record 'b h_template =
  tm_meta :: h_embedded_meta
  tm_spec :: 'b

record 'b h_claim =
  cl_meta :: h_named_meta
  cl_spec :: 'b

record h_experimental =
  he_draining :: "addr option"

record 'b h_spec =
  hs_replicas :: "addr option"
  hs_exclude_system_indices :: bool
  hs_skip_draining :: bool
  hs_template :: "'b h_template"
  hs_scaling :: "addr option"
  hs_claims :: "addr option"
  hs_experimental :: "addr option"

record h_status =
  hu_observed_generation :: "addr option"
  hu_replicas :: int32
  hu_last_up_started :: "addr option"
  hu_last_up_ended :: "addr option"
  hu_last_down_started :: "addr option"
  hu_last_down_ended :: "addr option"

record 'b h_eds =
  hd_api_version :: string
  hd_kind :: string
  hd_meta :: 'b
  hd_spec :: "'b h_spec"
  hd_status :: h_status

record 'b h_metric_set =
  hx_meta :: 'b
  hx_metrics :: "addr option"

text \<open>The lists that the API server answers with.\<close>

record 'b h_list =
  hl_api_version :: string
  hl_kind :: string
  hl_meta :: 'b
  hl_items :: "addr option"

record 'v object_list =
  ol_api_version :: string
  ol_kind :: string
  ol_meta :: payload
  ol_items :: "'v list"

section \<open>The heap\<close>

datatype ('b, 'k) cell =
    Int32Cell int32 | Int64Cell int64 | TimeCell time | MapCell "(string \<times> string) list"
  | ScalingCell eds_scaling | DrainingCell eds_draining | ExperimentalCell h_experimental
  | EmbeddedMetaCell h_embedded_meta | NamedMetaCell h_named_meta
  | TemplateCell "'b h_template" | ClaimCell "'b h_claim" | ClaimsCell "'b h_claim list"
  | SpecCell "'b h_spec" | StatusCell h_status | DataSetCell "'b h_eds" | DataSetsCell "'b h_eds list"
  | DataSetListCell "'b h_list" | MetricCell metric | MetricsCell "metric list"
  | MetricSetCell "'b h_metric_set" | MetricSetsCell "'b h_metric_set list" | MetricSetListCell "'b h_list"
  | LibraryCell 'k

record ('b, 'k) heap =
  hp_next :: addr
  hp_cells :: "addr \<Rightarrow> ('b, 'k) cell option"

text \<open>
  A program that works on the heap. It has no result when an address is used at a type it does not
  have; Go's types exclude that, and so do the theorems.
\<close>

type_synonym ('b, 'k, 'a) st = "('b, 'k) heap \<Rightarrow> ('a \<times> ('b, 'k) heap) option"

definition st_return :: "'a \<Rightarrow> ('b, 'k, 'a) st" where
  "st_return a h = Some (a, h)"

definition st_bind :: "('b, 'k, 'a) st \<Rightarrow> ('a \<Rightarrow> ('b, 'k, 'c) st) \<Rightarrow> ('b, 'k, 'c) st" where
  "st_bind m f h = (case m h of None \<Rightarrow> None | Some (a, h') \<Rightarrow> f a h')"

text \<open>The cells of one type: how a content becomes a cell, and is read from it.\<close>

record ('b, 'k, 'a) cell_type =
  ct_put :: "'a \<Rightarrow> ('b, 'k) cell"
  ct_get :: "('b, 'k) cell \<Rightarrow> 'a option"

definition content :: "('b, 'k, 'a) cell_type \<Rightarrow> ('b, 'k) heap \<Rightarrow> addr \<Rightarrow> 'a option" where
  "content T h a = Option.bind (hp_cells h a) (ct_get T)"

definition load :: "('b, 'k, 'a) cell_type \<Rightarrow> addr \<Rightarrow> ('b, 'k, 'a) st" where
  "load T a h = map_option (\<lambda>x. (x, h)) (content T h a)"

definition alloc :: "('b, 'k, 'a) cell_type \<Rightarrow> 'a \<Rightarrow> ('b, 'k, addr) st" where
  "alloc T x h = Some (hp_next h,
     h\<lparr>hp_next := Suc (hp_next h), hp_cells := (hp_cells h)(hp_next h \<mapsto> ct_put T x)\<rparr>)"

definition store_at :: "('b, 'k, 'a) cell_type \<Rightarrow> addr \<Rightarrow> 'a \<Rightarrow> ('b, 'k, unit) st" where
  "store_at T a x h = Some ((), h\<lparr>hp_cells := (hp_cells h)(a \<mapsto> ct_put T x)\<rparr>)"

definition int32_cell :: "('b, 'k, int32) cell_type" where
  "int32_cell = \<lparr>ct_put = Int32Cell, ct_get = (\<lambda>c. case c of Int32Cell x \<Rightarrow> Some x | _ \<Rightarrow> None)\<rparr>"

definition int64_cell :: "('b, 'k, int64) cell_type" where
  "int64_cell = \<lparr>ct_put = Int64Cell, ct_get = (\<lambda>c. case c of Int64Cell x \<Rightarrow> Some x | _ \<Rightarrow> None)\<rparr>"

definition time_cell :: "('b, 'k, time) cell_type" where
  "time_cell = \<lparr>ct_put = TimeCell, ct_get = (\<lambda>c. case c of TimeCell x \<Rightarrow> Some x | _ \<Rightarrow> None)\<rparr>"

definition map_cell :: "('b, 'k, (string \<times> string) list) cell_type" where
  "map_cell = \<lparr>ct_put = MapCell, ct_get = (\<lambda>c. case c of MapCell x \<Rightarrow> Some x | _ \<Rightarrow> None)\<rparr>"

definition scaling_cell :: "('b, 'k, eds_scaling) cell_type" where
  "scaling_cell = \<lparr>ct_put = ScalingCell, ct_get = (\<lambda>c. case c of ScalingCell x \<Rightarrow> Some x | _ \<Rightarrow> None)\<rparr>"

definition draining_cell :: "('b, 'k, eds_draining) cell_type" where
  "draining_cell = \<lparr>ct_put = DrainingCell, ct_get = (\<lambda>c. case c of DrainingCell x \<Rightarrow> Some x | _ \<Rightarrow> None)\<rparr>"

definition experimental_cell :: "('b, 'k, h_experimental) cell_type" where
  "experimental_cell = \<lparr>ct_put = ExperimentalCell, ct_get = (\<lambda>c. case c of ExperimentalCell x \<Rightarrow> Some x | _ \<Rightarrow> None)\<rparr>"

definition embedded_meta_cell :: "('b, 'k, h_embedded_meta) cell_type" where
  "embedded_meta_cell = \<lparr>ct_put = EmbeddedMetaCell, ct_get = (\<lambda>c. case c of EmbeddedMetaCell x \<Rightarrow> Some x | _ \<Rightarrow> None)\<rparr>"

definition named_meta_cell :: "('b, 'k, h_named_meta) cell_type" where
  "named_meta_cell = \<lparr>ct_put = NamedMetaCell, ct_get = (\<lambda>c. case c of NamedMetaCell x \<Rightarrow> Some x | _ \<Rightarrow> None)\<rparr>"

definition template_cell :: "('b, 'k, 'b h_template) cell_type" where
  "template_cell = \<lparr>ct_put = TemplateCell, ct_get = (\<lambda>c. case c of TemplateCell x \<Rightarrow> Some x | _ \<Rightarrow> None)\<rparr>"

definition claim_cell :: "('b, 'k, 'b h_claim) cell_type" where
  "claim_cell = \<lparr>ct_put = ClaimCell, ct_get = (\<lambda>c. case c of ClaimCell x \<Rightarrow> Some x | _ \<Rightarrow> None)\<rparr>"

definition claims_cell :: "('b, 'k, 'b h_claim list) cell_type" where
  "claims_cell = \<lparr>ct_put = ClaimsCell, ct_get = (\<lambda>c. case c of ClaimsCell x \<Rightarrow> Some x | _ \<Rightarrow> None)\<rparr>"

definition spec_cell :: "('b, 'k, 'b h_spec) cell_type" where
  "spec_cell = \<lparr>ct_put = SpecCell, ct_get = (\<lambda>c. case c of SpecCell x \<Rightarrow> Some x | _ \<Rightarrow> None)\<rparr>"

definition status_cell :: "('b, 'k, h_status) cell_type" where
  "status_cell = \<lparr>ct_put = StatusCell, ct_get = (\<lambda>c. case c of StatusCell x \<Rightarrow> Some x | _ \<Rightarrow> None)\<rparr>"

definition data_set_cell :: "('b, 'k, 'b h_eds) cell_type" where
  "data_set_cell = \<lparr>ct_put = DataSetCell, ct_get = (\<lambda>c. case c of DataSetCell x \<Rightarrow> Some x | _ \<Rightarrow> None)\<rparr>"

definition data_sets_cell :: "('b, 'k, 'b h_eds list) cell_type" where
  "data_sets_cell = \<lparr>ct_put = DataSetsCell, ct_get = (\<lambda>c. case c of DataSetsCell x \<Rightarrow> Some x | _ \<Rightarrow> None)\<rparr>"

definition data_set_list_cell :: "('b, 'k, 'b h_list) cell_type" where
  "data_set_list_cell = \<lparr>ct_put = DataSetListCell, ct_get = (\<lambda>c. case c of DataSetListCell x \<Rightarrow> Some x | _ \<Rightarrow> None)\<rparr>"

definition metric_cell :: "('b, 'k, metric) cell_type" where
  "metric_cell = \<lparr>ct_put = MetricCell, ct_get = (\<lambda>c. case c of MetricCell x \<Rightarrow> Some x | _ \<Rightarrow> None)\<rparr>"

definition metrics_cell :: "('b, 'k, metric list) cell_type" where
  "metrics_cell = \<lparr>ct_put = MetricsCell, ct_get = (\<lambda>c. case c of MetricsCell x \<Rightarrow> Some x | _ \<Rightarrow> None)\<rparr>"

definition metric_set_cell :: "('b, 'k, 'b h_metric_set) cell_type" where
  "metric_set_cell = \<lparr>ct_put = MetricSetCell, ct_get = (\<lambda>c. case c of MetricSetCell x \<Rightarrow> Some x | _ \<Rightarrow> None)\<rparr>"

definition metric_sets_cell :: "('b, 'k, 'b h_metric_set list) cell_type" where
  "metric_sets_cell = \<lparr>ct_put = MetricSetsCell, ct_get = (\<lambda>c. case c of MetricSetsCell x \<Rightarrow> Some x | _ \<Rightarrow> None)\<rparr>"

definition metric_set_list_cell :: "('b, 'k, 'b h_list) cell_type" where
  "metric_set_list_cell = \<lparr>ct_put = MetricSetListCell, ct_get = (\<lambda>c. case c of MetricSetListCell x \<Rightarrow> Some x | _ \<Rightarrow> None)\<rparr>"

definition proper_type :: "('b, 'k, 'a) cell_type \<Rightarrow> bool" where
  "proper_type T \<longleftrightarrow> (\<forall>x. ct_get T (ct_put T x) = Some x)"

lemmas cell_defs = int32_cell_def int64_cell_def time_cell_def map_cell_def scaling_cell_def draining_cell_def
  experimental_cell_def embedded_meta_cell_def named_meta_cell_def template_cell_def claim_cell_def claims_cell_def
  spec_cell_def status_cell_def data_set_cell_def data_sets_cell_def data_set_list_cell_def metric_cell_def
  metrics_cell_def metric_set_cell_def metric_sets_cell_def metric_set_list_cell_def

lemma proper_types [simp]:
  "proper_type int32_cell" "proper_type int64_cell" "proper_type time_cell" "proper_type map_cell"
  "proper_type scaling_cell" "proper_type draining_cell" "proper_type experimental_cell"
  "proper_type embedded_meta_cell" "proper_type named_meta_cell" "proper_type template_cell" "proper_type claim_cell"
  "proper_type claims_cell" "proper_type spec_cell" "proper_type status_cell" "proper_type data_set_cell"
  "proper_type data_sets_cell" "proper_type data_set_list_cell" "proper_type metric_cell" "proper_type metrics_cell"
  "proper_type metric_set_cell" "proper_type metric_sets_cell" "proper_type metric_set_list_cell"
  by (simp_all add: proper_type_def cell_defs)

section \<open>What a struct stands for\<close>

text \<open>
  A view reads the value a struct stands for, following its addresses; the reach is the set of the
  addresses it follows.
\<close>

type_synonym ('b, 'k, 'h, 'v) view = "('b, 'k) heap \<Rightarrow> 'h \<Rightarrow> 'v option"
type_synonym ('b, 'k, 'h) reach = "('b, 'k) heap \<Rightarrow> 'h \<Rightarrow> addr set"

definition view_plain :: "('b, 'k, 'a, 'a) view" where
  "view_plain h x = Some x"

definition reach_plain :: "('b, 'k, 'a) reach" where
  "reach_plain h x = {}"

definition view_entries :: "('b, 'k, (string \<times> string) list, (string \<times> string) list) view" where
  "view_entries h kvs = (if distinct (map fst kvs) then Some kvs else None)"

fun view_pointer :: "('b, 'k, 'h) cell_type \<Rightarrow> ('b, 'k, 'h, 'v) view \<Rightarrow> ('b, 'k, addr option, 'v option) view" where
  "view_pointer T view h None = Some None"
| "view_pointer T view h (Some a) = Option.bind (content T h a) (\<lambda>x. map_option Some (view h x))"

fun reach_pointer :: "('b, 'k, 'h) cell_type \<Rightarrow> ('b, 'k, 'h) reach \<Rightarrow> ('b, 'k, addr option) reach" where
  "reach_pointer T reach h None = {}"
| "reach_pointer T reach h (Some a) = insert a (case content T h a of None \<Rightarrow> {} | Some x \<Rightarrow> reach h x)"

fun view_list :: "('b, 'k, 'h, 'v) view \<Rightarrow> ('b, 'k, 'h list, 'v list) view" where
  "view_list view h [] = Some []"
| "view_list view h (x # xs) = do { v \<leftarrow> view h x; vs \<leftarrow> view_list view h xs; Some (v # vs) }"

fun reach_list :: "('b, 'k, 'h) reach \<Rightarrow> ('b, 'k, 'h list) reach" where
  "reach_list reach h [] = {}"
| "reach_list reach h (x # xs) = reach h x \<union> reach_list reach h xs"

fun view_pair :: "('b, 'k, 'h, 'v) view \<Rightarrow> ('b, 'k, 'i, 'w) view \<Rightarrow> ('b, 'k, 'h \<times> 'i, 'v \<times> 'w) view" where
  "view_pair view1 view2 h (x, y) = do { v \<leftarrow> view1 h x; w \<leftarrow> view2 h y; Some (v, w) }"

fun reach_pair :: "('b, 'k, 'h) reach \<Rightarrow> ('b, 'k, 'i) reach \<Rightarrow> ('b, 'k, 'h \<times> 'i) reach" where
  "reach_pair reach1 reach2 h (x, y) = reach1 h x \<union> reach2 h y"

abbreviation view_map :: "('b, 'k, addr option, gomap) view" where
  "view_map \<equiv> view_pointer map_cell view_entries"

abbreviation reach_map :: "('b, 'k, addr option) reach" where
  "reach_map \<equiv> reach_pointer map_cell reach_plain"

end
