(* ===== verification/DeepCopy.thy ===== *)
theory DeepCopy
  imports Store
begin

text \<open>
  pkg/apis/zalando.org/v1/zz_generated.deepcopy.go. A DeepCopyInto takes the contents of the receiver
  and gives the contents of the struct it writes; the memory it needs is allocated on the way. The new
  struct or slice is allocated here when its contents are complete, in the code before they are
  filled in; which address it gets cannot be observed.
\<close>

section \<open>The libraries\<close>

text \<open>
  How the structs of the Kubernetes libraries are read, which memory they reach, and their own
  DeepCopyInto methods. A time stamp is a value.
\<close>

record ('b, 'k) library =
  lb_view_meta :: "('b, 'k, 'b, object_meta) view"
  lb_view_list_meta :: "('b, 'k, 'b, payload) view"
  lb_view_pod_spec :: "('b, 'k, 'b, payload) view"
  lb_view_claim_spec :: "('b, 'k, 'b, payload) view"
  lb_reach :: "('b, 'k, 'b) reach"
  lb_copy_meta :: "'b \<Rightarrow> ('b, 'k, 'b) st"
  lb_copy_list_meta :: "'b \<Rightarrow> ('b, 'k, 'b) st"
  lb_copy_pod_spec :: "'b \<Rightarrow> ('b, 'k, 'b) st"
  lb_copy_claim_spec :: "'b \<Rightarrow> ('b, 'k, 'b) st"
  lb_copy_time :: "time \<Rightarrow> ('b, 'k, time) st"

section \<open>Pointers, slices and maps\<close>

definition copy_pointer :: "('b, 'k, 'h) cell_type \<Rightarrow> ('h \<Rightarrow> ('b, 'k, 'h) st) \<Rightarrow> addr option \<Rightarrow> ('b, 'k, addr option) st" where
  "copy_pointer T deepCopyInto p =
     (case p of
        None \<Rightarrow> st_return None
      | Some a \<Rightarrow> st_bind (load T a) (\<lambda>x. st_bind (deepCopyInto x) (\<lambda>x'. st_bind (alloc T x') (\<lambda>a'. st_return (Some a')))))"

fun copy_list :: "('h \<Rightarrow> ('b, 'k, 'h) st) \<Rightarrow> 'h list \<Rightarrow> ('b, 'k, 'h list) st" where
  "copy_list deepCopyInto [] = st_return []"
| "copy_list deepCopyInto (x # xs) =
     st_bind (deepCopyInto x) (\<lambda>x'. st_bind (copy_list deepCopyInto xs) (\<lambda>xs'. st_return (x' # xs')))"

definition copy_entries :: "(string \<times> string) list \<Rightarrow> ('b, 'k, (string \<times> string) list) st" where
  "copy_entries kvs = st_return (foldl (\<lambda>m (key, val). AList.update key val m) [] kvs)"

definition copy_map :: "addr option \<Rightarrow> ('b, 'k, addr option) st" where
  "copy_map = copy_pointer map_cell copy_entries"

section \<open>Metadata, templates and claims\<close>

definition EmbeddedObjectMeta_DeepCopyInto :: "h_embedded_meta \<Rightarrow> ('b, 'k, h_embedded_meta) st" where
  "EmbeddedObjectMeta_DeepCopyInto inn =
     st_bind (copy_map (hm_labels inn)) (\<lambda>labels.
     st_bind (copy_map (hm_annotations inn)) (\<lambda>annotations.
       st_return (inn\<lparr>hm_labels := labels, hm_annotations := annotations\<rparr>)))"

definition EmbeddedObjectMetaWithName_DeepCopyInto :: "h_named_meta \<Rightarrow> ('b, 'k, h_named_meta) st" where
  "EmbeddedObjectMetaWithName_DeepCopyInto inn =
     st_bind (copy_map (hn_labels inn)) (\<lambda>labels.
     st_bind (copy_map (hn_annotations inn)) (\<lambda>annotations.
       st_return (inn\<lparr>hn_labels := labels, hn_annotations := annotations\<rparr>)))"

definition PodTemplateSpec_DeepCopyInto :: "('b, 'k) library \<Rightarrow> 'b h_template \<Rightarrow> ('b, 'k, 'b h_template) st" where
  "PodTemplateSpec_DeepCopyInto L inn =
     st_bind (EmbeddedObjectMeta_DeepCopyInto (tm_meta inn)) (\<lambda>meta.
     st_bind (lb_copy_pod_spec L (tm_spec inn)) (\<lambda>spec.
       st_return (inn\<lparr>tm_meta := meta, tm_spec := spec\<rparr>)))"

definition PersistentVolumeClaim_DeepCopyInto :: "('b, 'k) library \<Rightarrow> 'b h_claim \<Rightarrow> ('b, 'k, 'b h_claim) st" where
  "PersistentVolumeClaim_DeepCopyInto L inn =
     st_bind (EmbeddedObjectMetaWithName_DeepCopyInto (cl_meta inn)) (\<lambda>meta.
     st_bind (lb_copy_claim_spec L (cl_spec inn)) (\<lambda>spec.
       st_return (inn\<lparr>cl_meta := meta, cl_spec := spec\<rparr>)))"

section \<open>The data set\<close>

definition ElasticsearchDataSetDraining_DeepCopyInto :: "eds_draining \<Rightarrow> ('b, 'k, eds_draining) st" where
  "ElasticsearchDataSetDraining_DeepCopyInto inn = st_return inn"

definition ElasticsearchDataSetScaling_DeepCopyInto :: "eds_scaling \<Rightarrow> ('b, 'k, eds_scaling) st" where
  "ElasticsearchDataSetScaling_DeepCopyInto inn = st_return inn"

definition ExperimentalSpec_DeepCopyInto :: "h_experimental \<Rightarrow> ('b, 'k, h_experimental) st" where
  "ExperimentalSpec_DeepCopyInto inn =
     st_bind (copy_pointer draining_cell st_return (he_draining inn)) (\<lambda>draining.
       st_return (inn\<lparr>he_draining := draining\<rparr>))"

definition ElasticsearchDataSetSpec_DeepCopyInto :: "('b, 'k) library \<Rightarrow> 'b h_spec \<Rightarrow> ('b, 'k, 'b h_spec) st" where
  "ElasticsearchDataSetSpec_DeepCopyInto L inn =
     st_bind (copy_pointer int32_cell st_return (hs_replicas inn)) (\<lambda>replicas.
     st_bind (PodTemplateSpec_DeepCopyInto L (hs_template inn)) (\<lambda>template.
     st_bind (copy_pointer scaling_cell st_return (hs_scaling inn)) (\<lambda>scaling.
     st_bind (copy_pointer claims_cell (copy_list (PersistentVolumeClaim_DeepCopyInto L)) (hs_claims inn)) (\<lambda>claims.
     st_bind (copy_pointer experimental_cell ExperimentalSpec_DeepCopyInto (hs_experimental inn)) (\<lambda>experimental.
       st_return (inn\<lparr>hs_replicas := replicas, hs_template := template, hs_scaling := scaling,
         hs_claims := claims, hs_experimental := experimental\<rparr>))))))"

definition ElasticsearchDataSetStatus_DeepCopyInto :: "('b, 'k) library \<Rightarrow> h_status \<Rightarrow> ('b, 'k, h_status) st" where
  "ElasticsearchDataSetStatus_DeepCopyInto L inn =
     st_bind (copy_pointer int64_cell st_return (hu_observed_generation inn)) (\<lambda>observed.
     st_bind (copy_pointer time_cell (lb_copy_time L) (hu_last_up_started inn)) (\<lambda>up_started.
     st_bind (copy_pointer time_cell (lb_copy_time L) (hu_last_up_ended inn)) (\<lambda>up_ended.
     st_bind (copy_pointer time_cell (lb_copy_time L) (hu_last_down_started inn)) (\<lambda>down_started.
     st_bind (copy_pointer time_cell (lb_copy_time L) (hu_last_down_ended inn)) (\<lambda>down_ended.
       st_return (inn\<lparr>hu_observed_generation := observed, hu_last_up_started := up_started,
         hu_last_up_ended := up_ended, hu_last_down_started := down_started, hu_last_down_ended := down_ended\<rparr>))))))"

definition ElasticsearchDataSet_DeepCopyInto :: "('b, 'k) library \<Rightarrow> 'b h_eds \<Rightarrow> ('b, 'k, 'b h_eds) st" where
  "ElasticsearchDataSet_DeepCopyInto L inn =
     st_bind (lb_copy_meta L (hd_meta inn)) (\<lambda>meta.
     st_bind (ElasticsearchDataSetSpec_DeepCopyInto L (hd_spec inn)) (\<lambda>spec.
     st_bind (ElasticsearchDataSetStatus_DeepCopyInto L (hd_status inn)) (\<lambda>status.
       st_return (inn\<lparr>hd_meta := meta, hd_spec := spec, hd_status := status\<rparr>))))"

definition ElasticsearchDataSetList_DeepCopyInto :: "('b, 'k) library \<Rightarrow> 'b h_list \<Rightarrow> ('b, 'k, 'b h_list) st" where
  "ElasticsearchDataSetList_DeepCopyInto L inn =
     st_bind (lb_copy_list_meta L (hl_meta inn)) (\<lambda>meta.
     st_bind (copy_pointer data_sets_cell (copy_list (ElasticsearchDataSet_DeepCopyInto L)) (hl_items inn)) (\<lambda>items.
       st_return (inn\<lparr>hl_meta := meta, hl_items := items\<rparr>)))"

section \<open>The metric set\<close>

definition ElasticsearchMetric_DeepCopyInto :: "('b, 'k) library \<Rightarrow> metric \<Rightarrow> ('b, 'k, metric) st" where
  "ElasticsearchMetric_DeepCopyInto L inn =
     st_bind (lb_copy_time L (mt_timestamp inn)) (\<lambda>timestamp. st_return (inn\<lparr>mt_timestamp := timestamp\<rparr>))"

definition ElasticsearchMetricSet_DeepCopyInto :: "('b, 'k) library \<Rightarrow> 'b h_metric_set \<Rightarrow> ('b, 'k, 'b h_metric_set) st" where
  "ElasticsearchMetricSet_DeepCopyInto L inn =
     st_bind (lb_copy_meta L (hx_meta inn)) (\<lambda>meta.
     st_bind (copy_pointer metrics_cell (copy_list (ElasticsearchMetric_DeepCopyInto L)) (hx_metrics inn)) (\<lambda>metrics.
       st_return (inn\<lparr>hx_meta := meta, hx_metrics := metrics\<rparr>)))"

definition ElasticsearchMetricSetList_DeepCopyInto :: "('b, 'k) library \<Rightarrow> 'b h_list \<Rightarrow> ('b, 'k, 'b h_list) st" where
  "ElasticsearchMetricSetList_DeepCopyInto L inn =
     st_bind (lb_copy_list_meta L (hl_meta inn)) (\<lambda>meta.
     st_bind (copy_pointer metric_sets_cell (copy_list (ElasticsearchMetricSet_DeepCopyInto L)) (hl_items inn)) (\<lambda>items.
       st_return (inn\<lparr>hl_meta := meta, hl_items := items\<rparr>)))"

section \<open>Copies behind pointers\<close>

text \<open>A nil receiver gives nil. DeepCopyObject gives the copy as an object of the interface, or its nil.\<close>

definition EmbeddedObjectMeta_DeepCopy :: "addr option \<Rightarrow> ('b, 'k, addr option) st" where
  "EmbeddedObjectMeta_DeepCopy = copy_pointer embedded_meta_cell EmbeddedObjectMeta_DeepCopyInto"

definition EmbeddedObjectMetaWithName_DeepCopy :: "addr option \<Rightarrow> ('b, 'k, addr option) st" where
  "EmbeddedObjectMetaWithName_DeepCopy = copy_pointer named_meta_cell EmbeddedObjectMetaWithName_DeepCopyInto"

definition PodTemplateSpec_DeepCopy :: "('b, 'k) library \<Rightarrow> addr option \<Rightarrow> ('b, 'k, addr option) st" where
  "PodTemplateSpec_DeepCopy L = copy_pointer template_cell (PodTemplateSpec_DeepCopyInto L)"

definition PersistentVolumeClaim_DeepCopy :: "('b, 'k) library \<Rightarrow> addr option \<Rightarrow> ('b, 'k, addr option) st" where
  "PersistentVolumeClaim_DeepCopy L = copy_pointer claim_cell (PersistentVolumeClaim_DeepCopyInto L)"

definition ElasticsearchDataSetDraining_DeepCopy :: "addr option \<Rightarrow> ('b, 'k, addr option) st" where
  "ElasticsearchDataSetDraining_DeepCopy = copy_pointer draining_cell ElasticsearchDataSetDraining_DeepCopyInto"

definition ElasticsearchDataSetScaling_DeepCopy :: "addr option \<Rightarrow> ('b, 'k, addr option) st" where
  "ElasticsearchDataSetScaling_DeepCopy = copy_pointer scaling_cell ElasticsearchDataSetScaling_DeepCopyInto"

definition ExperimentalSpec_DeepCopy :: "addr option \<Rightarrow> ('b, 'k, addr option) st" where
  "ExperimentalSpec_DeepCopy = copy_pointer experimental_cell ExperimentalSpec_DeepCopyInto"

definition ElasticsearchDataSetSpec_DeepCopy :: "('b, 'k) library \<Rightarrow> addr option \<Rightarrow> ('b, 'k, addr option) st" where
  "ElasticsearchDataSetSpec_DeepCopy L = copy_pointer spec_cell (ElasticsearchDataSetSpec_DeepCopyInto L)"

definition ElasticsearchDataSetStatus_DeepCopy :: "('b, 'k) library \<Rightarrow> addr option \<Rightarrow> ('b, 'k, addr option) st" where
  "ElasticsearchDataSetStatus_DeepCopy L = copy_pointer status_cell (ElasticsearchDataSetStatus_DeepCopyInto L)"

definition ElasticsearchDataSet_DeepCopy :: "('b, 'k) library \<Rightarrow> addr option \<Rightarrow> ('b, 'k, addr option) st" where
  "ElasticsearchDataSet_DeepCopy L = copy_pointer data_set_cell (ElasticsearchDataSet_DeepCopyInto L)"

definition ElasticsearchDataSetList_DeepCopy :: "('b, 'k) library \<Rightarrow> addr option \<Rightarrow> ('b, 'k, addr option) st" where
  "ElasticsearchDataSetList_DeepCopy L = copy_pointer data_set_list_cell (ElasticsearchDataSetList_DeepCopyInto L)"

definition ElasticsearchMetric_DeepCopy :: "('b, 'k) library \<Rightarrow> addr option \<Rightarrow> ('b, 'k, addr option) st" where
  "ElasticsearchMetric_DeepCopy L = copy_pointer metric_cell (ElasticsearchMetric_DeepCopyInto L)"

definition ElasticsearchMetricSet_DeepCopy :: "('b, 'k) library \<Rightarrow> addr option \<Rightarrow> ('b, 'k, addr option) st" where
  "ElasticsearchMetricSet_DeepCopy L = copy_pointer metric_set_cell (ElasticsearchMetricSet_DeepCopyInto L)"

definition ElasticsearchMetricSetList_DeepCopy :: "('b, 'k) library \<Rightarrow> addr option \<Rightarrow> ('b, 'k, addr option) st" where
  "ElasticsearchMetricSetList_DeepCopy L = copy_pointer metric_set_list_cell (ElasticsearchMetricSetList_DeepCopyInto L)"

datatype runtime_object = Object addr | NilObject

definition as_object :: "('b, 'k, addr option) st \<Rightarrow> ('b, 'k, runtime_object) st" where
  "as_object deepCopy = st_bind deepCopy (\<lambda>c. st_return (case c of Some a \<Rightarrow> Object a | None \<Rightarrow> NilObject))"

definition ElasticsearchDataSet_DeepCopyObject :: "('b, 'k) library \<Rightarrow> addr option \<Rightarrow> ('b, 'k, runtime_object) st" where
  "ElasticsearchDataSet_DeepCopyObject L inn = as_object (ElasticsearchDataSet_DeepCopy L inn)"

definition ElasticsearchDataSetList_DeepCopyObject :: "('b, 'k) library \<Rightarrow> addr option \<Rightarrow> ('b, 'k, runtime_object) st" where
  "ElasticsearchDataSetList_DeepCopyObject L inn = as_object (ElasticsearchDataSetList_DeepCopy L inn)"

definition ElasticsearchMetricSet_DeepCopyObject :: "('b, 'k) library \<Rightarrow> addr option \<Rightarrow> ('b, 'k, runtime_object) st" where
  "ElasticsearchMetricSet_DeepCopyObject L inn = as_object (ElasticsearchMetricSet_DeepCopy L inn)"

definition ElasticsearchMetricSetList_DeepCopyObject :: "('b, 'k) library \<Rightarrow> addr option \<Rightarrow> ('b, 'k, runtime_object) st" where
  "ElasticsearchMetricSetList_DeepCopyObject L inn = as_object (ElasticsearchMetricSetList_DeepCopy L inn)"

section \<open>What the structs stand for\<close>

definition view_embedded_meta :: "('b, 'k, h_embedded_meta, embedded_meta) view" where
  "view_embedded_meta h m = do {
     labels \<leftarrow> view_map h (hm_labels m);
     annotations \<leftarrow> view_map h (hm_annotations m);
     Some \<lparr>em_labels = labels, em_annotations = annotations\<rparr> }"

definition view_named_meta :: "('b, 'k, h_named_meta, string \<times> gomap \<times> gomap) view" where
  "view_named_meta h m = do {
     labels \<leftarrow> view_map h (hn_labels m);
     annotations \<leftarrow> view_map h (hn_annotations m);
     Some (hn_name m, labels, annotations) }"

definition view_template :: "('b, 'k) library \<Rightarrow> ('b, 'k, 'b h_template, pod_template) view" where
  "view_template L h t = do {
     meta \<leftarrow> view_embedded_meta h (tm_meta t);
     spec \<leftarrow> lb_view_pod_spec L h (tm_spec t);
     Some \<lparr>pt_meta = meta, pt_spec = spec\<rparr> }"

definition view_claim :: "('b, 'k) library \<Rightarrow> ('b, 'k, 'b h_claim, volume_claim) view" where
  "view_claim L h c = do {
     meta \<leftarrow> view_named_meta h (cl_meta c);
     spec \<leftarrow> lb_view_claim_spec L h (cl_spec c);
     Some \<lparr>vc_name = fst meta, vc_labels = fst (snd meta), vc_annotations = snd (snd meta), vc_spec = spec\<rparr> }"

definition view_experimental :: "('b, 'k, h_experimental, experimental_spec) view" where
  "view_experimental h x = do {
     draining \<leftarrow> view_pointer draining_cell view_plain h (he_draining x);
     Some \<lparr>ex_draining = draining\<rparr> }"

definition slice_elements :: "'v list option \<Rightarrow> 'v list" where
  "slice_elements s = (case s of None \<Rightarrow> [] | Some xs \<Rightarrow> xs)"

definition view_spec :: "('b, 'k) library \<Rightarrow> ('b, 'k, 'b h_spec, eds_spec) view" where
  "view_spec L h s = do {
     replicas \<leftarrow> view_pointer int32_cell view_plain h (hs_replicas s);
     template \<leftarrow> view_template L h (hs_template s);
     scaling \<leftarrow> view_pointer scaling_cell view_plain h (hs_scaling s);
     claims \<leftarrow> view_pointer claims_cell (view_list (view_claim L)) h (hs_claims s);
     experimental \<leftarrow> view_pointer experimental_cell view_experimental h (hs_experimental s);
     Some \<lparr>sp_replicas = replicas, sp_exclude_system_indices = hs_exclude_system_indices s,
       sp_skip_draining = hs_skip_draining s, sp_template = template, sp_scaling = scaling,
       sp_volume_claims = slice_elements claims, sp_experimental = experimental\<rparr> }"

definition view_status :: "('b, 'k, h_status, eds_status) view" where
  "view_status h u = do {
     observed \<leftarrow> view_pointer int64_cell view_plain h (hu_observed_generation u);
     up_started \<leftarrow> view_pointer time_cell view_plain h (hu_last_up_started u);
     up_ended \<leftarrow> view_pointer time_cell view_plain h (hu_last_up_ended u);
     down_started \<leftarrow> view_pointer time_cell view_plain h (hu_last_down_started u);
     down_ended \<leftarrow> view_pointer time_cell view_plain h (hu_last_down_ended u);
     Some \<lparr>ss_observed_generation = observed, ss_replicas = hu_replicas u, ss_last_up_started = up_started,
       ss_last_up_ended = up_ended, ss_last_down_started = down_started, ss_last_down_ended = down_ended\<rparr> }"

definition view_eds :: "('b, 'k) library \<Rightarrow> ('b, 'k, 'b h_eds, eds) view" where
  "view_eds L h d = do {
     meta \<leftarrow> lb_view_meta L h (hd_meta d);
     spec \<leftarrow> view_spec L h (hd_spec d);
     status \<leftarrow> view_status h (hd_status d);
     Some \<lparr>eds_api_version = hd_api_version d, eds_kind = hd_kind d, eds_meta = meta, eds_spec = spec,
       eds_status = status\<rparr> }"

definition view_metric_set :: "('b, 'k) library \<Rightarrow> ('b, 'k, 'b h_metric_set, metric_set) view" where
  "view_metric_set L h x = do {
     meta \<leftarrow> lb_view_meta L h (hx_meta x);
     metrics \<leftarrow> view_pointer metrics_cell (view_list view_plain) h (hx_metrics x);
     Some \<lparr>ms_meta = meta, ms_metrics = slice_elements metrics\<rparr> }"

definition view_objects :: "('b, 'k) library \<Rightarrow> ('b, 'k, 'h list) cell_type \<Rightarrow> ('b, 'k, 'h, 'v) view \<Rightarrow> ('b, 'k, 'b h_list, 'v object_list) view" where
  "view_objects L T view h l = do {
     meta \<leftarrow> lb_view_list_meta L h (hl_meta l);
     items \<leftarrow> view_pointer T (view_list view) h (hl_items l);
     Some \<lparr>ol_api_version = hl_api_version l, ol_kind = hl_kind l, ol_meta = meta, ol_items = slice_elements items\<rparr> }"

text \<open>The memory they reach.\<close>

definition reach_embedded_meta :: "('b, 'k, h_embedded_meta) reach" where
  "reach_embedded_meta h m = reach_map h (hm_labels m) \<union> reach_map h (hm_annotations m)"

definition reach_named_meta :: "('b, 'k, h_named_meta) reach" where
  "reach_named_meta h m = reach_map h (hn_labels m) \<union> reach_map h (hn_annotations m)"

definition reach_template :: "('b, 'k) library \<Rightarrow> ('b, 'k, 'b h_template) reach" where
  "reach_template L h t = reach_embedded_meta h (tm_meta t) \<union> lb_reach L h (tm_spec t)"

definition reach_claim :: "('b, 'k) library \<Rightarrow> ('b, 'k, 'b h_claim) reach" where
  "reach_claim L h c = reach_named_meta h (cl_meta c) \<union> lb_reach L h (cl_spec c)"

definition reach_experimental :: "('b, 'k, h_experimental) reach" where
  "reach_experimental h x = reach_pointer draining_cell reach_plain h (he_draining x)"

definition reach_spec :: "('b, 'k) library \<Rightarrow> ('b, 'k, 'b h_spec) reach" where
  "reach_spec L h s =
     reach_pointer int32_cell reach_plain h (hs_replicas s) \<union> reach_template L h (hs_template s) \<union>
     reach_pointer scaling_cell reach_plain h (hs_scaling s) \<union>
     reach_pointer claims_cell (reach_list (reach_claim L)) h (hs_claims s) \<union>
     reach_pointer experimental_cell reach_experimental h (hs_experimental s)"

definition reach_status :: "('b, 'k, h_status) reach" where
  "reach_status h u =
     reach_pointer int64_cell reach_plain h (hu_observed_generation u) \<union>
     reach_pointer time_cell reach_plain h (hu_last_up_started u) \<union>
     reach_pointer time_cell reach_plain h (hu_last_up_ended u) \<union>
     reach_pointer time_cell reach_plain h (hu_last_down_started u) \<union>
     reach_pointer time_cell reach_plain h (hu_last_down_ended u)"

definition reach_eds :: "('b, 'k) library \<Rightarrow> ('b, 'k, 'b h_eds) reach" where
  "reach_eds L h d = lb_reach L h (hd_meta d) \<union> reach_spec L h (hd_spec d) \<union> reach_status h (hd_status d)"

definition reach_metric_set :: "('b, 'k) library \<Rightarrow> ('b, 'k, 'b h_metric_set) reach" where
  "reach_metric_set L h x = lb_reach L h (hx_meta x) \<union> reach_pointer metrics_cell (reach_list reach_plain) h (hx_metrics x)"

definition reach_objects :: "('b, 'k) library \<Rightarrow> ('b, 'k, 'h list) cell_type \<Rightarrow> ('b, 'k, 'h) reach \<Rightarrow> ('b, 'k, 'b h_list) reach" where
  "reach_objects L T reach h l = lb_reach L h (hl_meta l) \<union> reach_pointer T (reach_list reach) h (hl_items l)"

end
