(* ===== verification/CopyProps.thy ===== *)
theory CopyProps
  imports DeepCopy
begin

text \<open>
  What a deep copy promises, as the locale \<open>deep_copier\<close>: the copy stands for the same value, and all its
  memory is new. Pointers, slices, pairs of fields and structs of copied parts keep the promise, so
  every generated method does.
\<close>

section \<open>Heaps that grow\<close>

definition wf_heap :: "('b, 'k) heap \<Rightarrow> bool" where
  "wf_heap h \<longleftrightarrow> (\<forall>a. hp_cells h a \<noteq> None \<longrightarrow> a < hp_next h)"

definition extends :: "('b, 'k) heap \<Rightarrow> ('b, 'k) heap \<Rightarrow> bool" where
  "extends h h' \<longleftrightarrow> hp_next h \<le> hp_next h' \<and> (\<forall>a < hp_next h. hp_cells h' a = hp_cells h a)"

definition agree :: "addr set \<Rightarrow> ('b, 'k) heap \<Rightarrow> ('b, 'k) heap \<Rightarrow> bool" where
  "agree A h h' \<longleftrightarrow> (\<forall>a \<in> A. hp_cells h' a = hp_cells h a)"

definition newer :: "('b, 'k) heap \<Rightarrow> ('b, 'k) heap \<Rightarrow> addr set" where
  "newer h h' = {hp_next h ..< hp_next h'}"

lemma extends_refl [simp, intro]: "extends h h"
  by (simp add: extends_def)

lemma extends_trans [trans]: "extends h h' \<Longrightarrow> extends h' h'' \<Longrightarrow> extends h h''"
  by (simp add: extends_def)

lemma newer_mono: "extends h0 h \<Longrightarrow> extends h' h'' \<Longrightarrow> newer h h' \<subseteq> newer h0 h''"
  by (auto simp: newer_def extends_def)

lemma newer_refl [simp]: "newer h h = {}"
  by (simp add: newer_def)

lemma agree_Un [simp]: "agree (A \<union> B) h h' \<longleftrightarrow> agree A h h' \<and> agree B h h'"
  by (auto simp: agree_def)

lemma agree_insert [simp]: "agree (insert a A) h h' \<longleftrightarrow> hp_cells h' a = hp_cells h a \<and> agree A h h'"
  by (auto simp: agree_def)

lemma agree_empty [simp]: "agree {} h h'"
  by (simp add: agree_def)

lemma agree_mono: "agree B h h' \<Longrightarrow> A \<subseteq> B \<Longrightarrow> agree A h h'"
  by (auto simp: agree_def)

lemma agree_extends: "extends h h' \<Longrightarrow> A \<subseteq> {..< hp_next h} \<Longrightarrow> agree A h h'"
  by (auto simp: agree_def extends_def)

lemma alloc_facts:
  assumes "wf_heap h" "proper_type T" "alloc T x h = Some (a, h')"
  shows "wf_heap h'" "extends h h'" "content T h' a = Some x" "a \<in> newer h h'"
  using assms by (auto simp: alloc_def wf_heap_def extends_def content_def proper_type_def newer_def less_Suc_eq)

lemma content_same: "hp_cells h' a = hp_cells h a \<Longrightarrow> content T h' a = content T h a"
  by (simp add: content_def)

section \<open>The contract\<close>

locale deep_copier =
  fixes view :: "('b, 'k, 'h, 'v) view"
    and reach :: "('b, 'k, 'h) reach"
    and copy :: "'h \<Rightarrow> ('b, 'k, 'h) st"
  assumes view_frame: "view h x = Some v \<Longrightarrow> agree (reach h x) h h' \<Longrightarrow> view h' x = Some v"
    and reach_frame: "view h x = Some v \<Longrightarrow> agree (reach h x) h h' \<Longrightarrow> reach h' x = reach h x"
    and reach_allocated: "view h x = Some v \<Longrightarrow> a \<in> reach h x \<Longrightarrow> hp_cells h a \<noteq> None"
    and copies: "wf_heap h \<Longrightarrow> view h x = Some v \<Longrightarrow>
      \<exists>x' h'. copy x h = Some (x', h') \<and> wf_heap h' \<and> extends h h' \<and> view h' x' = Some v \<and> reach h' x' \<subseteq> newer h h'"
begin

lemma reach_old: "wf_heap h \<Longrightarrow> view h x = Some v \<Longrightarrow> reach h x \<subseteq> {..< hp_next h}"
  using reach_allocated by (fastforce simp: wf_heap_def)

lemma same: "view h x = Some v \<Longrightarrow> agree (reach h x) h h' \<Longrightarrow> view h' x = Some v \<and> reach h' x = reach h x"
  using view_frame reach_frame by blast

lemma kept:
  assumes "wf_heap h" "view h x = Some v" "extends h h'"
  shows "view h' x = Some v \<and> reach h' x = reach h x"
  using view_frame [OF assms(2)] reach_frame [OF assms(2)] agree_extends [OF assms(3) reach_old [OF assms(1,2)]] by blast

lemma obtain_copy:
  assumes "wf_heap h" "view h x = Some v"
  obtains x' h' where "copy x h = Some (x', h')" "wf_heap h'" "extends h h'" "view h' x' = Some v" "reach h' x' \<subseteq> newer h h'"
  using copies [OF assms] by blast

text \<open>
  Whoever writes only to the memory of the copy leaves the original as it is, and whoever writes only
  to older memory leaves the copy as it is.
\<close>

lemma original_safe:
  assumes "wf_heap h" "view h x = Some v" "copy x h = Some (x', h')" "\<And>a. hp_cells h'' a \<noteq> hp_cells h' a \<Longrightarrow> a \<in> newer h h'"
  shows "view h'' x = Some v"
proof -
  from obtain_copy [OF assms(1,2)] assms(3) have e: "extends h h'" by auto
  have "hp_cells h'' a = hp_cells h a" if "a \<in> reach h x" for a
  proof -
    have "a < hp_next h" using reach_old [OF assms(1,2)] that by auto
    then have "hp_cells h'' a = hp_cells h' a" using assms(4) [of a] by (auto simp: newer_def)
    with \<open>a < hp_next h\<close> e show ?thesis by (simp add: extends_def)
  qed
  then have "agree (reach h x) h h''" by (simp add: agree_def)
  with assms(2) show ?thesis by (rule view_frame)
qed

lemma copy_safe:
  assumes "wf_heap h" "view h x = Some v" "copy x h = Some (x', h')" "\<And>a. hp_cells h'' a \<noteq> hp_cells h' a \<Longrightarrow> a < hp_next h"
  shows "view h'' x' = Some v"
proof -
  from obtain_copy [OF assms(1,2)] assms(3) have c: "view h' x' = Some v" "reach h' x' \<subseteq> newer h h'" by auto
  then have "agree (reach h' x') h' h''" using assms(4) by (force simp: agree_def newer_def)
  with c(1) show ?thesis by (rule view_frame)
qed

end

section \<open>Plain values\<close>

interpretation plain: deep_copier view_plain reach_plain st_return
  by unfold_locales (auto simp: view_plain_def reach_plain_def st_return_def)

lemma update_appended: "k \<notin> set (map fst ms) \<Longrightarrow> AList.update k v ms = ms @ [(k, v)]"
  by (induction ms) auto

lemma copied_entries:
  assumes "distinct (map fst (ms @ kvs))"
  shows "foldl (\<lambda>m (key, val). AList.update key val m) ms kvs = ms @ kvs"
  using assms
proof (induction kvs arbitrary: ms)
  case (Cons kv kvs)
  obtain k v where kv: "kv = (k, v)" by force
  have "AList.update k v ms = ms @ [(k, v)]" using Cons.prems by (intro update_appended) (auto simp: kv)
  with Cons show ?case by (auto simp: kv)
qed simp

interpretation entries: deep_copier view_entries reach_plain copy_entries
  by unfold_locales
    (auto simp: view_entries_def reach_plain_def copy_entries_def st_return_def copied_entries [of "[]", simplified] split: if_splits)

section \<open>Pointers, pairs and lists\<close>

lemma pointer_copier:
  assumes "deep_copier view reach copy" "proper_type T"
  shows "deep_copier (view_pointer T view) (reach_pointer T reach) (copy_pointer T copy)"
proof -
  have frame: "view_pointer T view h' p = Some v \<and> reach_pointer T reach h' p = reach_pointer T reach h p"
    if v: "view_pointer T view h p = Some v" and a: "agree (reach_pointer T reach h p) h h'" for h h' p v
  proof (cases p)
    case (Some a)
    then obtain x u where x: "content T h a = Some x" "view h x = Some u" "v = Some u"
      using v by (auto simp: Option.bind_eq_Some_conv)
    then have "content T h' a = Some x" "agree (reach h x) h h'"
      using a content_same [of h' a h T] by (simp_all add: Some)
    with deep_copier.same [OF assms(1) x(2)] x show ?thesis by (simp add: Some)
  qed (use v in simp)
  show ?thesis
  proof
    fix h p v h' assume "view_pointer T view h p = Some v" "agree (reach_pointer T reach h p) h h'"
    then show "view_pointer T view h' p = Some v" "reach_pointer T reach h' p = reach_pointer T reach h p"
      using frame by blast+
  next
    fix h p v a assume v: "view_pointer T view h p = Some v" "a \<in> reach_pointer T reach h p"
    then obtain b x u where b: "p = Some b" "content T h b = Some x" "view h x = Some u"
      by (cases p) (auto simp: Option.bind_eq_Some_conv)
    then have "hp_cells h b \<noteq> None" by (auto simp: content_def Option.bind_eq_Some_conv)
    with b v(2) deep_copier.reach_allocated [OF assms(1) b(3)] show "hp_cells h a \<noteq> None" by auto
  next
    fix h p v assume h: "wf_heap h" "view_pointer T view h p = Some v"
    show "\<exists>p' h'. copy_pointer T copy p h = Some (p', h') \<and> wf_heap h' \<and> extends h h' \<and>
        view_pointer T view h' p' = Some v \<and> reach_pointer T reach h' p' \<subseteq> newer h h'"
    proof (cases p)
      case None
      with h show ?thesis by (simp add: copy_pointer_def st_return_def)
    next
      case (Some a)
      then obtain x u where x: "content T h a = Some x" "view h x = Some u" "v = Some u"
        using h(2) by (auto simp: Option.bind_eq_Some_conv)
      obtain x' h1 where c: "copy x h = Some (x', h1)" "wf_heap h1" "extends h h1" "view h1 x' = Some u" "reach h1 x' \<subseteq> newer h h1"
        by (rule deep_copier.obtain_copy [OF assms(1) h(1) x(2)])
      obtain a' h2 where a': "alloc T x' h1 = Some (a', h2)" by (simp add: alloc_def)
      note n = alloc_facts [OF c(2) assms(2) a']
      note k = deep_copier.kept [OF assms(1) c(2,4) n(2)]
      have "copy_pointer T copy p h = Some (Some a', h2)"
        using c(1) a' x(1) by (simp add: copy_pointer_def st_bind_def st_return_def load_def Some)
      then show ?thesis
        using n k c x(3) extends_trans [OF c(3) n(2)] newer_mono [OF extends_refl n(2), of h] newer_mono [OF c(3) extends_refl, of h2]
        by auto
    qed
  qed
qed

fun copy_pair :: "('h \<Rightarrow> ('b, 'k, 'h) st) \<Rightarrow> ('i \<Rightarrow> ('b, 'k, 'i) st) \<Rightarrow> 'h \<times> 'i \<Rightarrow> ('b, 'k, 'h \<times> 'i) st" where
  "copy_pair copy1 copy2 (x, y) = st_bind (copy1 x) (\<lambda>x'. st_bind (copy2 y) (\<lambda>y'. st_return (x', y')))"

lemma pair_copier:
  assumes "deep_copier view1 reach1 copy1" "deep_copier view2 reach2 copy2"
  shows "deep_copier (view_pair view1 view2) (reach_pair reach1 reach2) (copy_pair copy1 copy2)"
proof
  fix h p v h' assume v: "view_pair view1 view2 h p = Some v" "agree (reach_pair reach1 reach2 h p) h h'"
  obtain x y u w where p: "p = (x, y)" "view1 h x = Some u" "view2 h y = Some w" "v = (u, w)"
    using v(1) by (cases p) (auto simp: Option.bind_eq_Some_conv)
  from deep_copier.same [OF assms(1) p(2), of h'] deep_copier.same [OF assms(2) p(3), of h'] v(2)
  show "view_pair view1 view2 h' p = Some v" "reach_pair reach1 reach2 h' p = reach_pair reach1 reach2 h p"
    by (simp_all add: p)
next
  fix h p v a assume v: "view_pair view1 view2 h p = Some v" "a \<in> reach_pair reach1 reach2 h p"
  obtain x y u w where p: "p = (x, y)" "view1 h x = Some u" "view2 h y = Some w" "v = (u, w)"
    using v(1) by (cases p) (auto simp: Option.bind_eq_Some_conv)
  from deep_copier.reach_allocated [OF assms(1) p(2), of a] deep_copier.reach_allocated [OF assms(2) p(3), of a] v(2)
  show "hp_cells h a \<noteq> None" by (auto simp: p)
next
  fix h p v assume h: "wf_heap h" "view_pair view1 view2 h p = Some v"
  obtain x y u w where p: "p = (x, y)" and uw: "view1 h x = Some u" "view2 h y = Some w" "v = (u, w)"
    using h(2) by (cases p) (auto simp: Option.bind_eq_Some_conv)
  obtain x' h1 where c: "copy1 x h = Some (x', h1)" "wf_heap h1" "extends h h1" "view1 h1 x' = Some u" "reach1 h1 x' \<subseteq> newer h h1"
    by (rule deep_copier.obtain_copy [OF assms(1) h(1) uw(1)])
  note y1 = deep_copier.kept [OF assms(2) h(1) uw(2) c(3)]
  obtain y' h2 where d: "copy2 y h1 = Some (y', h2)" "wf_heap h2" "extends h1 h2" "view2 h2 y' = Some w" "reach2 h2 y' \<subseteq> newer h1 h2"
    using deep_copier.obtain_copy [OF assms(2) c(2) conjunct1 [OF y1]] by blast
  note k = deep_copier.kept [OF assms(1) c(2,4) d(3)]
  show "\<exists>p' h'. copy_pair copy1 copy2 p h = Some (p', h') \<and> wf_heap h' \<and> extends h h' \<and>
      view_pair view1 view2 h' p' = Some v \<and> reach_pair reach1 reach2 h' p' \<subseteq> newer h h'"
    using c d k uw(3) extends_trans [OF c(3) d(3)] newer_mono [OF extends_refl d(3), of h] newer_mono [OF c(3) extends_refl, of h2]
    by (intro exI [of _ "(x', y')"] exI [of _ h2]) (auto simp: p st_bind_def st_return_def)
qed

text \<open>A struct is copied like the pair of its copied parts; the other fields stay as they are.\<close>

lemma struct_copier:
  assumes "deep_copier view reach copy"
    and "\<And>h r. view' h r = map_option (whole r) (view h (parts r))"
    and "\<And>h r. reach' h r = reach h (parts r)"
    and "\<And>h r. copy' r h = map_option (\<lambda>(t, h'). (rebuild r t, h')) (copy (parts r) h)"
    and "\<And>r t. parts (rebuild r t) = t" "\<And>r t. whole (rebuild r t) = whole r"
  shows "deep_copier view' reach' copy'"
proof
  fix h r v h' assume v: "view' h r = Some v" "agree (reach' h r) h h'"
  then obtain u where u: "view h (parts r) = Some u" "v = whole r u" by (auto simp: assms(2))
  from deep_copier.same [OF assms(1) u(1), of h'] v(2) u(2)
  show "view' h' r = Some v" "reach' h' r = reach' h r" by (simp_all add: assms(2,3))
next
  fix h r v a assume v: "view' h r = Some v" "a \<in> reach' h r"
  then obtain u where u: "view h (parts r) = Some u" by (auto simp: assms(2))
  show "hp_cells h a \<noteq> None" using deep_copier.reach_allocated [OF assms(1) u, of a] v(2) by (simp add: assms(3))
next
  fix h r v assume h: "wf_heap h" "view' h r = Some v"
  then obtain u where u: "view h (parts r) = Some u" "v = whole r u" by (auto simp: assms(2))
  obtain t h1 where "copy (parts r) h = Some (t, h1)" "wf_heap h1" "extends h h1" "view h1 t = Some u" "reach h1 t \<subseteq> newer h h1"
    by (rule deep_copier.obtain_copy [OF assms(1) h(1) u(1)])
  then show "\<exists>x' h'. copy' r h = Some (x', h') \<and> wf_heap h' \<and> extends h h' \<and> view' h' x' = Some v \<and> reach' h' x' \<subseteq> newer h h'"
    by (intro exI [of _ "rebuild r t"] exI [of _ h1]) (simp add: assms(2-6) u(2))
qed

lemma list_copier:
  assumes "deep_copier view reach copy"
  shows "deep_copier (view_list view) (reach_list reach) (copy_list copy)"
proof
  have frame: "view_list view h' xs = Some vs \<and> reach_list reach h' xs = reach_list reach h xs"
    if "view_list view h xs = Some vs" "agree (reach_list reach h xs) h h'" for h h' xs vs
    using that
  proof (induction xs arbitrary: vs)
    case (Cons x xs)
    then obtain u us where u: "view h x = Some u" "view_list view h xs = Some us" "vs = u # us"
      by (auto simp: Option.bind_eq_Some_conv)
    from Cons.IH [OF u(2)] Cons.prems(2) deep_copier.same [OF assms u(1), of h'] u(3) show ?case by simp
  qed simp
  fix h xs vs h' assume "view_list view h xs = Some vs" "agree (reach_list reach h xs) h h'"
  then show "view_list view h' xs = Some vs" "reach_list reach h' xs = reach_list reach h xs" using frame by blast+
next
  fix h xs vs a assume "view_list view h xs = Some vs" "a \<in> reach_list reach h xs"
  then show "hp_cells h a \<noteq> None"
  proof (induction xs arbitrary: vs)
    case (Cons x xs)
    then obtain u us where u: "view h x = Some u" "view_list view h xs = Some us"
      by (auto simp: Option.bind_eq_Some_conv)
    from Cons.IH [OF u(2)] Cons.prems(2) deep_copier.reach_allocated [OF assms u(1), of a] show ?case by auto
  qed simp
next
  have kept_list: "view_list view h' xs = Some us" if "wf_heap h" "view_list view h xs = Some us" "extends h h'" for h h' xs us
    using that(2)
  proof (induction xs arbitrary: us)
    case (Cons x xs)
    then show ?case using deep_copier.kept [OF assms that(1) _ that(3)] by (auto simp: Option.bind_eq_Some_conv)
  qed simp
  fix h xs vs assume "wf_heap h" "view_list view h xs = Some vs"
  then show "\<exists>xs' h'. copy_list copy xs h = Some (xs', h') \<and> wf_heap h' \<and> extends h h' \<and>
      view_list view h' xs' = Some vs \<and> reach_list reach h' xs' \<subseteq> newer h h'"
  proof (induction xs arbitrary: h vs)
    case Nil
    then show ?case by (simp add: st_return_def)
  next
    case (Cons x xs)
    then obtain u us where u: "view h x = Some u" "view_list view h xs = Some us" "vs = u # us"
      by (auto simp: Option.bind_eq_Some_conv)
    obtain x' h1 where c: "copy x h = Some (x', h1)" "wf_heap h1" "extends h h1" "view h1 x' = Some u" "reach h1 x' \<subseteq> newer h h1"
      by (rule deep_copier.obtain_copy [OF assms Cons.prems(1) u(1)])
    have "view_list view h1 xs = Some us"
      using kept_list [OF Cons.prems(1) u(2) c(3)] .
    from Cons.IH [OF c(2) this] obtain xs' h2 where d: "copy_list copy xs h1 = Some (xs', h2)" "wf_heap h2" "extends h1 h2"
      "view_list view h2 xs' = Some us" "reach_list reach h2 xs' \<subseteq> newer h1 h2" by blast
    note k = deep_copier.kept [OF assms c(2,4) d(3)]
    show ?case
      using c d k u(3) extends_trans [OF c(3) d(3)] newer_mono [OF extends_refl d(3), of h] newer_mono [OF c(3) extends_refl, of h2]
      by (intro exI [of _ "x' # xs'"] exI [of _ h2]) (auto simp: st_bind_def st_return_def)
  qed
qed

end
