(* ===== verification/CopyTypes.thy ===== *)
theory CopyTypes
  imports CopyProps
begin

text \<open>
  Every generated method keeps the contract of a deep copy, provided the methods of the libraries do.
  What is free of library structs interprets the locale.
\<close>

definition library_copies :: "('b, 'k) library \<Rightarrow> bool" where
  "library_copies L \<longleftrightarrow>
     deep_copier (lb_view_meta L) (lb_reach L) (lb_copy_meta L) \<and>
     deep_copier (lb_view_list_meta L) (lb_reach L) (lb_copy_list_meta L) \<and>
     deep_copier (lb_view_pod_spec L) (lb_reach L) (lb_copy_pod_spec L) \<and>
     deep_copier (lb_view_claim_spec L) (lb_reach L) (lb_copy_claim_spec L) \<and>
     deep_copier view_plain reach_plain (lb_copy_time L)"

lemma library_copiesD:
  assumes "library_copies L"
  shows "deep_copier (lb_view_meta L) (lb_reach L) (lb_copy_meta L)"
    "deep_copier (lb_view_list_meta L) (lb_reach L) (lb_copy_list_meta L)"
    "deep_copier (lb_view_pod_spec L) (lb_reach L) (lb_copy_pod_spec L)"
    "deep_copier (lb_view_claim_spec L) (lb_reach L) (lb_copy_claim_spec L)"
    "deep_copier view_plain reach_plain (lb_copy_time L)"
  using assms by (simp_all add: library_copies_def)

lemmas struct_simps = st_bind_def st_return_def Option.bind_def

section \<open>Without library structs\<close>

lemma map_copier: "deep_copier view_map reach_map copy_map"
  unfolding copy_map_def by (rule pointer_copier [OF entries.deep_copier_axioms]) simp

lemma plain_pointer: "proper_type T \<Longrightarrow> deep_copier (view_pointer T view_plain) (reach_pointer T reach_plain) (copy_pointer T st_return)"
  by (rule pointer_copier [OF plain.deep_copier_axioms])

interpretation embedded_meta: deep_copier view_embedded_meta reach_embedded_meta EmbeddedObjectMeta_DeepCopyInto
  by (rule struct_copier [OF pair_copier [OF map_copier map_copier],
        where parts = "\<lambda>m. (hm_labels m, hm_annotations m)" and whole = "\<lambda>_ (l, a). \<lparr>em_labels = l, em_annotations = a\<rparr>"
          and rebuild = "\<lambda>m (l, a). m\<lparr>hm_labels := l, hm_annotations := a\<rparr>"])
    (auto simp: view_embedded_meta_def reach_embedded_meta_def EmbeddedObjectMeta_DeepCopyInto_def st_bind_def st_return_def
      fun_eq_iff split: Option.bind_split option.splits)

interpretation named_meta: deep_copier view_named_meta reach_named_meta EmbeddedObjectMetaWithName_DeepCopyInto
  by (rule struct_copier [OF pair_copier [OF map_copier map_copier],
        where parts = "\<lambda>m. (hn_labels m, hn_annotations m)" and whole = "\<lambda>m (l, a). (hn_name m, l, a)"
          and rebuild = "\<lambda>m (l, a). m\<lparr>hn_labels := l, hn_annotations := a\<rparr>"])
    (auto simp: view_named_meta_def reach_named_meta_def EmbeddedObjectMetaWithName_DeepCopyInto_def st_bind_def st_return_def
      fun_eq_iff split: Option.bind_split option.splits)

interpretation experimental: deep_copier view_experimental reach_experimental ExperimentalSpec_DeepCopyInto
  by (rule struct_copier [OF plain_pointer [where T = draining_cell],
        where parts = he_draining and whole = "\<lambda>_ d. \<lparr>ex_draining = d\<rparr>" and rebuild = "\<lambda>x d. x\<lparr>he_draining := d\<rparr>"])
    (auto simp: view_experimental_def reach_experimental_def ExperimentalSpec_DeepCopyInto_def st_bind_def st_return_def
      fun_eq_iff split: Option.bind_split option.splits)

section \<open>With library structs\<close>

lemma template_copier:
  assumes "library_copies L"
  shows "deep_copier (view_template L) (reach_template L) (PodTemplateSpec_DeepCopyInto L)"
  by (rule struct_copier [OF pair_copier [OF embedded_meta.deep_copier_axioms library_copiesD(3) [OF assms]],
        where parts = "\<lambda>t. (tm_meta t, tm_spec t)" and whole = "\<lambda>_ (m, s). \<lparr>pt_meta = m, pt_spec = s\<rparr>"
          and rebuild = "\<lambda>t (m, s). t\<lparr>tm_meta := m, tm_spec := s\<rparr>"])
    (auto simp: view_template_def reach_template_def PodTemplateSpec_DeepCopyInto_def st_bind_def st_return_def
      split: Option.bind_split option.splits)

lemma claim_copier:
  assumes "library_copies L"
  shows "deep_copier (view_claim L) (reach_claim L) (PersistentVolumeClaim_DeepCopyInto L)"
  by (rule struct_copier [OF pair_copier [OF named_meta.deep_copier_axioms library_copiesD(4) [OF assms]],
        where parts = "\<lambda>t. (cl_meta t, cl_spec t)"
          and whole = "\<lambda>_ (m, s). \<lparr>vc_name = fst m, vc_labels = fst (snd m), vc_annotations = snd (snd m), vc_spec = s\<rparr>"
          and rebuild = "\<lambda>t (m, s). t\<lparr>cl_meta := m, cl_spec := s\<rparr>"])
    (auto simp: view_claim_def reach_claim_def PersistentVolumeClaim_DeepCopyInto_def st_bind_def st_return_def
      split: Option.bind_split option.splits)

lemma spec_copier:
  assumes "library_copies L"
  shows "deep_copier (view_spec L) (reach_spec L) (ElasticsearchDataSetSpec_DeepCopyInto L)"
  by (rule struct_copier [OF pair_copier [OF plain_pointer [where T = int32_cell] pair_copier [OF template_copier [OF assms]
          pair_copier [OF plain_pointer [where T = scaling_cell] pair_copier [OF
            pointer_copier [OF list_copier [OF claim_copier [OF assms]], where T = claims_cell]
            pointer_copier [OF experimental.deep_copier_axioms, where T = experimental_cell]]]]],
        where parts = "\<lambda>s. (hs_replicas s, hs_template s, hs_scaling s, hs_claims s, hs_experimental s)"
          and whole = "\<lambda>s (r, t, c, v, x). \<lparr>sp_replicas = r, sp_exclude_system_indices = hs_exclude_system_indices s,
            sp_skip_draining = hs_skip_draining s, sp_template = t, sp_scaling = c, sp_volume_claims = slice_elements v,
            sp_experimental = x\<rparr>"
          and rebuild = "\<lambda>s (r, t, c, v, x). s\<lparr>hs_replicas := r, hs_template := t, hs_scaling := c, hs_claims := v,
            hs_experimental := x\<rparr>"])
    (auto simp: view_spec_def reach_spec_def ElasticsearchDataSetSpec_DeepCopyInto_def st_bind_def st_return_def
      split: Option.bind_split option.splits)

lemma time_pointer:
  assumes "library_copies L"
  shows "deep_copier (view_pointer time_cell view_plain) (reach_pointer time_cell reach_plain) (copy_pointer time_cell (lb_copy_time L))"
  by (rule pointer_copier [OF library_copiesD(5) [OF assms]]) simp

lemma status_copier:
  assumes "library_copies L"
  shows "deep_copier view_status reach_status (ElasticsearchDataSetStatus_DeepCopyInto L)"
  by (rule struct_copier [OF pair_copier [OF plain_pointer [where T = int64_cell] pair_copier [OF time_pointer [OF assms]
          pair_copier [OF time_pointer [OF assms] pair_copier [OF time_pointer [OF assms] time_pointer [OF assms]]]]],
        where parts = "\<lambda>u. (hu_observed_generation u, hu_last_up_started u, hu_last_up_ended u, hu_last_down_started u,
            hu_last_down_ended u)"
          and whole = "\<lambda>u (g, a, b, c, d). \<lparr>ss_observed_generation = g, ss_replicas = hu_replicas u, ss_last_up_started = a,
            ss_last_up_ended = b, ss_last_down_started = c, ss_last_down_ended = d\<rparr>"
          and rebuild = "\<lambda>u (g, a, b, c, d). u\<lparr>hu_observed_generation := g, hu_last_up_started := a, hu_last_up_ended := b,
            hu_last_down_started := c, hu_last_down_ended := d\<rparr>"])
    (auto simp: view_status_def reach_status_def ElasticsearchDataSetStatus_DeepCopyInto_def st_bind_def st_return_def
      split: Option.bind_split option.splits)

lemma eds_copier:
  assumes "library_copies L"
  shows "deep_copier (view_eds L) (reach_eds L) (ElasticsearchDataSet_DeepCopyInto L)"
  by (rule struct_copier [OF pair_copier [OF library_copiesD(1) [OF assms] pair_copier [OF spec_copier [OF assms] status_copier [OF assms]]],
        where parts = "\<lambda>d. (hd_meta d, hd_spec d, hd_status d)"
          and whole = "\<lambda>d (m, s, u). \<lparr>eds_api_version = hd_api_version d, eds_kind = hd_kind d, eds_meta = m, eds_spec = s,
            eds_status = u\<rparr>"
          and rebuild = "\<lambda>d (m, s, u). d\<lparr>hd_meta := m, hd_spec := s, hd_status := u\<rparr>"])
    (auto simp: view_eds_def reach_eds_def ElasticsearchDataSet_DeepCopyInto_def st_bind_def st_return_def
      split: Option.bind_split option.splits)

lemma metric_copier:
  assumes "library_copies L"
  shows "deep_copier view_plain reach_plain (ElasticsearchMetric_DeepCopyInto L)"
  by (rule struct_copier [OF library_copiesD(5) [OF assms], where parts = mt_timestamp
        and whole = "\<lambda>m t. m\<lparr>mt_timestamp := t\<rparr>" and rebuild = "\<lambda>m t. m\<lparr>mt_timestamp := t\<rparr>"])
    (auto simp: view_plain_def reach_plain_def ElasticsearchMetric_DeepCopyInto_def st_bind_def st_return_def
      split: Option.bind_split option.splits)

lemma metric_set_copier:
  assumes "library_copies L"
  shows "deep_copier (view_metric_set L) (reach_metric_set L) (ElasticsearchMetricSet_DeepCopyInto L)"
  by (rule struct_copier [OF pair_copier [OF library_copiesD(1) [OF assms]
          pointer_copier [OF list_copier [OF metric_copier [OF assms]], where T = metrics_cell]],
        where parts = "\<lambda>x. (hx_meta x, hx_metrics x)" and whole = "\<lambda>_ (m, s). \<lparr>ms_meta = m, ms_metrics = slice_elements s\<rparr>"
          and rebuild = "\<lambda>x (m, s). x\<lparr>hx_meta := m, hx_metrics := s\<rparr>"])
    (auto simp: view_metric_set_def reach_metric_set_def ElasticsearchMetricSet_DeepCopyInto_def st_bind_def st_return_def
      split: Option.bind_split option.splits)

lemma objects_copier:
  assumes "library_copies L" "deep_copier view reach copy" "proper_type T"
    and "\<And>inn. deepCopyInto inn = st_bind (lb_copy_list_meta L (hl_meta inn)) (\<lambda>meta.
      st_bind (copy_pointer T (copy_list copy) (hl_items inn)) (\<lambda>items. st_return (inn\<lparr>hl_meta := meta, hl_items := items\<rparr>)))"
  shows "deep_copier (view_objects L T view) (reach_objects L T reach) deepCopyInto"
  by (rule struct_copier [OF pair_copier [OF library_copiesD(2) [OF assms(1)] pointer_copier [OF list_copier [OF assms(2)] assms(3)]],
        where parts = "\<lambda>l. (hl_meta l, hl_items l)"
          and whole = "\<lambda>l (m, s). \<lparr>ol_api_version = hl_api_version l, ol_kind = hl_kind l, ol_meta = m, ol_items = slice_elements s\<rparr>"
          and rebuild = "\<lambda>l (m, s). l\<lparr>hl_meta := m, hl_items := s\<rparr>"])
    (auto simp: view_objects_def reach_objects_def assms(4) st_bind_def st_return_def split: Option.bind_split option.splits)

lemma list_copiers:
  assumes "library_copies L"
  shows "deep_copier (view_objects L data_sets_cell (view_eds L)) (reach_objects L data_sets_cell (reach_eds L))
      (ElasticsearchDataSetList_DeepCopyInto L)"
    "deep_copier (view_objects L metric_sets_cell (view_metric_set L)) (reach_objects L metric_sets_cell (reach_metric_set L))
      (ElasticsearchMetricSetList_DeepCopyInto L)"
  by (rule objects_copier [OF assms]; simp add: eds_copier [OF assms] metric_set_copier [OF assms]
      ElasticsearchDataSetList_DeepCopyInto_def ElasticsearchMetricSetList_DeepCopyInto_def)+

end
