(* ===== verification/CopyUse.thy ===== *)
theory CopyUse
  imports CopyTypes EdsResource
begin

text \<open>
  What the copies are for. A copied data set shares nothing with the original. The operator relies on
  it where it writes into the labels of a pod template: PodTemplateSpec of operator/elasticsearch.go
  copies the template of the data set, and templateInjectLabels writes into the map of the copy. On the
  heap this does what the definitions on values say, and the data set stays as it is.
\<close>

section \<open>Copies are separate\<close>

text \<open>
  C28. A copied data set stands for the same value, whoever writes to its memory cannot change the
  original, and whoever writes to memory that was there before cannot change the copy. A nil pointer
  is copied to nil.
\<close>

theorem data_set_copy_separate:
  assumes "library_copies L" "wf_heap h" "view_pointer data_set_cell (view_eds L) h p = Some v"
  shows "\<exists>p' h'. ElasticsearchDataSet_DeepCopy L p h = Some (p', h') \<and>
    view_pointer data_set_cell (view_eds L) h' p' = Some v \<and>
    reach_pointer data_set_cell (reach_eds L) h' p' \<subseteq> newer h h' \<and> (p' = None \<longleftrightarrow> p = None) \<and>
    (\<forall>h''. (\<forall>a. hp_cells h'' a \<noteq> hp_cells h' a \<longrightarrow> a \<in> newer h h') \<longrightarrow>
       view_pointer data_set_cell (view_eds L) h'' p = Some v) \<and>
    (\<forall>h''. (\<forall>a. hp_cells h'' a \<noteq> hp_cells h' a \<longrightarrow> a < hp_next h) \<longrightarrow>
       view_pointer data_set_cell (view_eds L) h'' p' = Some v)"
proof -
  have c: "deep_copier (view_pointer data_set_cell (view_eds L)) (reach_pointer data_set_cell (reach_eds L))
      (ElasticsearchDataSet_DeepCopy L)"
    unfolding ElasticsearchDataSet_DeepCopy_def by (rule pointer_copier [OF eds_copier [OF assms(1)]]) simp
  obtain p' h' where p': "ElasticsearchDataSet_DeepCopy L p h = Some (p', h')"
    "view_pointer data_set_cell (view_eds L) h' p' = Some v"
    "reach_pointer data_set_cell (reach_eds L) h' p' \<subseteq> newer h h'"
    by (rule deep_copier.obtain_copy [OF c assms(2,3)])
  have "p' = None \<longleftrightarrow> p = None"
    using p'(2) assms(3) by (cases p; cases p') (auto simp: Option.bind_eq_Some_conv)
  with p' deep_copier.original_safe [OF c assms(2,3) p'(1)] deep_copier.copy_safe [OF c assms(2,3) p'(1)]
  show ?thesis by blast
qed

text \<open>A copy as an object of the runtime interface is nil for nil only.\<close>

lemma object_copied:
  assumes "deep_copier view reach into" "proper_type T" "wf_heap h" "view_pointer T view h p = Some v"
  shows "\<exists>obj h'. as_object (copy_pointer T into p) h = Some (obj, h') \<and> (obj = NilObject \<longleftrightarrow> p = None) \<and>
    (\<forall>a. obj = Object a \<longrightarrow> view_pointer T view h' (Some a) = Some v)"
proof -
  obtain p' h' where p': "copy_pointer T into p h = Some (p', h')" "view_pointer T view h' p' = Some v"
    by (rule deep_copier.obtain_copy [OF pointer_copier [OF assms(1,2)] assms(3,4)])
  have "p' = None \<longleftrightarrow> p = None"
    using p'(2) assms(4) by (cases p; cases p') (auto simp: Option.bind_eq_Some_conv)
  with p' show ?thesis
    by (cases p') (auto simp: as_object_def st_bind_def st_return_def simp del: view_pointer.simps)
qed

lemma objects_copied:
  assumes "library_copies L" "wf_heap h"
  shows "view_pointer data_set_cell (view_eds L) h p = Some v \<Longrightarrow>
      \<exists>obj h'. ElasticsearchDataSet_DeepCopyObject L p h = Some (obj, h') \<and> (obj = NilObject \<longleftrightarrow> p = None) \<and>
        (\<forall>a. obj = Object a \<longrightarrow> view_pointer data_set_cell (view_eds L) h' (Some a) = Some v)"
    "view_pointer metric_set_cell (view_metric_set L) h p = Some w \<Longrightarrow>
      \<exists>obj h'. ElasticsearchMetricSet_DeepCopyObject L p h = Some (obj, h') \<and> (obj = NilObject \<longleftrightarrow> p = None) \<and>
        (\<forall>a. obj = Object a \<longrightarrow> view_pointer metric_set_cell (view_metric_set L) h' (Some a) = Some w)"
    "view_pointer data_set_list_cell (view_objects L data_sets_cell (view_eds L)) h p = Some vs \<Longrightarrow>
      \<exists>obj h'. ElasticsearchDataSetList_DeepCopyObject L p h = Some (obj, h') \<and> (obj = NilObject \<longleftrightarrow> p = None) \<and>
        (\<forall>a. obj = Object a \<longrightarrow> view_pointer data_set_list_cell (view_objects L data_sets_cell (view_eds L)) h' (Some a) = Some vs)"
    "view_pointer metric_set_list_cell (view_objects L metric_sets_cell (view_metric_set L)) h p = Some ws \<Longrightarrow>
      \<exists>obj h'. ElasticsearchMetricSetList_DeepCopyObject L p h = Some (obj, h') \<and> (obj = NilObject \<longleftrightarrow> p = None) \<and>
        (\<forall>a. obj = Object a \<longrightarrow> view_pointer metric_set_list_cell (view_objects L metric_sets_cell (view_metric_set L)) h' (Some a) = Some ws)"
  unfolding ElasticsearchDataSet_DeepCopyObject_def ElasticsearchMetricSet_DeepCopyObject_def
    ElasticsearchDataSetList_DeepCopyObject_def ElasticsearchMetricSetList_DeepCopyObject_def
    ElasticsearchDataSet_DeepCopy_def ElasticsearchMetricSet_DeepCopy_def
    ElasticsearchDataSetList_DeepCopy_def ElasticsearchMetricSetList_DeepCopy_def
  by (erule object_copied [OF eds_copier [OF assms(1)] _ assms(2), rotated], simp)
    (erule object_copied [OF metric_set_copier [OF assms(1)] _ assms(2), rotated], simp,
     erule object_copied [OF list_copiers(1) [OF assms(1)] _ assms(2), rotated], simp,
     erule object_copied [OF list_copiers(2) [OF assms(1)] _ assms(2), rotated], simp)

section \<open>Labels of a template\<close>

definition PodTemplateSpec_heap :: "('b, 'k) library \<Rightarrow> 'b h_eds \<Rightarrow> ('b, 'k, 'b h_template) st" where
  "PodTemplateSpec_heap L d =
     st_bind (PodTemplateSpec_DeepCopyInto L (hs_template (hd_spec d))) (\<lambda>template.
       st_return \<lparr>tm_meta = \<lparr>hm_labels = hm_labels (tm_meta template), hm_annotations = hm_annotations (tm_meta template)\<rparr>,
         tm_spec = tm_spec template\<rparr>)"

fun inject_each :: "addr \<Rightarrow> (string \<times> string) list \<Rightarrow> ('b, 'k, unit) st" where
  "inject_each a [] = st_return ()"
| "inject_each a ((key, val) # kvs) =
     st_bind (load map_cell a) (\<lambda>m.
     st_bind (if map_of m key = None then store_at map_cell a (AList.update key val m) else st_return ()) (\<lambda>_.
       inject_each a kvs))"

definition load_map :: "addr option \<Rightarrow> ('b, 'k, (string \<times> string) list) st" where
  "load_map p = (case p of None \<Rightarrow> st_return [] | Some a \<Rightarrow> load map_cell a)"

definition templateInjectLabels_heap :: "'b h_template \<Rightarrow> addr option \<Rightarrow> ('b, 'k, 'b h_template) st" where
  "templateInjectLabels_heap template labels =
     st_bind (case hm_labels (tm_meta template) of None \<Rightarrow> alloc map_cell [] | Some a \<Rightarrow> st_return a) (\<lambda>a.
     st_bind (load_map labels) (\<lambda>kvs.
     st_bind (inject_each a kvs) (\<lambda>_.
       st_return (template\<lparr>tm_meta := (tm_meta template)\<lparr>hm_labels := Some a\<rparr>\<rparr>))))"

definition labelled_template :: "('b, 'k) library \<Rightarrow> 'b h_eds \<Rightarrow> addr option \<Rightarrow> ('b, 'k, 'b h_template) st" where
  "labelled_template L d labels = st_bind (PodTemplateSpec_heap L d) (\<lambda>t. templateInjectLabels_heap t labels)"

lemma inject_each_result:
  assumes "content map_cell h a = Some m" "distinct (map fst m)"
  shows "\<exists>m' h'. inject_each a kvs h = Some ((), h') \<and> inject_labels (Some m) kvs = Ok (Some m') \<and>
    distinct (map fst m') \<and> content map_cell h' a = Some m' \<and> (\<forall>b. b \<noteq> a \<longrightarrow> hp_cells h' b = hp_cells h b)"
  using assms
proof (induction kvs arbitrary: h m)
  case Nil
  then show ?case by (simp add: st_return_def)
next
  case (Cons kv kvs)
  obtain k v where kv: "kv = (k, v)" by force
  show ?case
  proof (cases "map_of m k")
    case (Some w)
    then show ?thesis
      using Cons by (simp add: kv st_bind_def st_return_def load_def map_get_def)
  next
    case None
    let ?m = "AList.update k v m" and ?h = "h\<lparr>hp_cells := (hp_cells h)(a \<mapsto> ct_put map_cell (AList.update k v m))\<rparr>"
    have "content map_cell ?h a = Some ?m" by (simp add: content_def map_cell_def)
    from Cons.IH [OF this distinct_update [OF Cons.prems(2)]] obtain m' h' where
      "inject_each a kvs ?h = Some ((), h')" "inject_labels (Some ?m) kvs = Ok (Some m')" "distinct (map fst m')"
      "content map_cell h' a = Some m'" "\<forall>b. b \<noteq> a \<longrightarrow> hp_cells h' b = hp_cells ?h b" by blast
    then show ?thesis
      using Cons.prems None by (simp add: kv st_bind_def load_def store_at_def map_get_def map_set_def)
  qed
qed

lemma view_map_content:
  "view_map h (Some a) = Some v \<longleftrightarrow> (\<exists>m. content map_cell h a = Some m \<and> distinct (map fst m) \<and> v = Some m)"
  by (auto simp: view_entries_def Option.bind_eq_Some_conv split: if_splits)

lemma load_map_view: "view_map h p = Some v \<Longrightarrow> load_map p h = Some (map_entries v, h)"
  by (cases p) (auto simp: load_map_def st_return_def load_def map_entries_def view_map_content simp del: view_pointer.simps(2))

text \<open>The map the labels are written into, and the labels themselves.\<close>

lemma inject_result:
  assumes "wf_heap h" "view_map h (hm_labels (tm_meta t)) = Some lv" "view_map h labels = Some ls"
    and "\<And>a. hm_labels (tm_meta t) = Some a \<Longrightarrow> a \<notin> A" "A \<subseteq> {..< hp_next h}"
    and "reach_map h labels \<subseteq> A"
  shows "\<exists>a m h'. templateInjectLabels_heap t labels h = Some (t\<lparr>tm_meta := (tm_meta t)\<lparr>hm_labels := Some a\<rparr>\<rparr>, h') \<and>
    view_map h' (Some a) = Some (Some m) \<and> agree A h h' \<and>
    inject_labels (case lv of None \<Rightarrow> Some [] | l \<Rightarrow> l) (map_entries ls) = Ok (Some m)"
proof -
  obtain a hA m0 where a: "(case hm_labels (tm_meta t) of None \<Rightarrow> alloc map_cell [] | Some a \<Rightarrow> st_return a) h = Some (a, hA)"
    and m0: "content map_cell hA a = Some m0" "distinct (map fst m0)" "(case lv of None \<Rightarrow> Some [] | l \<Rightarrow> l) = Some m0"
    and e: "extends h hA" and nA: "a \<notin> A"
  proof (cases "hm_labels (tm_meta t)")
    case None
    obtain b hB where b: "alloc map_cell [] h = Some (b, hB)" by (simp add: alloc_def)
    note n = alloc_facts [OF assms(1) _ b, simplified]
    have "b \<notin> A" using n(4) assms(5) by (auto simp: newer_def)
    with n b assms(2) None show ?thesis by (intro that [of b hB "[]"]) auto
  next
    case (Some b)
    with assms(2) obtain m where "content map_cell h b = Some m" "distinct (map fst m)" "lv = Some m"
      by (auto simp: view_map_content simp del: view_pointer.simps(2))
    with Some assms(4) show ?thesis by (intro that [of b h m]) (auto simp: st_return_def)
  qed
  have "agree A h hA" by (rule agree_extends [OF e assms(5)])
  with assms(6) have "view_map hA labels = Some ls"
    using deep_copier.view_frame [OF map_copier assms(3)] agree_mono by blast
  note loaded = load_map_view [OF this]
  obtain m h' where m: "inject_each a (map_entries ls) hA = Some ((), h')" "inject_labels (Some m0) (map_entries ls) = Ok (Some m)"
    "distinct (map fst m)" "content map_cell h' a = Some m" "\<forall>b. b \<noteq> a \<longrightarrow> hp_cells h' b = hp_cells hA b"
    using inject_each_result [OF m0(1,2)] by blast
  have "agree A h h'" using \<open>agree A h hA\<close> m(5) nA by (auto simp: agree_def)
  moreover have "templateInjectLabels_heap t labels h = Some (t\<lparr>tm_meta := (tm_meta t)\<lparr>hm_labels := Some a\<rparr>\<rparr>, h')"
    using a loaded m(1) by (simp add: templateInjectLabels_heap_def st_bind_def st_return_def)
  ultimately show ?thesis using m m0(3) by (auto simp: view_map_content simp del: view_pointer.simps(2))
qed

text \<open>The copied template, field by field: its parts share no memory with each other.\<close>

lemma template_copied:
  assumes "library_copies L" "wf_heap h" "view_template L h t = Some v"
  obtains l a s h1 h2 h3 where
    "PodTemplateSpec_DeepCopyInto L t h = Some (\<lparr>tm_meta = \<lparr>hm_labels = l, hm_annotations = a\<rparr>, tm_spec = s\<rparr>, h3)"
    "wf_heap h3" "extends h h1" "extends h1 h3"
    "view_map h3 l = Some (em_labels (pt_meta v))" "reach_map h3 l \<subseteq> newer h h1"
    "view_map h3 a = Some (em_annotations (pt_meta v))" "reach_map h3 a \<subseteq> newer h1 h3"
    "lb_view_pod_spec L h3 s = Some (pt_spec v)" "lb_reach L h3 s \<subseteq> newer h1 h3"
proof -
  note spec = library_copiesD(3) [OF assms(1)]
  have v: "view_map h (hm_labels (tm_meta t)) = Some (em_labels (pt_meta v))"
    "view_map h (hm_annotations (tm_meta t)) = Some (em_annotations (pt_meta v))"
    "lb_view_pod_spec L h (tm_spec t) = Some (pt_spec v)"
    using assms(3) by (auto simp: view_template_def view_embedded_meta_def Option.bind_eq_Some_conv)
  obtain l h1 where l: "copy_map (hm_labels (tm_meta t)) h = Some (l, h1)" "wf_heap h1" "extends h h1"
    "view_map h1 l = Some (em_labels (pt_meta v))" "reach_map h1 l \<subseteq> newer h h1"
    by (rule deep_copier.obtain_copy [OF map_copier assms(2) v(1)])
  obtain a h2 where a: "copy_map (hm_annotations (tm_meta t)) h1 = Some (a, h2)" "wf_heap h2" "extends h1 h2"
    "view_map h2 a = Some (em_annotations (pt_meta v))" "reach_map h2 a \<subseteq> newer h1 h2"
    using deep_copier.obtain_copy [OF map_copier l(2) conjunct1 [OF deep_copier.kept [OF map_copier assms(2) v(2) l(3)]]] by blast
  note e2 = extends_trans [OF l(3) a(3)]
  obtain s h3 where s: "lb_copy_pod_spec L (tm_spec t) h2 = Some (s, h3)" "wf_heap h3" "extends h2 h3"
    "lb_view_pod_spec L h3 s = Some (pt_spec v)" "lb_reach L h3 s \<subseteq> newer h2 h3"
    using deep_copier.obtain_copy [OF spec a(2) conjunct1 [OF deep_copier.kept [OF spec assms(2) v(3) e2]]] by blast
  note e3 = extends_trans [OF a(3) s(3)]
  have run: "PodTemplateSpec_DeepCopyInto L t h = Some (\<lparr>tm_meta = \<lparr>hm_labels = l, hm_annotations = a\<rparr>, tm_spec = s\<rparr>, h3)"
    using l(1) a(1) s(1)
    by (simp add: PodTemplateSpec_DeepCopyInto_def EmbeddedObjectMeta_DeepCopyInto_def st_bind_def st_return_def)
  have "newer h1 h2 \<subseteq> newer h1 h3" "newer h2 h3 \<subseteq> newer h1 h3"
    using newer_mono [OF extends_refl s(3)] newer_mono [OF a(3) extends_refl] by blast+
  then show thesis
    using that [OF run s(2) l(3) e3] deep_copier.kept [OF map_copier l(2,4) e3] deep_copier.kept [OF map_copier a(2,4) s(3)]
      l(5) a(5) s(4,5) by auto
qed

text \<open>
  C27. Writing labels into the template of a data set, on the heap: the result is the template that
  the definitions on values give, no map assignment fails, and neither the data set nor the given
  labels are changed, although labels are written into the map in place.
\<close>

theorem injected_labels_stay_out:
  assumes "library_copies L" "wf_heap h" "view_eds L h d = Some e" "view_map h labels = Some ls"
  shows "\<exists>t h' template. labelled_template L d labels h = Some (t, h') \<and>
    templateInjectLabels (EdsResource.PodTemplateSpec e) ls = Ok template \<and>
    view_template L h' t = Some template \<and> view_eds L h' d = Some e \<and> view_map h' labels = Some ls"
proof -
  have v: "view_template L h (hs_template (hd_spec d)) = Some (sp_template (eds_spec e))"
    using assms(3) by (auto simp: view_eds_def view_spec_def Option.bind_eq_Some_conv)
  note eds = eds_copier [OF assms(1)] and spec = library_copiesD(3) [OF assms(1)]
  obtain l a s h1 h3 where run: "PodTemplateSpec_DeepCopyInto L (hs_template (hd_spec d)) h =
      Some (\<lparr>tm_meta = \<lparr>hm_labels = l, hm_annotations = a\<rparr>, tm_spec = s\<rparr>, h3)"
    and w: "wf_heap h3" and e: "extends h h1" "extends h1 h3"
    and l: "view_map h3 l = Some (em_labels (pt_meta (sp_template (eds_spec e))))" "reach_map h3 l \<subseteq> newer h h1"
    and a: "view_map h3 a = Some (em_annotations (pt_meta (sp_template (eds_spec e))))" "reach_map h3 a \<subseteq> newer h1 h3"
    and s: "lb_view_pod_spec L h3 s = Some (pt_spec (sp_template (eds_spec e)))" "lb_reach L h3 s \<subseteq> newer h1 h3"
    by (rule template_copied [OF assms(1,2) v])
  let ?t = "\<lparr>tm_meta = \<lparr>hm_labels = l, hm_annotations = a\<rparr>, tm_spec = s\<rparr>"
  let ?A = "{..< hp_next h} \<union> newer h1 h3"
  have e3: "extends h h3" by (rule extends_trans [OF e])
  have apart: "b \<notin> ?A" if "l = Some b" for b
    using l(2) that by (auto simp: newer_def)
  have below: "?A \<subseteq> {..< hp_next h3}" using e3 by (auto simp: newer_def extends_def)
  have ls: "view_map h3 labels = Some ls" "reach_map h3 labels \<subseteq> ?A"
    using deep_copier.kept [OF map_copier assms(2,4) e3] deep_copier.reach_old [OF map_copier assms(2,4)] by auto
  obtain b m h' where b: "templateInjectLabels_heap ?t labels h3 = Some (?t\<lparr>tm_meta := (tm_meta ?t)\<lparr>hm_labels := Some b\<rparr>\<rparr>, h')"
    "view_map h' (Some b) = Some (Some m)" "agree ?A h3 h'"
    "inject_labels (case em_labels (pt_meta (sp_template (eds_spec e))) of None \<Rightarrow> Some [] | l \<Rightarrow> l) (map_entries ls) = Ok (Some m)"
    using inject_result [OF w, of ?t _ labels ls ?A] l(1) ls apart below by auto
  have d: "view_eds L h3 d = Some e" "reach_eds L h3 d \<subseteq> ?A"
    using deep_copier.kept [OF eds assms(2,3) e3] deep_copier.reach_old [OF eds assms(2,3)] by auto
  have kept: "agree (reach_map h3 a) h3 h'" "agree (lb_reach L h3 s) h3 h'"
    using agree_mono [OF b(3)] a(2) s(2) by (meson le_supI2)+
  have "view_eds L h' d = Some e" by (rule deep_copier.view_frame [OF eds d(1) agree_mono [OF b(3) d(2)]])
  moreover have "view_map h' labels = Some ls" by (rule deep_copier.view_frame [OF map_copier ls(1) agree_mono [OF b(3) ls(2)]])
  moreover note deep_copier.view_frame [OF map_copier a(1) kept(1)] deep_copier.view_frame [OF spec s(1) kept(2)]
  moreover have "labelled_template L d labels h = Some (?t\<lparr>tm_meta := (tm_meta ?t)\<lparr>hm_labels := Some b\<rparr>\<rparr>, h')"
    using run b(1) by (simp add: labelled_template_def PodTemplateSpec_heap_def st_bind_def st_return_def)
  moreover have "templateInjectLabels (EdsResource.PodTemplateSpec e) ls =
      Ok ((EdsResource.PodTemplateSpec e)\<lparr>pt_meta := (pt_meta (EdsResource.PodTemplateSpec e))\<lparr>em_labels := Some m\<rparr>\<rparr>)"
    using b(4) by (simp add: templateInjectLabels_def EdsResource.PodTemplateSpec_def Let_def)
  ultimately show ?thesis
    using b(2) by (auto simp: view_template_def view_embedded_meta_def EdsResource.PodTemplateSpec_def Let_def simp del: view_pointer.simps)
qed

end
