(* ===== verification/CopyExamples.thy ===== *)
theory CopyExamples
  imports CopyUse
begin

text \<open>
  A library whose structs have one part behind a pointer, and a data set on a heap whose template
  has the same map as labels and as annotations: the theorems on copies are not vacuous.
\<close>

record lib_struct =
  ls_meta :: object_meta
  ls_text :: payload
  ls_part :: "addr option"

definition library_cell :: "(lib_struct, payload, payload) cell_type" where
  "library_cell = \<lparr>ct_put = LibraryCell, ct_get = (\<lambda>c. case c of LibraryCell x \<Rightarrow> Some x | _ \<Rightarrow> None)\<rparr>"

definition view_part :: "(lib_struct, payload, lib_struct, payload) view" where
  "view_part h s = map_option (\<lambda>q. ls_text s @ (case q of None \<Rightarrow> [] | Some t \<Rightarrow> t)) (view_pointer library_cell view_plain h (ls_part s))"

definition reach_part :: "(lib_struct, payload, lib_struct) reach" where
  "reach_part h s = reach_pointer library_cell reach_plain h (ls_part s)"

definition copy_part :: "lib_struct \<Rightarrow> (lib_struct, payload, lib_struct) st" where
  "copy_part s = st_bind (copy_pointer library_cell st_return (ls_part s)) (\<lambda>p. st_return (s\<lparr>ls_part := p\<rparr>))"

definition example_library :: "(lib_struct, payload) library" where
  "example_library =
     \<lparr>lb_view_meta = (\<lambda>h s. map_option (\<lambda>_. ls_meta s) (view_pointer library_cell view_plain h (ls_part s))),
      lb_view_list_meta = view_part, lb_view_pod_spec = view_part, lb_view_claim_spec = view_part,
      lb_reach = reach_part, lb_copy_meta = copy_part, lb_copy_list_meta = copy_part,
      lb_copy_pod_spec = copy_part, lb_copy_claim_spec = copy_part, lb_copy_time = st_return\<rparr>"

lemma library_part: "deep_copier (view_pointer library_cell view_plain) (reach_pointer library_cell reach_plain) (copy_pointer library_cell st_return)"
  by (rule plain_pointer) (simp add: library_cell_def proper_type_def)

lemma example_library_copies: "library_copies example_library"
proof -
  have "deep_copier view_part reach_part copy_part"
    by (rule struct_copier [OF library_part, where parts = ls_part
          and whole = "\<lambda>s q. ls_text s @ (case q of None \<Rightarrow> [] | Some t \<Rightarrow> t)" and rebuild = "\<lambda>s p. s\<lparr>ls_part := p\<rparr>"])
      (auto simp: view_part_def reach_part_def copy_part_def st_bind_def st_return_def split: option.splits)
  moreover have "deep_copier (\<lambda>h s. map_option (\<lambda>_. ls_meta s) (view_pointer library_cell view_plain h (ls_part s))) reach_part copy_part"
    by (rule struct_copier [OF library_part, where parts = ls_part and whole = "\<lambda>s q. ls_meta s"
          and rebuild = "\<lambda>s p. s\<lparr>ls_part := p\<rparr>"])
      (auto simp: reach_part_def copy_part_def st_bind_def st_return_def split: option.splits)
  ultimately show ?thesis
    using plain.deep_copier_axioms by (simp add: library_copies_def example_library_def)
qed

definition example_struct :: lib_struct where
  "example_struct =
     \<lparr>ls_meta = \<lparr>om_name = ''eds'', om_namespace = ''ns'', om_uid = ''u'', om_generation = 1, om_labels = None,
        om_annotations = None, om_owners = []\<rparr>, ls_text = ''pod'', ls_part = Some 4\<rparr>"

definition example_data_set :: "lib_struct h_eds" where
  "example_data_set =
     \<lparr>hd_api_version = ''zalando.org/v1'', hd_kind = ''ElasticsearchDataSet'', hd_meta = example_struct,
      hd_spec = \<lparr>hs_replicas = Some 1, hs_exclude_system_indices = False, hs_skip_draining = False,
        hs_template = \<lparr>tm_meta = \<lparr>hm_labels = Some 0, hm_annotations = Some 0\<rparr>, tm_spec = example_struct\<rparr>,
        hs_scaling = None, hs_claims = None, hs_experimental = Some 3\<rparr>,
      hd_status = \<lparr>hu_observed_generation = None, hu_replicas = 3, hu_last_up_started = None, hu_last_up_ended = None,
        hu_last_down_started = None, hu_last_down_ended = None\<rparr>\<rparr>"

definition example_heap :: "(lib_struct, payload) heap" where
  "example_heap =
     \<lparr>hp_next = 7, hp_cells = map_of
       [(0, MapCell [(''app'', ''es'')]), (1, Int32Cell 3), (2, DrainingCell \<lparr>dr_max_retries = 9, dr_min_wait_seconds = 1, dr_max_wait_seconds = 2\<rparr>),
        (3, ExperimentalCell \<lparr>he_draining = Some 2\<rparr>), (4, LibraryCell ''part''), (5, DataSetCell example_data_set),
        (6, MapCell [(''es-operator-dataset'', ''eds'')])]\<rparr>"

lemma example_heap_wf: "wf_heap example_heap"
  by (auto simp: wf_heap_def example_heap_def split: if_splits)

definition example_value :: eds where
  "example_value = the (view_eds example_library example_heap example_data_set)"

lemmas example_views = view_eds_def view_spec_def view_status_def view_template_def view_embedded_meta_def view_experimental_def
  view_part_def view_plain_def view_entries_def content_def cell_defs library_cell_def example_library_def example_heap_def
  example_data_set_def example_struct_def

lemma example_data_set_value: "view_eds example_library example_heap example_data_set = Some example_value"
proof -
  have "view_eds example_library example_heap example_data_set \<noteq> None" by (simp add: example_views)
  then show ?thesis by (auto simp: example_value_def)
qed

theorem data_set_copy_separate_witness:
  "\<exists>a h'. ElasticsearchDataSet_DeepCopy example_library (Some 5) example_heap = Some (Some a, h') \<and>
    view_pointer data_set_cell (view_eds example_library) h' (Some a) = Some (Some example_value) \<and>
    sp_replicas (eds_spec example_value) = Some 3"
proof -
  have "content data_set_cell example_heap 5 = Some example_data_set"
    by (simp add: content_def data_set_cell_def example_heap_def)
  then have v: "view_pointer data_set_cell (view_eds example_library) example_heap (Some 5) = Some (Some example_value)"
    by (simp add: example_data_set_value)
  have "sp_replicas (eds_spec example_value) = Some 3" by (simp add: example_value_def example_views)
  with data_set_copy_separate [OF example_library_copies example_heap_wf v] show ?thesis by (metis option.exhaust option.simps(3))
qed

theorem injected_labels_stay_out_witness:
  "\<exists>t h' template. labelled_template example_library example_data_set (Some 6) example_heap = Some (t, h') \<and>
    view_template example_library h' t = Some template \<and>
    em_labels (pt_meta template) = Some [(''app'', ''es''), (''es-operator-dataset'', ''eds'')] \<and>
    em_annotations (pt_meta template) = Some [(''app'', ''es'')] \<and>
    view_eds example_library h' example_data_set = Some example_value"
proof -
  have ls: "view_map example_heap (Some 6) = Some (Some [(''es-operator-dataset'', ''eds'')])" by (simp add: example_views)
  have "templateInjectLabels (EdsResource.PodTemplateSpec example_value) (Some [(''es-operator-dataset'', ''eds'')]) =
      Ok \<lparr>pt_meta = \<lparr>em_labels = Some [(''app'', ''es''), (''es-operator-dataset'', ''eds'')], em_annotations = Some [(''app'', ''es'')]\<rparr>,
        pt_spec = ''podpart''\<rparr>"
    by (simp add: example_value_def example_views templateInjectLabels_def EdsResource.PodTemplateSpec_def map_get_def map_set_def map_entries_def)
  with injected_labels_stay_out [OF example_library_copies example_heap_wf example_data_set_value ls] show ?thesis by fastforce
qed

end
