(* ===== verification/InformerFactory.thy ===== *)
theory InformerFactory
  imports Clients
begin

text \<open>
  pkg/client/informers/externalversions: the factory of shared informers for the custom resources. Every
  method that changes the factory holds its lock, so it is one step here; what informers do while
  they run belongs to the library, of which only the goroutines count. Maps are association lists, and
  loops over them take an order as an argument.
\<close>

section \<open>Informers\<close>

text \<open>
  An informer of the library, with what it was made from. The request says in which namespace and with
  which options objects are listed and watched.
\<close>

type_synonym tweak = "(payload \<Rightarrow> payload) option"

record informer_options =
  io_resync :: duration
  io_indexers :: "string list"
  io_name :: "payload option"
  io_tweak :: tweak

record shared_informer =
  si_id :: nat
  si_object :: string
  si_resource :: "string \<times> string \<times> string"
  si_request :: "payload \<Rightarrow> string \<times> payload"
  si_resync :: duration
  si_indexers :: "string list"
  si_name :: "payload option"
  si_transform :: "payload option"

definition tweaked :: "tweak \<Rightarrow> payload \<Rightarrow> payload" where
  "tweaked tweakListOptions opts = (case tweakListOptions of None \<Rightarrow> opts | Some f \<Rightarrow> f opts)"

definition NewElasticsearchDataSetInformerWithOptions :: "string \<Rightarrow> informer_options \<Rightarrow> shared_informer" where
  "NewElasticsearchDataSetInformerWithOptions namespace options =
     \<lparr>si_id = 0, si_object = ''ElasticsearchDataSet'', si_resource = (''zalando.org'', ''v1'', ''elasticsearchdatasets''),
      si_request = (\<lambda>opts. (namespace, tweaked (io_tweak options) opts)), si_resync = io_resync options,
      si_indexers = io_indexers options, si_name = io_name options, si_transform = None\<rparr>"

definition NewElasticsearchMetricSetInformerWithOptions :: "string \<Rightarrow> informer_options \<Rightarrow> shared_informer" where
  "NewElasticsearchMetricSetInformerWithOptions namespace options =
     \<lparr>si_id = 0, si_object = ''ElasticsearchMetricSet'', si_resource = (''zalando.org'', ''v1'', ''elasticsearchmetricsets''),
      si_request = (\<lambda>opts. (namespace, tweaked (io_tweak options) opts)), si_resync = io_resync options,
      si_indexers = io_indexers options, si_name = io_name options, si_transform = None\<rparr>"

section \<open>The factory\<close>

record factory =
  fa_namespace :: string
  fa_tweak :: tweak
  fa_default_resync :: duration
  fa_custom_resync :: "(string \<times> duration) list"
  fa_transform :: "payload option"
  fa_name :: "payload option"
  fa_informers :: "(string \<times> shared_informer) list"
  fa_started :: "(string \<times> bool) list"
  fa_shutting_down :: bool
  fa_made :: nat
  fa_launched :: "nat list"
  fa_running :: "nat list"

text \<open>
  The last three are the number of informers made so far, which gives each its identity, and the
  goroutines of the wait group, all there have been and those that have not returned.
\<close>

definition WithCustomResyncConfig :: "(string \<times> duration) list \<Rightarrow> factory \<Rightarrow> factory" where
  "WithCustomResyncConfig resyncConfig f =
     f\<lparr>fa_custom_resync := foldl (\<lambda>m (k, v). AList.update k v m) (fa_custom_resync f) resyncConfig\<rparr>"

definition WithTweakListOptions :: "tweak \<Rightarrow> factory \<Rightarrow> factory" where
  "WithTweakListOptions tweakListOptions f = f\<lparr>fa_tweak := tweakListOptions\<rparr>"

definition WithNamespace :: "string \<Rightarrow> factory \<Rightarrow> factory" where
  "WithNamespace namespace f = f\<lparr>fa_namespace := namespace\<rparr>"

definition WithTransform :: "payload option \<Rightarrow> factory \<Rightarrow> factory" where
  "WithTransform transform f = f\<lparr>fa_transform := transform\<rparr>"

definition WithInformerName :: "payload option \<Rightarrow> factory \<Rightarrow> factory" where
  "WithInformerName informerName f = f\<lparr>fa_name := informerName\<rparr>"

definition NewSharedInformerFactoryWithOptions :: "duration \<Rightarrow> (factory \<Rightarrow> factory) list \<Rightarrow> factory" where
  "NewSharedInformerFactoryWithOptions defaultResync options =
     foldl (\<lambda>f opt. opt f)
       \<lparr>fa_namespace = '''', fa_tweak = None, fa_default_resync = defaultResync, fa_custom_resync = [],
        fa_transform = None, fa_name = None, fa_informers = [], fa_started = [], fa_shutting_down = False,
        fa_made = 0, fa_launched = [], fa_running = []\<rparr>
       options"

definition NewSharedInformerFactory :: "duration \<Rightarrow> factory" where
  "NewSharedInformerFactory defaultResync = NewSharedInformerFactoryWithOptions defaultResync []"

definition NewFilteredSharedInformerFactory :: "duration \<Rightarrow> string \<Rightarrow> tweak \<Rightarrow> factory" where
  "NewFilteredSharedInformerFactory defaultResync namespace tweakListOptions =
     NewSharedInformerFactoryWithOptions defaultResync [WithNamespace namespace, WithTweakListOptions tweakListOptions]"

definition InformerFor :: "string \<Rightarrow> (duration \<Rightarrow> shared_informer) \<Rightarrow> factory \<Rightarrow> shared_informer \<times> factory" where
  "InformerFor informerType newFunc f =
     (case map_of (fa_informers f) informerType of
        Some informer \<Rightarrow> (informer, f)
      | None \<Rightarrow>
          (let resyncPeriod = (case map_of (fa_custom_resync f) informerType of Some r \<Rightarrow> r | None \<Rightarrow> fa_default_resync f);
               made = (newFunc resyncPeriod)\<lparr>si_id := fa_made f\<rparr>;
               informer = (if fa_transform f \<noteq> None then made\<lparr>si_transform := fa_transform f\<rparr> else made)
           in (informer, f\<lparr>fa_informers := AList.update informerType informer (fa_informers f), fa_made := Suc (fa_made f)\<rparr>)))"

definition start_informer :: "string \<times> shared_informer \<Rightarrow> factory \<Rightarrow> factory" where
  "start_informer ti f =
     (if map_of (fa_started f) (fst ti) = Some True then f
      else f\<lparr>fa_launched := fa_launched f @ [si_id (snd ti)], fa_running := fa_running f @ [si_id (snd ti)],
             fa_started := AList.update (fst ti) True (fa_started f)\<rparr>)"

definition StartWithContext :: "((string \<times> shared_informer) list \<Rightarrow> (string \<times> shared_informer) list) \<Rightarrow> factory \<Rightarrow> factory" where
  "StartWithContext order f =
     (if fa_shutting_down f then f else foldl (\<lambda>g ti. start_informer ti g) f (order (fa_informers f)))"

text \<open>Shutdown first sets its flag, and returns once the goroutines of the wait group have.\<close>

definition begin_shutdown :: "factory \<Rightarrow> factory" where
  "begin_shutdown f = f\<lparr>fa_shutting_down := True\<rparr>"

definition shutdown_returns :: "factory \<Rightarrow> bool" where
  "shutdown_returns f \<longleftrightarrow> fa_shutting_down f \<and> fa_running f = []"

text \<open>The informers that have been started when the call is made, and what they say when the wait is over.\<close>

definition started_informers :: "factory \<Rightarrow> (string \<times> shared_informer) list" where
  "started_informers f = filter (\<lambda>(t, i). map_of (fa_started f) t = Some True) (fa_informers f)"

definition WaitForCacheSyncWithContext :: "factory \<Rightarrow> (shared_informer \<Rightarrow> bool) \<Rightarrow> payload \<Rightarrow> (string \<times> bool) list \<times> payload option" where
  "WaitForCacheSyncWithContext f hasSynced cause =
     (let informers = started_informers f
      in (map (\<lambda>(t, i). (t, hasSynced i)) informers,
          if \<exists>(t, i) \<in> set informers. \<not> hasSynced i then Some cause else None))"

section \<open>Informers of the custom resources\<close>

definition data_set_informer :: "factory \<Rightarrow> duration \<Rightarrow> shared_informer" where
  "data_set_informer f resyncPeriod =
     NewElasticsearchDataSetInformerWithOptions (fa_namespace f)
       \<lparr>io_resync = resyncPeriod, io_indexers = [''namespace''], io_name = fa_name f, io_tweak = fa_tweak f\<rparr>"

definition metric_set_informer :: "factory \<Rightarrow> duration \<Rightarrow> shared_informer" where
  "metric_set_informer f resyncPeriod =
     NewElasticsearchMetricSetInformerWithOptions (fa_namespace f)
       \<lparr>io_resync = resyncPeriod, io_indexers = [''namespace''], io_name = fa_name f, io_tweak = fa_tweak f\<rparr>"

definition ElasticsearchDataSets_Informer :: "factory \<Rightarrow> shared_informer \<times> factory" where
  "ElasticsearchDataSets_Informer f = InformerFor ''ElasticsearchDataSet'' (data_set_informer f) f"

definition ElasticsearchMetricSets_Informer :: "factory \<Rightarrow> shared_informer \<times> factory" where
  "ElasticsearchMetricSets_Informer f = InformerFor ''ElasticsearchMetricSet'' (metric_set_informer f) f"

definition ForResource :: "string \<times> string \<times> string \<Rightarrow> factory \<Rightarrow> shared_informer answer \<times> factory" where
  "ForResource resource f =
     (if resource = (groupName, ''v1'', ''elasticsearchdatasets'')
      then (case ElasticsearchDataSets_Informer f of (i, f') \<Rightarrow> (Inr i, f'))
      else if resource = (groupName, ''v1'', ''elasticsearchmetricsets'')
      then (case ElasticsearchMetricSets_Informer f of (i, f') \<Rightarrow> (Inr i, f'))
      else (Inl (KubeError (''no informer found for '' @ snd (snd resource))), f))"

section \<open>A factory at work\<close>

inductive factory_step :: "factory \<Rightarrow> factory \<Rightarrow> bool" where
  request: "factory_step f (snd (InformerFor t newFunc f))"
| start: "(\<And>xs. set (order xs) = set xs) \<Longrightarrow> factory_step f (StartWithContext order f)"
| stop: "factory_step f (begin_shutdown f)"
| finish: "factory_step f (f\<lparr>fa_running := remove1 i (fa_running f)\<rparr>)"

inductive factory_option :: "(factory \<Rightarrow> factory) \<Rightarrow> bool" where
  resync: "factory_option (WithCustomResyncConfig rc)"
| tweak: "factory_option (WithTweakListOptions tw)"
| namespace: "factory_option (WithNamespace ns)"
| transform: "factory_option (WithTransform tr)"
| name: "factory_option (WithInformerName n)"

inductive factory_reaches :: "factory \<Rightarrow> bool" where
  new: "(\<And>opt. opt \<in> set options \<Longrightarrow> factory_option opt) \<Longrightarrow>
    factory_reaches (NewSharedInformerFactoryWithOptions r options)"
| step: "factory_reaches f \<Longrightarrow> factory_step f f' \<Longrightarrow> factory_reaches f'"

definition ids :: "(string \<times> shared_informer) list \<Rightarrow> nat list" where
  "ids = map (si_id \<circ> snd)"

text \<open>
  One informer per type, each with an identity of its own, and one goroutine, at most, for each: exactly
  the started ones have been launched.
\<close>

definition factory_inv :: "factory \<Rightarrow> bool" where
  "factory_inv f \<longleftrightarrow>
     distinct (map fst (fa_informers f)) \<and> distinct (ids (fa_informers f)) \<and>
     (\<forall>i \<in> set (ids (fa_informers f)). i < fa_made f) \<and>
     (\<forall>t. map_of (fa_started f) t = Some True \<longrightarrow> t \<in> fst ` set (fa_informers f)) \<and>
     distinct (fa_launched f) \<and> set (fa_launched f) = set (ids (started_informers f)) \<and>
     set (fa_running f) \<subseteq> set (fa_launched f)"

lemma ids_append [simp]: "ids (xs @ ys) = ids xs @ ids ys"
  by (simp add: ids_def)

lemma started_ids:
  "n \<in> set (ids (started_informers f)) \<longleftrightarrow>
   (\<exists>t i. (t, i) \<in> set (fa_informers f) \<and> map_of (fa_started f) t = Some True \<and> si_id i = n)"
  by (force simp: ids_def started_informers_def)

lemma update_new: "map_of m k = None \<Longrightarrow> AList.update k v m = m @ [(k, v)]"
  by (induction m) (auto split: if_splits)

lemma InformerFor_new:
  assumes "map_of (fa_informers f) t = None"
  obtains i where "si_id i = fa_made f"
    "InformerFor t newFunc f = (i, f\<lparr>fa_informers := fa_informers f @ [(t, i)], fa_made := Suc (fa_made f)\<rparr>)"
proof -
  have "\<exists>i. si_id i = fa_made f \<and>
      InformerFor t newFunc f = (i, f\<lparr>fa_informers := fa_informers f @ [(t, i)], fa_made := Suc (fa_made f)\<rparr>)"
    using assms by (simp add: InformerFor_def update_new Let_def)
  then show thesis using that by blast
qed

lemma inv_request:
  assumes "factory_inv f"
  shows "factory_inv (snd (InformerFor t newFunc f))"
proof (cases "map_of (fa_informers f) t")
  case None
  then have new: "t \<notin> fst ` set (fa_informers f)" by (simp add: map_of_eq_None_iff)
  obtain i where i: "si_id i = fa_made f"
    "InformerFor t newFunc f = (i, f\<lparr>fa_informers := fa_informers f @ [(t, i)], fa_made := Suc (fa_made f)\<rparr>)"
    by (rule InformerFor_new [OF None])
  have fresh: "fa_made f \<notin> set (ids (fa_informers f))" and "map_of (fa_started f) t \<noteq> Some True"
    using assms new by (auto simp: factory_inv_def)
  with assms new i show ?thesis
    by (auto simp: factory_inv_def started_informers_def ids_def less_Suc_eq)
qed (use assms in \<open>simp add: InformerFor_def\<close>)

lemma start_informer_kept [simp]:
  "fa_informers (start_informer ti f) = fa_informers f" "fa_shutting_down (start_informer ti f) = fa_shutting_down f"
  "fa_made (start_informer ti f) = fa_made f"
  by (simp_all add: start_informer_def)

lemma same_id:
  assumes "factory_inv f" "(t, i) \<in> set (fa_informers f)" "(t', j) \<in> set (fa_informers f)" "si_id i = si_id j"
  shows "t = t' \<and> i = j"
proof -
  have "inj_on (si_id \<circ> snd) (set (fa_informers f))" using assms(1) by (simp add: factory_inv_def ids_def distinct_map)
  from inj_onD [OF this _ assms(2,3)] assms(4) show ?thesis by simp
qed

lemma inv_start_informer:
  assumes "factory_inv f" "ti \<in> set (fa_informers f)"
  shows "factory_inv (start_informer ti f)"
proof (cases "map_of (fa_started f) (fst ti) = Some True")
  case False
  obtain t i where ti: "ti = (t, i)" by force
  note inv = assms(1) [unfolded factory_inv_def]
  have only: "(t', j) \<in> set (fa_informers f) \<Longrightarrow> t' = t \<longleftrightarrow> j = i" for t' j
  proof -
    assume j: "(t', j) \<in> set (fa_informers f)"
    have "t' = t \<Longrightarrow> j = i" using j assms(2) inv ti by (metis map_of_is_SomeI option.inject)
    moreover have "j = i \<Longrightarrow> t' = t" using same_id [OF assms(1) j, of t i] assms(2) ti by simp
    ultimately show "t' = t \<longleftrightarrow> j = i" by blast
  qed
  have "si_id i \<notin> set (fa_launched f)"
  proof
    assume "si_id i \<in> set (fa_launched f)"
    then obtain t' j where j: "(t', j) \<in> set (fa_informers f)" "map_of (fa_started f) t' = Some True" "si_id j = si_id i"
      using inv by (auto simp: started_ids)
    then have "(t', j) = ti" using same_id [OF assms(1) j(1), of t i] assms(2) ti by simp
    with j(2) False ti show False by simp
  qed
  moreover have st: "map_of (fa_started (start_informer ti f)) t' = Some True \<longleftrightarrow> t' = t \<or> map_of (fa_started f) t' = Some True" for t'
    using False by (simp add: start_informer_def ti update_conv')
  moreover have "set (ids (started_informers (start_informer ti f))) = insert (si_id i) (set (ids (started_informers f)))"
  proof (rule set_eqI)
    fix n
    have "(\<exists>t' j. (t', j) \<in> set (fa_informers f) \<and> t' = t \<and> si_id j = n) \<longleftrightarrow> n = si_id i"
      using assms(2) only ti by blast
    then show "n \<in> set (ids (started_informers (start_informer ti f))) \<longleftrightarrow> n \<in> insert (si_id i) (set (ids (started_informers f)))"
      unfolding started_ids st start_informer_kept insert_iff by blast
  qed
  moreover have "\<forall>t'. map_of (fa_started (start_informer ti f)) t' = Some True \<longrightarrow> t' \<in> fst ` set (fa_informers f)"
    unfolding st using inv imageI [OF assms(2), of fst] by (auto simp: ti)
  moreover have "fa_launched (start_informer ti f) = fa_launched f @ [si_id i]"
    "fa_running (start_informer ti f) = fa_running f @ [si_id i]"
    using False by (simp_all add: start_informer_def ti)
  ultimately show ?thesis
    using inv unfolding factory_inv_def start_informer_kept by auto
qed (use assms(1) in \<open>simp add: start_informer_def\<close>)

lemma fold_start:
  assumes "factory_inv f" "set tis \<subseteq> set (fa_informers f)"
  shows "factory_inv (foldl (\<lambda>g ti. start_informer ti g) f tis) \<and>
    fa_informers (foldl (\<lambda>g ti. start_informer ti g) f tis) = fa_informers f"
  using assms by (induction tis arbitrary: f) (simp_all add: inv_start_informer)

lemma inv_step:
  assumes "factory_step f f'" "factory_inv f"
  shows "factory_inv f'"
  using assms(1)
proof cases
  case (request t newFunc)
  then show ?thesis using inv_request [OF assms(2)] by simp
next
  case (start order)
  with assms(2) fold_start [OF assms(2), of "order (fa_informers f)"] show ?thesis by (simp add: StartWithContext_def)
next
  case (finish i)
  have "set (remove1 i (fa_running f)) \<subseteq> set (fa_running f)" by (rule set_remove1_subset)
  with assms(2) finish show ?thesis by (auto simp: factory_inv_def started_informers_def)
qed (use assms(2) in \<open>auto simp: begin_shutdown_def factory_inv_def started_informers_def\<close>)

lemma inv_option: "factory_option opt \<Longrightarrow> factory_inv f \<Longrightarrow> factory_inv (opt f)"
  by (induction rule: factory_option.induct)
    (auto simp: factory_inv_def started_informers_def WithCustomResyncConfig_def WithTweakListOptions_def
      WithNamespace_def WithTransform_def WithInformerName_def)

lemma factory_reaches_inv: "factory_reaches f \<Longrightarrow> factory_inv f"
proof (induction rule: factory_reaches.induct)
  case (new options r)
  have kept: "factory_inv f \<Longrightarrow> factory_inv (foldl (\<lambda>f opt. opt f) f options)" for f
    using new by (induction options arbitrary: f) (simp_all add: inv_option)
  show ?case
    unfolding NewSharedInformerFactoryWithOptions_def
    by (rule kept) (simp add: factory_inv_def started_informers_def ids_def)
next
  case (step f f')
  then show ?case using inv_step by blast
qed

section \<open>Starting is once and for all\<close>

lemma start_all_started:
  "(t \<in> fst ` set tis \<or> map_of (fa_started f) t = Some True) \<Longrightarrow>
   map_of (fa_started (foldl (\<lambda>g ti. start_informer ti g) f tis)) t = Some True"
  by (induction tis arbitrary: f) (auto simp: start_informer_def update_conv')

lemma start_nothing:
  "\<forall>t \<in> fst ` set tis. map_of (fa_started f) t = Some True \<Longrightarrow> foldl (\<lambda>g ti. start_informer ti g) f tis = f"
  by (induction tis) (auto simp: start_informer_def)

lemma fold_informers [simp]: "fa_informers (foldl (\<lambda>g ti. start_informer ti g) f tis) = fa_informers f"
  by (induction tis arbitrary: f) simp_all

lemma fold_shutting_down [simp]: "fa_shutting_down (foldl (\<lambda>g ti. start_informer ti g) f tis) = fa_shutting_down f"
  by (induction tis arbitrary: f) simp_all

text \<open>A second start does nothing, a second request gives the informer of the first.\<close>

lemma start_again:
  assumes "\<And>xs. set (order xs) = set xs" "\<And>xs. set (order' xs) = set xs"
  shows "StartWithContext order' (StartWithContext order f) = StartWithContext order f"
  unfolding StartWithContext_def by (auto simp: assms intro!: start_nothing start_all_started)

lemma request_again:
  "InformerFor t newFunc' (snd (InformerFor t newFunc f)) = (fst (InformerFor t newFunc f), snd (InformerFor t newFunc f))"
proof (cases "map_of (fa_informers f) t")
  case None
  show ?thesis
    by (rule InformerFor_new [OF None, of newFunc]) (simp add: InformerFor_def None map_add_def)
qed (simp add: InformerFor_def)

lemma informers_kept:
  assumes "factory_step f f'" "map_of (fa_informers f) t = Some i"
  shows "map_of (fa_informers f') t = Some i"
  using assms
proof cases
  case (request t' newFunc)
  show ?thesis
  proof (cases "map_of (fa_informers f) t'")
    case None
    show ?thesis by (rule InformerFor_new [OF None, of newFunc]) (simp add: request assms(2))
  qed (simp add: request InformerFor_def assms(2))
qed (auto simp: StartWithContext_def begin_shutdown_def)

lemma shut_down_kept:
  assumes "factory_step f f'" "fa_shutting_down f"
  shows "fa_shutting_down f' \<and> fa_launched f' = fa_launched f"
  using assms by cases (auto simp: StartWithContext_def begin_shutdown_def InformerFor_def Let_def split: option.splits)

lemma synced_entries:
  assumes "distinct (map fst xs)"
  shows "map_of (map (\<lambda>(t, i). (t, g i)) (filter (\<lambda>(t, i). P t) xs)) t =
    (case map_of xs t of Some i \<Rightarrow> if P t then Some (g i) else None | None \<Rightarrow> None)"
  using assms by (induction xs) (auto split: option.splits simp: map_of_eq_None_iff rev_image_eqI)

lemma unsynced_entries:
  assumes "distinct (map fst xs)"
  shows "(\<exists>(t, i) \<in> set xs. \<not> g i) \<longleftrightarrow> (\<exists>t. map_of (map (\<lambda>(t, i). (t, g i)) xs) t = Some False)"
proof -
  have "distinct (map fst (map (\<lambda>(t, i). (t, g i)) xs))" using assms by (simp add: comp_def case_prod_unfold)
  then show ?thesis by (force simp: map_of_eq_Some_iff)
qed

lemma started_distinct: "factory_inv f \<Longrightarrow> distinct (map fst (started_informers f))"
  by (simp add: factory_inv_def started_informers_def distinct_map_filter)

text \<open>
  However a factory is used, it has one informer per type, which it keeps, and runs each started informer
  exactly once. After a shutdown has begun it starts no other. A wait for the caches reports exactly
  the started informers, and an error exactly when one of them has not synced.
\<close>

theorem factory_starts_once:
  assumes "factory_reaches f"
  shows "distinct (map fst (fa_informers f)) \<and> distinct (fa_launched f) \<and>
    set (fa_launched f) = set (ids (started_informers f)) \<and>
    (\<forall>f'. factory_step f f' \<longrightarrow> map_of (fa_informers f) \<subseteq>\<^sub>m map_of (fa_informers f') \<and>
       (fa_shutting_down f \<longrightarrow> fa_shutting_down f' \<and> fa_launched f' = fa_launched f)) \<and>
    (case WaitForCacheSyncWithContext f hasSynced cause of (synced, err) \<Rightarrow>
       (\<forall>t. map_of synced t = (case map_of (fa_informers f) t of
          Some i \<Rightarrow> if map_of (fa_started f) t = Some True then Some (hasSynced i) else None | None \<Rightarrow> None)) \<and>
       (err = None \<longleftrightarrow> (\<forall>t. map_of synced t \<noteq> Some False)))"
proof -
  have inv: "factory_inv f" by (rule factory_reaches_inv [OF assms])
  then have d: "distinct (map fst (fa_informers f))" by (simp add: factory_inv_def)
  have "(case WaitForCacheSyncWithContext f hasSynced cause of (synced, err) \<Rightarrow>
       (\<forall>t. map_of synced t = (case map_of (fa_informers f) t of
          Some i \<Rightarrow> if map_of (fa_started f) t = Some True then Some (hasSynced i) else None | None \<Rightarrow> None)) \<and>
       (err = None \<longleftrightarrow> (\<forall>t. map_of synced t \<noteq> Some False)))"
    using unsynced_entries [OF started_distinct [OF inv], of hasSynced]
      synced_entries [OF d, of hasSynced "\<lambda>t. map_of (fa_started f) t = Some True"]
    by (simp add: WaitForCacheSyncWithContext_def Let_def started_informers_def)
  moreover have "map_of (fa_informers f) \<subseteq>\<^sub>m map_of (fa_informers f')" if "factory_step f f'" for f'
    using informers_kept [OF that] by (auto simp: map_le_def)
  ultimately show ?thesis using inv shut_down_kept by (simp add: factory_inv_def)
qed

text \<open>The two informers are requested, started twice, and a shutdown begins before a third start.\<close>

definition example_factory :: factory where
  "example_factory =
     StartWithContext rev (begin_shutdown (StartWithContext (\<lambda>xs. xs) (StartWithContext rev
       (snd (ElasticsearchMetricSets_Informer (snd (ElasticsearchDataSets_Informer (NewSharedInformerFactory 0))))))))"

lemma example_factory_state: "fa_launched example_factory = [1, 0] \<and> fa_shutting_down example_factory"
  by (simp add: example_factory_def StartWithContext_def begin_shutdown_def start_informer_def ElasticsearchMetricSets_Informer_def
      ElasticsearchDataSets_Informer_def InformerFor_def NewSharedInformerFactory_def NewSharedInformerFactoryWithOptions_def Let_def)

lemma example_factory_reached: "factory_reaches example_factory"
  unfolding example_factory_def ElasticsearchMetricSets_Informer_def ElasticsearchDataSets_Informer_def NewSharedInformerFactory_def
  by (intro factory_reaches.step [OF _ factory_step.start] factory_reaches.step [OF _ factory_step.stop]
      factory_reaches.step [OF _ factory_step.request] factory_reaches.new) simp_all

theorem factory_starts_once_witness:
  "distinct (fa_launched example_factory) \<and> fa_launched example_factory = [1, 0] \<and>
   set (ids (started_informers example_factory)) = {0, 1}"
proof -
  from factory_starts_once [OF example_factory_reached]
  have "distinct (fa_launched example_factory)" "set (fa_launched example_factory) = set (ids (started_informers example_factory))"
    by blast+
  with example_factory_state show ?thesis by (simp add: insert_commute)
qed

end
