(* ===== verification/SettingsServer.thy ===== *)
theory SettingsServer
  imports EsClientMore
begin

text \<open>
  The cluster settings as Elasticsearch keeps them: a write that is answered with success is
  stored, any other write may or may not be, a read returns what is stored. Between the calls of one
  client the settings may change by a relation, the interference of the others. On top of this,
  what the operations of operator/es_client.go do to the settings, stated on their meaning: the set
  of excluded IPs and the rebalance mode.
\<close>

section \<open>The server\<close>

fun is_settings_event :: "event \<Rightarrow> bool" where
  "is_settings_event (GetSettings r) = True"
| "is_settings_event (PutSettings s r) = True"
| "is_settings_event _ = False"

inductive serves :: "es_settings \<Rightarrow> event \<Rightarrow> es_settings \<Rightarrow> bool" where
  read_stored: "(\<forall>x. r = Response 200 (Some x) \<longrightarrow> x = s) \<Longrightarrow> serves s (GetSettings r) s"
| written: "serves s (PutSettings s' r) s'"
| not_written: "(\<forall>b. r \<noteq> Response 200 b) \<Longrightarrow> serves s (PutSettings s' r) s"
| other_call: "\<not> is_settings_event e \<Longrightarrow> serves s e s"

inductive_simps serves_read: "serves s (GetSettings r) t"
inductive_simps serves_write: "serves s (PutSettings s' r) t"

text \<open>
  \<open>server_run R s tr t\<close>: the calls of tr, with their answers, lead from s to t, while others may change
  the settings by R before each call and at the end.
\<close>

inductive server_run ::
  "(es_settings \<Rightarrow> es_settings \<Rightarrow> bool) \<Rightarrow> es_settings \<Rightarrow> trace \<Rightarrow> es_settings \<Rightarrow> bool" for R s where
  no_call: "R s t \<Longrightarrow> server_run R s [] t"
| one_call: "server_run R s tr t \<Longrightarrow> serves t e t' \<Longrightarrow> R t' t'' \<Longrightarrow> server_run R s (tr @ [e]) t''"

inductive_simps server_run_Nil: "server_run R s [] t"

lemma server_run_snoc:
  "server_run R s (tr @ [e]) u \<longleftrightarrow> (\<exists>t t'. server_run R s tr t \<and> serves t e t' \<and> R t' u)"
  using server_run.simps [of R s "tr @ [e]" u] by auto

text \<open>Interference by R: nothing may happen, and what happens twice can happen at once.\<close>

definition interference :: "(es_settings \<Rightarrow> es_settings \<Rightarrow> bool) \<Rightarrow> bool" where
  "interference R \<longleftrightarrow> (\<forall>s. R s s) \<and> (\<forall>s t u. R s t \<longrightarrow> R t u \<longrightarrow> R s u)"

lemma interferenceD: "interference R \<Longrightarrow> R s s" "interference R \<Longrightarrow> R s t \<Longrightarrow> R t u \<Longrightarrow> R s u"
  by (auto simp: interference_def)

lemma server_run_split:
  "interference R \<Longrightarrow> server_run R s (tr @ es) u \<Longrightarrow> \<exists>t. server_run R s tr t \<and> server_run R t es u"
proof (induction es arbitrary: u rule: rev_induct)
  case (snoc e es)
  then obtain t t' where "server_run R s (tr @ es) t" "serves t e t'" "R t' u"
    using server_run_snoc [of R s "tr @ es" e u] by auto
  with snoc show ?case by (blast intro: one_call)
qed (auto simp: server_run_Nil interferenceD)

section \<open>The meaning of the settings\<close>

text \<open>
  What the settings tell Elasticsearch: the nodes to take the shards from, and the rebalance mode;
  a transient value counts like, or before, the persistent one.
\<close>

record placement =
  pl_excluded :: "string set"
  pl_rebalance :: string

definition placement_of :: "es_settings \<Rightarrow> placement" where
  "placement_of s =
     \<lparr>pl_excluded = excluded_ips (GetTransientExcludeIPs s) \<union> excluded_ips (GetPersistentExcludeIPs s),
      pl_rebalance = (if ValueOrZero (GetTransientRebalance s) = ''''
        then ValueOrZero (GetPersistentRebalance s) else ValueOrZero (GetTransientRebalance s))\<rparr>"

text \<open>The operations of the client on the meaning.\<close>

definition exclude_node :: "string \<Rightarrow> placement \<Rightarrow> placement" where
  "exclude_node ip p = p\<lparr>pl_excluded := insert ip (pl_excluded p)\<rparr>"

definition empty_node :: "string \<Rightarrow> placement \<Rightarrow> placement" where
  "empty_node ip p = \<lparr>pl_excluded = insert ip (pl_excluded p), pl_rebalance = ''none''\<rparr>"

definition clean_up :: "string set \<Rightarrow> placement \<Rightarrow> placement" where
  "clean_up nodes p = \<lparr>pl_excluded = pl_excluded p \<inter> nodes, pl_rebalance = ''all''\<rparr>"

text \<open>Others may do what they want with the settings, but bring no node back.\<close>

definition bring_none_back :: "es_settings \<Rightarrow> es_settings \<Rightarrow> bool" where
  "bring_none_back s t \<longleftrightarrow> pl_excluded (placement_of s) \<subseteq> pl_excluded (placement_of t)"

lemma interference_others: "interference bring_none_back"
  by (auto simp: interference_def bring_none_back_def)

lemma interference_none: "interference (=)"
  by (simp add: interference_def)

text \<open>The settings the client works on have no transient part.\<close>

definition merged :: "es_settings \<Rightarrow> bool" where
  "merged s \<longleftrightarrow> excluded_ips (GetTransientExcludeIPs s) = {} \<and> ValueOrZero (GetTransientRebalance s) = ''''"

lemma placement_merge [simp]: "placement_of (MergeNonEmptyTransientSettings s) = placement_of s"
  by (simp add: placement_of_def merge_settings_facts)

lemma merged_merge [simp]: "merged (MergeNonEmptyTransientSettings s)"
  by (simp add: merged_def merge_settings_facts)

lemma merged_placement:
  "merged s \<Longrightarrow> placement_of s = \<lparr>pl_excluded = excluded s, pl_rebalance = ValueOrZero (GetPersistentRebalance s)\<rparr>"
  by (simp add: merged_def placement_of_def excluded_def)

lemma merged_updates [simp]:
  "merged (updateExcludeIps ips s) = merged s" "merged (updateRebalance v s) = merged s"
  by (simp_all add: merged_def updateExcludeIps_def updateRebalance_def GetTransientExcludeIPs_def
      GetTransientRebalance_def)

lemma placement_updates:
  "merged s \<Longrightarrow> placement_of (updateExcludeIps ips s) = (placement_of s)\<lparr>pl_excluded := ips_of ips\<rparr>"
  "merged s \<Longrightarrow> placement_of (updateRebalance v s) = (placement_of s)\<lparr>pl_rebalance := v\<rparr>"
  by (simp_all add: merged_placement)

section \<open>What a client knows of the settings\<close>

text \<open>Whatever the settings have been at the start: after the calls so far they satisfy P.\<close>

definition knows ::
  "(es_settings \<Rightarrow> es_settings \<Rightarrow> bool) \<Rightarrow> es_settings \<Rightarrow> trace \<Rightarrow> (es_settings \<Rightarrow> bool) \<Rightarrow> trace \<Rightarrow> bool" where
  "knows R s tr0 P tr \<longleftrightarrow> (\<exists>es. tr = tr0 @ es \<and> (\<forall>t. server_run R s es t \<longrightarrow> P t))"

definition stable :: "(es_settings \<Rightarrow> es_settings \<Rightarrow> bool) \<Rightarrow> (es_settings \<Rightarrow> bool) \<Rightarrow> bool" where
  "stable R P \<longleftrightarrow> (\<forall>s t. P s \<longrightarrow> R s t \<longrightarrow> P t)"

lemma knows_mono: "knows R s tr0 P tr \<Longrightarrow> (\<And>t. P t \<Longrightarrow> Q t) \<Longrightarrow> knows R s tr0 Q tr"
  by (auto simp: knows_def)

lemma knows_snoc:
  assumes "knows R s tr0 P tr" "\<And>t t' u. P t \<Longrightarrow> serves t e t' \<Longrightarrow> R t' u \<Longrightarrow> Q u"
  shows "knows R s tr0 Q (tr @ [e])"
proof -
  from assms(1) obtain es where es: "tr = tr0 @ es" "\<forall>t. server_run R s es t \<longrightarrow> P t"
    by (auto simp: knows_def)
  then have "\<forall>u. server_run R s (es @ [e]) u \<longrightarrow> Q u"
    using assms(2) by (auto simp: server_run_snoc)
  with es(1) show ?thesis unfolding knows_def by (intro exI [of _ "es @ [e]"]) simp
qed

lemma knows_other: "stable R P \<Longrightarrow> \<not> is_settings_event e \<Longrightarrow> knows R s tr0 P tr \<Longrightarrow> knows R s tr0 P (tr @ [e])"
  by (erule knows_snoc) (auto simp: stable_def elim!: serves.cases)

lemma knows_adds:
  assumes "stable R P" "adds (\<lambda>e. \<not> is_settings_event e) tr tr'" "knows R s tr0 P tr"
  shows "knows R s tr0 P tr'"
proof -
  from assms(2) obtain es where "tr' = tr @ es" "\<forall>e \<in> set es. \<not> is_settings_event e" by (auto simp: adds_def)
  then show ?thesis
    using assms(1,3) knows_other by (induction es arbitrary: tr' rule: rev_induct) (auto simp flip: append_assoc)
qed

text \<open>Calls that do not concern the settings.\<close>

lemma aside_valid:
  assumes "stable R P" "emits (\<lambda>e. \<not> is_settings_event e) m"
  shows "valid (knows R s tr0 P) m (\<lambda>_. knows R s tr0 P) (knows R s tr0 P)"
  by (rule valid_emits [OF assms(2)]) (rule knows_adds [OF assms(1)])

section \<open>Reading and writing the settings\<close>

abbreviation known :: "(es_settings \<Rightarrow> es_settings \<Rightarrow> bool) \<Rightarrow> es_settings \<Rightarrow> trace \<Rightarrow> (es_settings \<Rightarrow> bool) \<Rightarrow> 'a \<Rightarrow> trace \<Rightarrow> bool" where
  "known R s tr0 P \<equiv> \<lambda>_. knows R s tr0 P"

text \<open>What is read was stored at that moment; others may have gone on since.\<close>

definition read_of :: "(es_settings \<Rightarrow> es_settings \<Rightarrow> bool) \<Rightarrow> (es_settings \<Rightarrow> bool) \<Rightarrow> es_settings \<Rightarrow> es_settings \<Rightarrow> bool" where
  "read_of R P x t \<longleftrightarrow> (\<exists>s. P s \<and> R s t \<and> x = MergeNonEmptyTransientSettings s)"

lemma read_of_stable: "stable R P \<Longrightarrow> read_of R P x t \<Longrightarrow> P t"
  by (auto simp: read_of_def stable_def)

lemma read_of_next: "interference R \<Longrightarrow> stable R (read_of R P x)"
  unfolding stable_def read_of_def by (blast intro: interferenceD(2))

lemma get_valid:
  assumes "interference R" "stable R P"
  shows "valid (knows R s tr0 P) getClusterSettings (\<lambda>x. knows R s tr0 (read_of R P x)) (knows R s tr0 P)"
proof (rule validI)
  fix w :: world and tr assume k: "knows R s tr0 P tr"
  let ?e = "GetSettings (w_get_settings w tr)"
  have keep: "knows R s tr0 P (tr @ [?e])"
    by (rule knows_snoc [OF k]) (use assms(2) in \<open>auto simp: stable_def serves_read\<close>)
  have "knows R s tr0 (read_of R P (MergeNonEmptyTransientSettings x)) (tr @ [?e])"
    if "w_get_settings w tr = Response 200 (Some x)" for x
    by (rule knows_snoc [OF k]) (use that in \<open>auto simp: serves_read read_of_def\<close>)
  with keep show "holds (\<lambda>x. knows R s tr0 (read_of R P x)) (knows R s tr0 P) (getClusterSettings w tr)"
    by (auto simp: getClusterSettings_def io_bind_def io_call_def decode_def io_fail_def io_return_def Let_def
        split: http.split option.split)
qed

text \<open>A write: done when it is answered with success, otherwise perhaps.\<close>

lemma put_valid:
  assumes "\<And>t u. P t \<Longrightarrow> R s' u \<Longrightarrow> Q u" "\<And>t. P t \<Longrightarrow> E t" "\<And>t. Q t \<Longrightarrow> E t" "stable R P"
  shows "valid (knows R s tr0 P) (put_settings s') (\<lambda>x tr. x = s' \<and> knows R s tr0 Q tr) (knows R s tr0 E)"
proof (rule validI)
  fix w :: world and tr assume k: "knows R s tr0 P tr"
  let ?e = "PutSettings s' (w_put_settings w tr s')"
  have e: "knows R s tr0 E (tr @ [?e])"
    by (rule knows_snoc [OF k]) (use assms in \<open>auto simp: serves_write stable_def\<close>)
  have "knows R s tr0 Q (tr @ [?e])" if "w_put_settings w tr s' = Response 200 b" for b
    by (rule knows_snoc [OF k]) (use assms(1) that in \<open>auto simp: serves_write\<close>)
  with e show "holds (\<lambda>x tr. x = s' \<and> knows R s tr0 Q tr) (knows R s tr0 E) (put_settings s' w tr)"
    by (auto simp: put_settings_def io_bind_def io_call_def expect_ok_def io_fail_def io_return_def Let_def
        split: http.split)
qed

lemma get_emits: "emits is_settings_event getClusterSettings"
  unfolding getClusterSettings_def decode_def by (intro emits_intros | simp)+

text \<open>A read, and what is done with it when others may have gone on.\<close>

lemma read_valid:
  assumes "interference R" "stable R P" "\<And>tr. knows R s tr0 P tr \<Longrightarrow> E tr"
    and "\<And>x. valid (knows R s tr0 (read_of R P x)) (f x) Q E"
  shows "valid (knows R s tr0 P) (io_bind getClusterSettings f) Q E"
  by (rule valid_bind [OF valid_weaken [OF get_valid [OF assms(1,2), of s tr0]] assms(4)])
    (use assms(3) in auto)

section \<open>The operations\<close>

text \<open>The settings that are written after a read in P mean what was stored, with one change.\<close>

lemma exclude_list_mem: "ip \<noteq> '''' \<Longrightarrow> ip \<in> set (exclude_list s) \<longleftrightarrow> ip \<in> excluded s"
  using exclude_list_set [of s] by auto

lemma excluded_merge [simp]: "excluded (MergeNonEmptyTransientSettings s) = pl_excluded (placement_of s)"
  using merged_placement [OF merged_merge, of s] by simp

lemma placement_exclude:
  assumes "pod_named_ip pd"
  shows "placement_of (updateExcludeIps (join_with CHR '','' (sort_slice (<)
      (exclude_list (MergeNonEmptyTransientSettings s) @ [pod_ip pd]))) (MergeNonEmptyTransientSettings s)) =
    exclude_node (pod_ip pd) (placement_of s)"
  by (simp add: placement_updates excluded_after_adding [OF assms] exclude_node_def)

lemma placement_rebalance:
  "placement_of (updateRebalance v (MergeNonEmptyTransientSettings s)) = (placement_of s)\<lparr>pl_rebalance := v\<rparr>"
  by (simp add: placement_updates)

lemma write_valid:
  assumes "interference R" "stable R P" "\<And>t. P t \<Longrightarrow> E t" "\<And>t. Q t \<Longrightarrow> E t"
    and "\<And>s u. P s \<Longrightarrow> x = MergeNonEmptyTransientSettings s \<Longrightarrow> R (change x) u \<Longrightarrow> Q u"
  shows "valid (knows R s tr0 (read_of R P x)) (put_settings (change x))
    (\<lambda>y tr. y = change x \<and> knows R s tr0 Q tr) (knows R s tr0 E)"
proof (rule put_valid)
  show "Q u" if "read_of R P x t" "R (change x) u" for t u
    using that assms(5) by (auto simp: read_of_def)
  show "E t" if "read_of R P x t" for t
    using read_of_stable [OF assms(2) that] assms(3) by blast
qed (use assms read_of_next in auto)

lemma exclude_valid:
  assumes "interference R" "stable R P" "pod_named_ip pd"
    and "\<And>s u. P s \<Longrightarrow> R s u \<Longrightarrow> pod_ip pd \<in> pl_excluded (placement_of s) \<Longrightarrow> Q u"
    and "\<And>s s' u. P s \<Longrightarrow> placement_of s' = exclude_node (pod_ip pd) (placement_of s) \<Longrightarrow> R s' u \<Longrightarrow> Q u"
  shows "valid (knows R s tr0 P) (excludePodIP pd) (known R s tr0 Q) (knows R s tr0 (\<lambda>t. P t \<or> Q t))"
  unfolding excludePodIP_def
proof (rule read_valid [OF assms(1,2)])
  show "knows R s tr0 (\<lambda>t. P t \<or> Q t) tr" if "knows R s tr0 P tr" for tr
    using that by (rule knows_mono) simp
  fix x
  let ?new = "\<lambda>x. updateExcludeIps (join_with CHR '','' (sort_slice (<) (exclude_list x @ [pod_ip pd]))) x"
  have present: "valid (knows R s tr0 (read_of R P x)) (io_return ()) (known R s tr0 Q) (knows R s tr0 (\<lambda>t. P t \<or> Q t))"
    if "pod_ip pd \<in> set (exclude_list x)"
  proof (rule valid_return, erule knows_mono)
    fix t assume "read_of R P x t"
    then obtain s where s: "P s" "R s t" "x = MergeNonEmptyTransientSettings s" by (auto simp: read_of_def)
    moreover have "pod_ip pd \<in> excluded x"
      using that assms(3) exclude_list_mem [of "pod_ip pd" x] by (simp add: pod_named_ip_def)
    ultimately show "Q t" using assms(4) by simp
  qed
  have added: "valid (knows R s tr0 (read_of R P x)) (put_settings (?new x))
      (\<lambda>y tr. y = ?new x \<and> knows R s tr0 Q tr) (knows R s tr0 (\<lambda>t. P t \<or> Q t))"
    by (rule write_valid [OF assms(1,2)]) (use assms(5) placement_exclude [OF assms(3)] in auto)
  show "valid (knows R s tr0 (read_of R P x)) (let ips = exclude_list x in if pod_ip pd \<in> set ips then io_return ()
      else io_bind (setExcludeIPs (join_with CHR '','' (sort_slice (<) (ips @ [pod_ip pd]))) x) (\<lambda>_. io_return ()))
      (known R s tr0 Q) (knows R s tr0 (\<lambda>t. P t \<or> Q t))"
    unfolding Let_def setExcludeIPs_def
    by (intro valid_if present valid_bind [OF added] valid_return) auto
qed

section \<open>Draining\<close>

text \<open>While the IP of the pod is excluded, excluding it again changes nothing.\<close>

definition settled_for :: "(es_settings \<Rightarrow> es_settings \<Rightarrow> bool) \<Rightarrow> pod \<Rightarrow> (es_settings \<Rightarrow> bool) \<Rightarrow> bool" where
  "settled_for R pd P \<longleftrightarrow> stable R P \<and> (\<forall>s. P s \<longrightarrow> pod_ip pd \<in> pl_excluded (placement_of s)) \<and>
     (\<forall>s s'. P s \<longrightarrow> placement_of s' = placement_of s \<longrightarrow> P s')"

lemma settledD:
  assumes "settled_for R pd P"
  shows "stable R P" "P s \<Longrightarrow> pod_ip pd \<in> pl_excluded (placement_of s)"
    "P s \<Longrightarrow> placement_of s' = placement_of s \<Longrightarrow> P s'"
  using assms unfolding settled_for_def by blast+

lemma exclude_node_id: "ip \<in> pl_excluded p \<Longrightarrow> exclude_node ip p = p"
  by (simp add: exclude_node_def insert_absorb)

lemma exclude_again_valid:
  assumes "interference R" "settled_for R pd P" "pod_named_ip pd"
  shows "valid (knows R s tr0 P) (excludePodIP pd) (known R s tr0 P) (knows R s tr0 P)"
proof -
  have "valid (knows R s tr0 P) (excludePodIP pd) (known R s tr0 P) (knows R s tr0 (\<lambda>t. P t \<or> P t))"
  proof (rule exclude_valid [OF assms(1) _ assms(3)])
    fix s s' u assume s: "P s" "placement_of s' = exclude_node (pod_ip pd) (placement_of s)" "R s' u"
    have "pod_ip pd \<in> pl_excluded (placement_of s)" using settledD(2) [OF assms(2) s(1)] .
    then have "P s'" using settledD(3) [OF assms(2) s(1)] s(2) by (simp add: exclude_node_id)
    with s(3) show "P u" using settledD(1) [OF assms(2)] unfolding stable_def by blast
  next
    show "P u" if "P s" "R s u" for s u
      using that settledD(1) [OF assms(2)] unfolding stable_def by blast
  qed (rule settledD(1) [OF assms(2)])
  then show ?thesis by simp
qed

lemma condition_valid:
  assumes "interference R" "settled_for R pd P" "pod_named_ip pd"
  shows "valid (knows R s tr0 P) (retry_condition pd r) (known R s tr0 P) (knows R s tr0 P)"
proof -
  have aside: "valid (knows R s tr0 P) (io_call w_context_done ContextDone) (known R s tr0 P) (knows R s tr0 P)"
    using assms(2) by (intro aside_valid emits_call) (auto simp: settled_for_def)
  have again: "valid (knows R s tr0 P) (io_try (excludePodIP pd)) (known R s tr0 P) (knows R s tr0 P)"
    by (rule valid_try, rule valid_weaken [OF exclude_again_valid [OF assms]]) auto
  show ?thesis
    unfolding retry_condition_def
    by (rule valid_bind [OF aside], cases r)
      (auto intro!: valid_return valid_bind [OF again] split: option.split sum.split)
qed

lemma retry_valid:
  assumes "valid I req (\<lambda>_. I) I" "\<And>r. valid I (again r) (\<lambda>_. I) I"
  shows "valid I (documented_retry n req again) (\<lambda>_. I) I"
  by (induction n) (auto intro!: valid_bind [OF assms(1)] valid_bind [OF assms(2)] valid_if valid_return)

lemma wait_valid:
  assumes "interference R" "settled_for R pd P" "pod_named_ip pd"
    and "documented retry" "0 \<le> sint (dc_max_retries cfg)"
  shows "valid (knows R s tr0 P) (waitForEmptyEsNode retry cfg pd) (known R s tr0 P) (knows R s tr0 P)"
proof -
  have "valid (knows R s tr0 P) (io_call w_shards CatShards) (known R s tr0 P) (knows R s tr0 P)"
    using assms(2) by (intro aside_valid emits_call) (auto simp: settled_for_def)
  then have "valid (knows R s tr0 P) (retry cfg (io_call w_shards CatShards) (retry_condition pd)) (known R s tr0 P) (knows R s tr0 P)"
    using assms(4,5) retry_valid condition_valid [OF assms(1-3)] by (simp add: documented_def)
  then show ?thesis
    unfolding waitForEmptyEsNode_def
    by (rule valid_bind) (auto intro!: valid_fail valid_return split: http.split)
qed

lemma rebalance_valid:
  assumes "interference R" "stable R P" "\<And>t. P t \<Longrightarrow> E t" "\<And>t. Q t \<Longrightarrow> E t"
    and "\<And>s s' u. P s \<Longrightarrow> placement_of s' = (placement_of s)\<lparr>pl_rebalance := v\<rparr> \<Longrightarrow> R s' u \<Longrightarrow> Q u"
  shows "valid (knows R s tr0 (read_of R P x)) (updateAutoRebalance v x) (known R s tr0 Q) (knows R s tr0 E)"
  unfolding updateAutoRebalance_def
proof (rule valid_weaken [OF write_valid [OF assms(1-4), where x = x and change = "updateRebalance v"]])
  show "Q u" if "P s" "x = MergeNonEmptyTransientSettings s" "R (updateRebalance v x) u" for s u
    using assms(5) [OF that(1) _ that(3)] that(2) placement_rebalance by blast
qed auto

text \<open>
  A drain: rebalancing off (from P to P1), the pod excluded (to Q), then waiting.
\<close>

lemma drain_serves:
  assumes "interference R" "stable R P" "stable R P1" "settled_for R pd Q" "pod_named_ip pd"
    and "documented retry" "0 \<le> sint (dc_max_retries cfg)"
    and "\<And>s s' u. P s \<Longrightarrow> placement_of s' = (placement_of s)\<lparr>pl_rebalance := ''none''\<rparr> \<Longrightarrow> R s' u \<Longrightarrow> P1 u"
    and "\<And>s u. P1 s \<Longrightarrow> R s u \<Longrightarrow> pod_ip pd \<in> pl_excluded (placement_of s) \<Longrightarrow> Q u"
    and "\<And>s s' u. P1 s \<Longrightarrow> placement_of s' = exclude_node (pod_ip pd) (placement_of s) \<Longrightarrow> R s' u \<Longrightarrow> Q u"
  shows "valid (knows R s tr0 P) (Drain retry cfg pd) (known R s tr0 Q) (knows R s tr0 (\<lambda>t. P t \<or> P1 t \<or> Q t))"
    (is "valid ?P ?drain ?Q ?E")
proof -
  have le: "knows R s tr0 P tr \<Longrightarrow> ?E tr" "knows R s tr0 P1 tr \<Longrightarrow> ?E tr" "knows R s tr0 Q tr \<Longrightarrow> ?E tr"
    "knows R s tr0 (\<lambda>t. P1 t \<or> Q t) tr \<Longrightarrow> ?E tr" for tr
    by (erule knows_mono; simp)+
  have "valid ?P ensureGreenClusterState (known R s tr0 P) (knows R s tr0 P)"
    unfolding ensureGreenClusterState_def decode_def
    by (intro aside_valid assms(2)) (intro emits_intros | simp)+
  then have green: "valid ?P ensureGreenClusterState (known R s tr0 P) ?E"
    by (rule valid_weaken) (auto intro: le)
  have exclude: "valid (knows R s tr0 P1) (excludePodIP pd) ?Q ?E"
    by (rule valid_weaken [OF exclude_valid [OF assms(1,3,5,9,10)]]) (auto intro: le)
  have wait: "valid (knows R s tr0 Q) (waitForEmptyEsNode retry cfg pd) ?Q ?E"
    by (rule valid_weaken [OF wait_valid [OF assms(1,4-7)]]) (auto intro: le)
  have off: "valid (knows R s tr0 (read_of R P x)) (updateAutoRebalance ''none'' x) (known R s tr0 P1) ?E" for x
    by (rule rebalance_valid [OF assms(1,2)]) (use assms(8) in auto)
  show ?thesis
    unfolding Drain_def
    by (rule valid_bind [OF green], rule read_valid [OF assms(1,2) le(1)], assumption,
        rule valid_bind [OF off], rule valid_bind [OF exclude], rule wait)
qed

section \<open>Cleaning up\<close>

text \<open>
  Nobody else is at work now. The first write of a cleanup is done on what was read, the second on
  what the first has written.
\<close>

abbreviation means :: "es_settings \<Rightarrow> trace \<Rightarrow> placement \<Rightarrow> trace \<Rightarrow> bool" where
  "means s tr0 p \<equiv> knows (=) s tr0 (\<lambda>t. placement_of t = p)"

lemma stable_eq [simp]: "stable (=) P"
  by (simp add: stable_def)

text \<open>The settings x a handler goes on with mean what is stored.\<close>

definition current_settings :: "placement \<Rightarrow> es_settings \<Rightarrow> es_settings \<Rightarrow> bool" where
  "current_settings p x t \<longleftrightarrow> merged x \<and> placement_of x = p \<and> placement_of t = p"

lemma read_current: "read_of (=) (\<lambda>t. placement_of t = p) x t \<Longrightarrow> current_settings p x t"
  by (auto simp: read_of_def current_settings_def)

lemma current_excluded: "current_settings p x t \<Longrightarrow> excluded x = pl_excluded p"
  by (auto simp: current_settings_def merged_placement)

lemma current_stored: "current_settings p x t \<Longrightarrow> placement_of t = p"
  by (simp add: current_settings_def)

lemma current_updates:
  assumes "current_settings p x t"
  shows "current_settings (p\<lparr>pl_excluded := ips_of ips\<rparr>) (updateExcludeIps ips x) (updateExcludeIps ips x)"
    "current_settings (p\<lparr>pl_rebalance := v\<rparr>) (updateRebalance v x) (updateRebalance v x)"
  using assms by (auto simp: current_settings_def placement_updates)

lemma current_write:
  assumes "\<And>t. current_settings p x t \<Longrightarrow> current_settings q x' x'"
  shows "valid (knows (=) s tr0 (current_settings p x)) (put_settings x')
    (\<lambda>y. knows (=) s tr0 (current_settings q y)) (knows (=) s tr0 (\<lambda>t. placement_of t = p \<or> placement_of t = q))"
proof (rule valid_weaken [OF put_valid])
  show "current_settings q x' u" if "current_settings p x t" "x' = u" for t u
    using assms [OF that(1)] that(2) by simp
  show "placement_of t = p \<or> placement_of t = q" if "current_settings p x t" for t
    using current_stored [OF that] by simp
  show "placement_of t = p \<or> placement_of t = q" if "current_settings q x' t" for t
    using current_stored [OF that] by simp
qed auto

lemma forget_valid:
  assumes "ips_of new = excluded x \<inter> N" and q: "q = p\<lparr>pl_excluded := pl_excluded p \<inter> N\<rparr>"
  shows "valid (knows (=) s tr0 (current_settings p x))
    (if new \<noteq> ValueOrZero (GetPersistentExcludeIPs x) then setExcludeIPs new x else io_return x)
    (\<lambda>y. knows (=) s tr0 (current_settings q y))
    (knows (=) s tr0 (\<lambda>t. placement_of t = p \<or> placement_of t = q))"
proof (rule valid_if)
  have new: "q = p\<lparr>pl_excluded := ips_of new\<rparr>" if "current_settings p x t" for t
    using current_excluded [OF that] assms by simp
  show "valid (knows (=) s tr0 (current_settings p x)) (setExcludeIPs new x)
      (\<lambda>y. knows (=) s tr0 (current_settings q y)) (knows (=) s tr0 (\<lambda>t. placement_of t = p \<or> placement_of t = q))"
    unfolding setExcludeIPs_def
  proof (rule current_write)
    fix t assume "current_settings p x t"
    then show "current_settings q (updateExcludeIps new x) (updateExcludeIps new x)"
      using current_updates(1) [of p x t new] new by simp
  qed
  assume "\<not> new \<noteq> ValueOrZero (GetPersistentExcludeIPs x)"
  then have same: "excluded x = ips_of new" by (simp add: excluded_def excluded_ips_def)
  have "current_settings q x t" if "current_settings p x t" for t
    using that new [OF that] current_excluded [OF that] same by simp
  then show "valid (knows (=) s tr0 (current_settings p x)) (io_return x)
      (\<lambda>y. knows (=) s tr0 (current_settings q y)) (knows (=) s tr0 (\<lambda>t. placement_of t = p \<or> placement_of t = q))"
    by (intro valid_return) (erule knows_mono)
qed

lemma release_valid:
  assumes "r = p\<lparr>pl_rebalance := ''all''\<rparr>"
  shows "valid (knows (=) s tr0 (current_settings p x))
    (if ValueOrZero (GetPersistentRebalance x) \<noteq> ''all''
     then io_bind (updateAutoRebalance ''all'' x) (\<lambda>_. io_return ()) else io_return ())
    (\<lambda>_. means s tr0 r) (knows (=) s tr0 (\<lambda>t. placement_of t = p \<or> placement_of t = r))"
proof (rule valid_if)
  show "valid (knows (=) s tr0 (current_settings p x)) (io_bind (updateAutoRebalance ''all'' x) (\<lambda>_. io_return ()))
      (\<lambda>_. means s tr0 r) (knows (=) s tr0 (\<lambda>t. placement_of t = p \<or> placement_of t = r))"
    unfolding updateAutoRebalance_def
  proof (rule valid_bind)
    show "valid (knows (=) s tr0 (current_settings p x)) (put_settings (updateRebalance ''all'' x))
        (\<lambda>y. knows (=) s tr0 (current_settings r y)) (knows (=) s tr0 (\<lambda>t. placement_of t = p \<or> placement_of t = r))"
      unfolding assms by (rule current_write) (rule current_updates(2))
  qed (rule valid_return, erule knows_mono, erule current_stored)
  assume "\<not> ValueOrZero (GetPersistentRebalance x) \<noteq> ''all''"
  then have "placement_of t = r" if "current_settings p x t" for t
    using that assms by (auto simp: current_settings_def merged_placement)
  then show "valid (knows (=) s tr0 (current_settings p x)) (io_return ())
      (\<lambda>_. means s tr0 r) (knows (=) s tr0 (\<lambda>t. placement_of t = p \<or> placement_of t = r))"
    by (intro valid_return) (erule knows_mono)
qed

text \<open>
  How far a cleanup has got, N being the addresses of the nodes it has read: nothing done, the
  other exclusions removed, or everything done.
\<close>

definition cleaning :: "string set \<Rightarrow> placement \<Rightarrow> placement \<Rightarrow> bool" where
  "cleaning N p q \<longleftrightarrow> q \<in> {p, p\<lparr>pl_excluded := pl_excluded p \<inter> N\<rparr>, clean_up N p}"

definition nodes_listed :: "string set \<Rightarrow> trace \<Rightarrow> bool" where
  "nodes_listed N es \<longleftrightarrow> (\<exists>ns. CatNodes (Response 200 (Some ns)) \<in> set es \<and> N = rn_ip ` set ns)"

lemma run_valid:
  assumes "valid (knows R s tr P) m (\<lambda>_. knows R s tr Q) (knows R s tr E)" "\<And>u. R s u \<Longrightarrow> P u"
    and "m w tr = (r, tr @ es)" "server_run R s es t"
  shows "case r of Ok a \<Rightarrow> Q t | _ \<Rightarrow> E t"
proof -
  have "knows R s tr P tr" using assms(2) by (auto simp: knows_def server_run_Nil)
  from validD [OF assms(1) this, of w] show ?thesis
    using assms(3,4) by (cases r) (auto simp: knows_def)
qed

text \<open>What follows the listing of the nodes.\<close>

definition cleanup_settings :: "es_node list \<Rightarrow> unit io" where
  "cleanup_settings nodes =
     io_bind getClusterSettings (\<lambda>x.
       let excluded = ValueOrZero (GetPersistentExcludeIPs x);
           new = join_with CHR '','' (drop_unknown_ips nodes (split_on CHR '','' excluded))
       in io_bind (if new \<noteq> excluded then setExcludeIPs new x else io_return x) (\<lambda>x.
            if ValueOrZero (GetPersistentRebalance x) \<noteq> ''all''
            then io_bind (updateAutoRebalance ''all'' x) (\<lambda>_. io_return ()) else io_return ()))"

lemma cleanup_parts: "Cleanup = io_bind GetNodes cleanup_settings"
  by (simp add: Cleanup_def cleanup_settings_def [abs_def] Let_def)

lemma cleanup_settings_emits: "emits (\<lambda>_. True) (cleanup_settings nodes)"
  unfolding cleanup_settings_def getClusterSettings_def setExcludeIPs_def updateAutoRebalance_def put_settings_def
    decode_def expect_ok_def
  by (intro emits_intros | simp)+

lemma cleanup_settings_valid:
  assumes "N = nn_ip ` set nodes"
  shows "valid (means s tr0 p) (cleanup_settings nodes) (\<lambda>_. means s tr0 (clean_up N p))
    (knows (=) s tr0 (\<lambda>t. cleaning N p (placement_of t)))"
  unfolding cleanup_settings_def Let_def
proof (rule read_valid [OF interference_none stable_eq])
  show "knows (=) s tr0 (\<lambda>t. cleaning N p (placement_of t)) tr" if "means s tr0 p tr" for tr
    using that by (rule knows_mono) (simp add: cleaning_def)
  fix x
  let ?q = "p\<lparr>pl_excluded := pl_excluded p \<inter> N\<rparr>"
  let ?new = "\<lambda>x. join_with CHR '','' (drop_unknown_ips nodes (split_on CHR '','' (ValueOrZero (GetPersistentExcludeIPs x))))"
  let ?forget = "\<lambda>x. if ?new x \<noteq> ValueOrZero (GetPersistentExcludeIPs x) then setExcludeIPs (?new x) x else io_return x"
  let ?release = "\<lambda>x. if ValueOrZero (GetPersistentRebalance x) \<noteq> ''all''
    then io_bind (updateAutoRebalance ''all'' x) (\<lambda>_. io_return ()) else io_return ()"
  let ?E = "knows (=) s tr0 (\<lambda>t. cleaning N p (placement_of t))"
  have r: "clean_up N p = ?q\<lparr>pl_rebalance := ''all''\<rparr>" by (simp add: clean_up_def)
  have new: "ips_of (?new x) = excluded x \<inter> N" unfolding assms by (rule excluded_after_cleanup)
  have forget: "valid (knows (=) s tr0 (read_of (=) (\<lambda>t. placement_of t = p) x)) (?forget x)
      (\<lambda>y. knows (=) s tr0 (current_settings ?q y)) ?E"
    by (rule valid_weaken [OF forget_valid [OF new refl]]) (erule knows_mono, auto simp: read_current cleaning_def)+
  have release: "valid (knows (=) s tr0 (current_settings ?q y)) (?release y) (\<lambda>_. means s tr0 (clean_up N p)) ?E" for y
    by (rule valid_weaken [OF release_valid [OF r]]) (erule knows_mono, auto simp: cleaning_def)+
  show "valid (knows (=) s tr0 (read_of (=) (\<lambda>t. placement_of t = p) x)) (io_bind (?forget x) ?release)
      (\<lambda>_. means s tr0 (clean_up N p)) ?E"
    by (rule valid_bind [OF forget release])
qed

section \<open>Refinement\<close>

text \<open>
  C4. Draining refines one step on the meaning of the settings, whatever they were: when nobody
  else writes them, a drain that reports success has excluded the IP of the pod, turned rebalancing
  off and changed nothing else, and one that fails has got as far as one of its two steps, even if
  the answer to a write was lost.
\<close>

theorem drain_refines:
  assumes "documented retry" "0 \<le> sint (dc_max_retries cfg)" "pod_named_ip pd"
    and "Drain retry cfg pd w tr = (result, tr @ es)" "server_run (=) s es t"
  shows "(result = Ok u \<longrightarrow> placement_of t = empty_node (pod_ip pd) (placement_of s)) \<and>
    placement_of t \<in> {placement_of s, (placement_of s)\<lparr>pl_rebalance := ''none''\<rparr>,
      empty_node (pod_ip pd) (placement_of s)}"
proof -
  let ?p = "placement_of s"
  have "valid (means s tr ?p) (Drain retry cfg pd) (\<lambda>_. means s tr (empty_node (pod_ip pd) ?p))
      (knows (=) s tr (\<lambda>t. placement_of t = ?p \<or> placement_of t = ?p\<lparr>pl_rebalance := ''none''\<rparr> \<or>
        placement_of t = empty_node (pod_ip pd) ?p))"
    by (rule drain_serves [OF interference_none stable_eq stable_eq _ assms(3,1,2)])
      (auto simp: settled_for_def empty_node_def exclude_node_def insert_absorb)
  from run_valid [OF this _ assms(4,5)] show ?thesis by (cases result) auto
qed

lemma cleanup_on_server:
  assumes "Cleanup w tr = (result, tr @ es)" "server_run (=) s es t"
  shows "(result \<noteq> Ok () \<and> placement_of t = placement_of s) \<or>
    (\<exists>N. nodes_listed N es \<and> (result = Ok () \<longrightarrow> placement_of t = clean_up N (placement_of s)) \<and>
      cleaning N (placement_of s) (placement_of t) \<and>
      pl_excluded (placement_of t) \<inter> N = pl_excluded (placement_of s) \<inter> N)"
proof -
  let ?p = "placement_of s"
  have start: "means s tr ?p tr" by (simp add: knows_def server_run_Nil)
  have "emits (\<lambda>e. \<not> is_settings_event e) GetNodes"
    unfolding GetNodes_def decode_def by (intro emits_intros | simp)+
  from validD [OF aside_valid [OF stable_eq this] start]
  have nodes: "holds (\<lambda>_. means s tr ?p) (means s tr ?p) (GetNodes w tr)" .
  show ?thesis
  proof (cases "GetNodes w tr" rule: result_cases)
    case (Ok nodes tr1)
    then obtain ns where ns: "tr1 = tr @ [CatNodes (Response 200 (Some ns))]" "nodes = map convert_node ns"
      by (auto simp: GetNodes_def io_ok)
    let ?N = "rn_ip ` set ns"
    have run: "cleanup_settings nodes w tr1 = (result, tr @ es)"
      using assms(1) Ok by (simp add: cleanup_parts io_bind_def)
    obtain es' where es': "tr @ es = tr1 @ es'"
      using emits_run [OF cleanup_settings_emits run] by blast
    then have listed: "nodes_listed ?N es" by (auto simp: nodes_listed_def ns(1))
    have N: "?N = nn_ip ` set nodes" by (simp only: ns(2) convert_node_ips)
    have "means s tr ?p tr1" using nodes Ok by simp
    from validD [OF cleanup_settings_valid [OF N] this, of w]
    have final: "result = Ok () \<longrightarrow> placement_of t = clean_up ?N ?p" "cleaning ?N ?p (placement_of t)"
      unfolding run using assms(2) by (cases result; auto simp: knows_def cleaning_def)+
    then have "pl_excluded (placement_of t) \<inter> ?N = pl_excluded ?p \<inter> ?N"
      by (auto simp: cleaning_def clean_up_def)
    with listed final show ?thesis by blast
  qed (use assms nodes in \<open>auto simp: cleanup_parts io_bind_def knows_def\<close>)
qed

text \<open>
  C17. Cleaning up refines one step as well: when nobody else writes the settings, a cleanup that reports
  success has kept exactly the exclusions of the nodes it has listed and turned rebalancing on. One
  that fails has at most removed the other exclusions; in no case is a listed node used again.
\<close>

theorem cleanup_refines:
  assumes "Cleanup w tr = (result, tr @ es)" "server_run (=) s es t"
  shows "(result \<noteq> Ok () \<and> placement_of t = placement_of s) \<or>
    (\<exists>N. nodes_listed N es \<and> (result = Ok () \<longrightarrow> placement_of t = clean_up N (placement_of s)) \<and>
      cleaning N (placement_of s) (placement_of t) \<and>
      pl_excluded (placement_of t) \<inter> N = pl_excluded (placement_of s) \<inter> N)"
  using cleanup_on_server [OF assms] .

text \<open>
  While a drain is under way others may change the settings: as long as they bring no node back, a
  drain that reports success leaves its pod excluded.
\<close>

lemma drained_among_others:
  assumes "documented retry" "0 \<le> sint (dc_max_retries cfg)" "pod_named_ip pd"
    and "Drain retry cfg pd w tr = (Ok u, tr @ es)" "server_run bring_none_back s es t"
  shows "pod_ip pd \<in> pl_excluded (placement_of t)"
proof -
  let ?out = "\<lambda>t. pod_ip pd \<in> pl_excluded (placement_of t)"
  have "valid (knows bring_none_back s tr (\<lambda>_. True)) (Drain retry cfg pd) (\<lambda>_. knows bring_none_back s tr ?out)
      (knows bring_none_back s tr (\<lambda>t. True \<or> True \<or> ?out t))"
    by (rule drain_serves [OF interference_others _ _ _ assms(3,1,2)])
      (auto simp: settled_for_def stable_def bring_none_back_def exclude_node_def)
  from run_valid [OF this _ assms(4,5)] show ?thesis by simp
qed

end
