(* ===== verification/RollingUpdate.thy ===== *)
theory RollingUpdate
  imports EdsResourceProps
begin

text \<open>
  A rolling update as a sequence of successful rounds of operator/operator.go: what one round deletes,
  and that the rounds come to an end when the deleted pods are replaced by pods that need no update.
\<close>

section \<open>What one round deletes\<close>

definition deletions :: "trace \<Rightarrow> event list" where
  "deletions tr = filter is_delete tr"

lemma deletions_simps [simp]:
  "deletions [] = []" "deletions (tr @ es) = deletions tr @ deletions es"
  "deletions (e # tr) = (if is_delete e then e # deletions tr else deletions tr)"
  by (simp_all add: deletions_def)

definition deletion_of :: "pod \<Rightarrow> event" where
  "deletion_of p = DeletePod (pod_namespace p) (pod_name p) (pod_grace_seconds p) (Inr ())"

text \<open>Since the trace was tr0, the pods of ds have been deleted, and the first calls were those of es.\<close>

definition deleted_since :: "trace \<Rightarrow> trace \<Rightarrow> event list \<Rightarrow> trace \<Rightarrow> bool" where
  "deleted_since tr0 start ds tr \<longleftrightarrow> (\<exists>es. tr = tr0 @ start @ es \<and> deletions (start @ es) = ds)"

abbreviation deletes :: "trace \<Rightarrow> trace \<Rightarrow> event list \<Rightarrow> 'a io \<Rightarrow> event list \<Rightarrow> bool" where
  "deletes tr0 start ds m ds' \<equiv> valid (deleted_since tr0 start ds) m (\<lambda>_. deleted_since tr0 start ds') (\<lambda>_. True)"

lemma harmless_deletes:
  assumes "emits harmless m" shows "deletes tr0 start ds m ds"
proof (rule valid_weaken [OF valid_emits [OF assms]])
  fix tr tr' assume "deleted_since tr0 start ds tr" "adds harmless tr tr'"
  then show "deleted_since tr0 start ds tr'"
    by (auto simp: deleted_since_def adds_def deletions_def harmless_def filter_empty_conv)
qed auto

lemma delete_deletes: "deletes tr0 start [] (delete_pod p) [deletion_of p]"
  unfolding delete_pod_def
proof (rule valid_bind)
  let ?ev = "DeletePod (pod_namespace p) (pod_name p) (pod_grace_seconds p)"
  show "valid (deleted_since tr0 start []) (io_call (\<lambda>w tr. w_delete_pod w tr (pod_namespace p) (pod_name p) (pod_grace_seconds p)) ?ev)
      (\<lambda>r. deleted_since tr0 start [?ev r]) (\<lambda>_. True)"
    by (rule valid_call) (auto simp: deleted_since_def)
  show "valid (deleted_since tr0 start [?ev r]) (io_answer r) (\<lambda>_. deleted_since tr0 start [deletion_of p]) (\<lambda>_. True)" for r
    by (rule valid_answer) (auto simp: deletion_of_def)
qed

lemma update_pod_deletes:
  assumes "good_env env" "documented_backoff bo"
  shows "deletes tr0 start [] (update_pod bo sts (eds_resource env e) p) [deletion_of p]"
proof -
  note emits = sets.resource_emits [of env e, OF assms(1)]
  show ?thesis
    unfolding update_pod_def
    by (rule valid_bind [OF harmless_deletes [OF emits_wrap [OF resource_harmless [OF stable_emits [OF assms(2)]]]]],
        rule valid_bind [OF harmless_deletes [OF emits_wrap [OF sets.annotate_emits]]],
        rule valid_bind [OF harmless_deletes [OF emits_wrap [OF emits(5)]]],
        rule valid_bind [OF valid_wrap [OF delete_deletes]],
        rule valid_bind [OF harmless_deletes [OF emits_try [OF resource_harmless [OF termination_emits [OF assms(2)]]]]],
        rule harmless_deletes [OF emits(4)])
qed

definition chosen_pods :: "gomap \<Rightarrow> statefulset \<Rightarrow> int32 option \<Rightarrow> pod list \<Rightarrow> node list \<Rightarrow> (error, pod list) outcome" where
  "chosen_pods selectors sts d ps nodes =
     (case getNodes selectors nodes of (pn, un) \<Rightarrow> prioritizePodsForUpdate ps sts d pn un)"

text \<open>
  The calls of a successful round that lists pods: the data set, the pods, the nodes if there are pods,
  and then the deletion of the first of the chosen pods, if any.
\<close>

definition round_calls :: "gomap \<Rightarrow> statefulset \<Rightarrow> eds \<Rightarrow> pod list \<Rightarrow> node list \<Rightarrow> trace \<Rightarrow> bool" where
  "round_calls selectors sts e0 ps nodes tr \<longleftrightarrow>
     (\<exists>ns n ns' sel es. tr = GetEds ns n (Inr e0) # ListPods ns' sel (Inr ps) # es \<and>
        (if ps = [] then deletions es = []
         else \<exists>qs es'. es = ListNodes (Inr nodes) # es' \<and> chosen_pods selectors sts (edsReplicas e0) ps nodes = Ok qs \<and>
           deletions es' = map deletion_of (take 1 qs)))"

lemma to_update_run:
  "getPodToUpdate selectors ps sts sr w tr = (Ok next, tr') \<Longrightarrow>
   if ps = [] then next = None \<and> tr' = tr
   else \<exists>nodes qs. tr' = tr @ [ListNodes (Inr nodes)] \<and> chosen_pods selectors sts (sr_replicas sr) ps nodes = Ok qs \<and>
     next = (case qs of [] \<Rightarrow> None | p # _ \<Rightarrow> Some p)"
  by (auto simp: getPodToUpdate_def chosen_pods_def io_ok case_prod_beta split: if_splits)

text \<open>What a round does once it has chosen the next pod.\<close>

definition after_choice :: "backoff \<Rightarrow> statefulset \<Rightarrow> getter \<Rightarrow> stateful_resource \<Rightarrow> pod option \<Rightarrow> unit io" where
  "after_choice bo sts get sr next =
     (case next of
        None \<Rightarrow>
          io_bind (io_wrap ''failed to rescale StatefulSet'' (rescaleStatefulSet bo sts get)) (\<lambda>_.
          io_bind (io_wrap ''StatefulSet is not stable'' (waitForStableStatefulSet bo sts)) (\<lambda>_.
            sr_on_stable sr))
      | Some p \<Rightarrow>
          if sr_replicas sr = Some (sts_replicas sts)
          then (let sts' = sts\<lparr>st_replicas := Some (sts_replicas sts + 1)\<rparr>
                in io_bind (io_call (\<lambda>w tr. w_update_sts w tr sts') (UpdateSts sts')) (\<lambda>r.
                   io_bind (io_wrap ''failed to scale StatefulSet'' (io_answer r)) (\<lambda>_.
                     update_pod bo sts' sr p)))
          else update_pod bo sts sr p)"

definition wants_more :: "stateful_resource \<Rightarrow> statefulset \<Rightarrow> bool" where
  "wants_more sr sts \<longleftrightarrow> (case sr_replicas sr of None \<Rightarrow> False | Some d \<Rightarrow> sint (sts_replicas sts) < sint d)"

lemma operate_pods_parts:
  "operatePods bo selectors sts get =
     io_bind (io_wrap ''failed to refresh EDS'' get) (\<lambda>sr.
       if wants_more sr sts
       then io_bind (io_wrap ''failed to rescale StatefulSet'' (rescaleStatefulSet bo sts get)) (\<lambda>_. sr_on_stable sr)
       else io_bind (io_call (\<lambda>w tr. w_list_pods w tr (sr_namespace sr) (sr_label_selector sr))
                          (ListPods (sr_namespace sr) (sr_label_selector sr))) (\<lambda>r.
            io_bind (io_wrap ''failed to list pods'' (io_answer r)) (\<lambda>pods.
            io_bind (io_wrap ''failed to get Pod to update'' (getPodToUpdate selectors pods sts sr))
              (after_choice bo sts get sr))))"
  unfolding operatePods_def after_choice_def [abs_def] wants_more_def Let_def by (rule refl)

lemma after_choice_deletes:
  assumes "good_env env" "documented_backoff bo"
  shows "deletes tr0 start [] (after_choice bo sts (GetResource env e) (eds_resource env e1) next)
    (case next of None \<Rightarrow> [] | Some p \<Rightarrow> [deletion_of p])"
proof (cases "next")
  case None
  have "emits harmless (rescaleStatefulSet bo sts (GetResource env e))"
    by (rule sets.rescale_emits [OF get_resource_yields [OF assms(1)] assms(2)])
  then show ?thesis
    using sets.resource_emits(4) [OF assms(1)]
    by (auto simp: None after_choice_def
        intro!: harmless_deletes emits_bind emits_wrap resource_harmless [OF stable_emits [OF assms(2)]])
next
  case (Some p)
  have "emits harmless (io_call (\<lambda>w tr. w_update_sts w tr sts') (UpdateSts sts'))" for sts'
    by (rule emits_call) (simp add: harmless_def)
  then show ?thesis
    unfolding Some option.case Let_def after_choice_def
    by (intro valid_if update_pod_deletes [OF assms(1,2)] valid_bind [OF harmless_deletes]
        valid_bind [OF harmless_deletes [OF emits_wrap [OF emits_answer]]])
qed

lemma deletes_run:
  "deletes tr0 start ds m ds' \<Longrightarrow> m w (tr0 @ start) = (Ok u, tr') \<Longrightarrow> deletions start = ds \<Longrightarrow>
   \<exists>es. tr' = tr0 @ start @ es \<and> deletions (start @ es) = ds'"
  using validD_Ok [of "deleted_since tr0 start ds" m "\<lambda>_. deleted_since tr0 start ds'" "\<lambda>_. True" "tr0 @ start" w u tr']
  by (simp add: deleted_since_def)

text \<open>A successful round that does not scale up has these calls.\<close>

lemma operate_pods_calls:
  assumes "good_env env" "documented_backoff bo"
    and "operatePods bo selectors sts (GetResource env e) w tr = (Ok u, tr')"
    and "\<forall>ns n e0 d. GetEds ns n (Inr e0) \<in> set tr' \<longrightarrow> edsReplicas e0 = Some d \<longrightarrow> sint d \<le> sint (sts_replicas sts)"
  shows "\<exists>e0 ps nodes es. tr' = tr @ es \<and> round_calls selectors sts e0 ps nodes es"
proof -
  obtain e0 where get: "GetResource env e w tr =
      (Ok (eds_resource env (with_type (eds_api_version e) (eds_kind e) e0)), tr @ [GetEds (eds_namespace e) (eds_name e) (Inr e0)])"
    using assms(3) by (auto simp: operatePods_def GetResource_def io_ok)
  let ?get = "GetEds (eds_namespace e) (eds_name e) (Inr e0)"
  let ?e1 = "with_type (eds_api_version e) (eds_kind e) e0"
  let ?sr = "eds_resource env ?e1"
  have replicas: "sr_replicas ?sr = edsReplicas e0" by (simp add: eds_resource_def)
  note run = assms(3) [unfolded operate_pods_parts bind_ok wrap_ok get]
  have "\<not> wants_more ?sr sts"
  proof
    assume more: "wants_more ?sr sts"
    let ?up = "io_bind (io_wrap ''failed to rescale StatefulSet'' (rescaleStatefulSet bo sts (GetResource env e))) (\<lambda>_. sr_on_stable ?sr)"
    have "deletes tr [?get] [] ?up []"
      using sets.rescale_emits [OF get_resource_yields [OF assms(1)] assms(2)] sets.resource_emits(4) [OF assms(1)]
      by (intro harmless_deletes emits_bind emits_wrap) auto
    moreover have "?up w (tr @ [?get]) = (Ok u, tr')" using run more by simp
    ultimately have "?get \<in> set tr'" by (auto dest: deletes_run)
    with assms(4) more replicas show False by (fastforce simp: wants_more_def split: option.splits)
  qed
  with run obtain ps "next" t where
    choose: "getPodToUpdate selectors ps sts ?sr w (tr @ [?get, ListPods (sr_namespace ?sr) (sr_label_selector ?sr) (Inr ps)]) = (Ok next, t)"
    and rest: "after_choice bo sts (GetResource env e) ?sr next w t = (Ok u, tr')"
    by (auto simp: bind_ok wrap_ok call_ok answer_ok)
  let ?start = "[?get, ListPods (sr_namespace ?sr) (sr_label_selector ?sr) (Inr ps)]"
  note after = deletes_run [OF after_choice_deletes [OF assms(1,2)]]
  show ?thesis
  proof (cases "ps = []")
    case True
    then have n: "next = None" "t = tr @ ?start" using to_update_run [OF choose] by auto
    from after [OF rest [unfolded n(2)]] n(1) obtain es where "tr' = tr @ ?start @ es" "deletions es = []" by auto
    then show ?thesis using True unfolding round_calls_def
      by (intro exI [of _ e0] exI [of _ ps] exI [of _ "[]"] exI [of _ "?start @ es"]) simp
  next
    case False
    with to_update_run [OF choose] obtain nodes qs where n: "t = tr @ ?start @ [ListNodes (Inr nodes)]"
      "chosen_pods selectors sts (edsReplicas e0) ps nodes = Ok qs" "next = (case qs of [] \<Rightarrow> None | p # _ \<Rightarrow> Some p)"
      by (auto simp: replicas)
    from after [OF rest [unfolded n(1)]] obtain es where "tr' = tr @ ?start @ ListNodes (Inr nodes) # es"
      "deletions es = map deletion_of (take 1 qs)" by (cases qs) (auto simp: n(3))
    then show ?thesis using False n(2) unfolding round_calls_def
      by (intro exI [of _ e0] exI [of _ ps] exI [of _ nodes] exI [of _ "?start @ ListNodes (Inr nodes) # es"]) simp
  qed
qed

section \<open>The pods due for an update\<close>

text \<open>
  The reasons for an update that belong to the pod: marked as draining, on a node that is cordoned or
  not preferred, of another revision. That the replicas differ is none of them.
\<close>

definition due :: "gomap \<Rightarrow> node list \<Rightarrow> string \<Rightarrow> pod \<Rightarrow> bool" where
  "due selectors nodes revision p \<longleftrightarrow> scheduled p \<and>
     (draining p \<or> map_of (snd (getNodes selectors nodes)) (pod_node_name p) \<noteq> None \<or>
      map_of (fst (getNodes selectors nodes)) (pod_node_name p) = None \<or>
      (case map_get (pod_labels p) revision_hash_key of None \<Rightarrow> False | Some hash \<Rightarrow> revision \<noteq> hash))"

lemma chosen_due:
  assumes "chosen_pods selectors sts d ps nodes = Ok qs"
  shows "set qs = {p \<in> set ps. due selectors nodes (st_update_revision sts) p}"
proof -
  obtain pn un where n: "getNodes selectors nodes = (pn, un)" by (cases "getNodes selectors nodes")
  have "1 < pod_priority sts d pn un p \<longleftrightarrow> draining p \<or> map_of un (pod_node_name p) \<noteq> None \<or>
      map_of pn (pod_node_name p) = None \<or>
      (case map_get (pod_labels p) revision_hash_key of None \<Rightarrow> False | Some hash \<Rightarrow> st_update_revision sts \<noteq> hash)" for p
    by (auto simp: pod_priority_def draining_def split: option.splits)
  then show ?thesis
    using prioritize_facts(1) [OF assms [unfolded chosen_pods_def n prod.case]] by (auto simp: due_def n)
qed

definition due_pods :: "gomap \<Rightarrow> node list \<Rightarrow> string \<Rightarrow> pod list \<Rightarrow> pod set" where
  "due_pods selectors nodes revision ps = {p \<in> set ps. due selectors nodes revision p}"

section \<open>A sequence of rounds\<close>

text \<open>The pods and nodes a round has listed.\<close>

definition sees :: "trace \<Rightarrow> pod list \<Rightarrow> node list \<Rightarrow> bool" where
  "sees tr ps nodes \<longleftrightarrow> (\<exists>get ns sel es. tr = get # ListPods ns sel (Inr ps) # es \<and>
     (ps = [] \<or> (\<exists>es'. es = ListNodes (Inr nodes) # es')))"

text \<open>A round that succeeds and has nothing to scale up.\<close>

definition update_round ::
  "backoff \<Rightarrow> gomap \<Rightarrow> eds_env \<Rightarrow> eds \<Rightarrow> world \<Rightarrow> statefulset \<Rightarrow> pod list \<Rightarrow> node list \<Rightarrow> trace \<Rightarrow> bool" where
  "update_round bo selectors env e w sts ps nodes tr \<longleftrightarrow>
     operatePods bo selectors sts (GetResource env e) w [] = (Ok (), tr) \<and> sees tr ps nodes \<and>
     (\<forall>ns n e0 d. GetEds ns n (Inr e0) \<in> set tr \<longrightarrow> edsReplicas e0 = Some d \<longrightarrow> sint d \<le> sint (sts_replicas sts))"

text \<open>
  What Kubernetes does until the next round: a pod that is due then was there before and has not been
  deleted. The pods that replace deleted ones have the revision and a node that need no update.
\<close>

definition replaced :: "gomap \<Rightarrow> node list \<Rightarrow> string \<Rightarrow> pod list \<Rightarrow> trace \<Rightarrow> pod list \<Rightarrow> bool" where
  "replaced selectors nodes revision ps tr ps' \<longleftrightarrow>
     (\<forall>p \<in> due_pods selectors nodes revision ps'. p \<in> set ps \<and> deletion_of p \<notin> set (deletions tr))"

lemma round_deletes:
  assumes "good_env env" "documented_backoff bo" "update_round bo selectors env e w sts ps nodes tr"
  shows "(due_pods selectors nodes (st_update_revision sts) ps = {} \<and> deletions tr = []) \<or>
    (\<exists>p \<in> due_pods selectors nodes (st_update_revision sts) ps. deletions tr = [deletion_of p])"
proof -
  obtain e0 ps' nodes' where calls: "round_calls selectors sts e0 ps' nodes' tr"
    using operate_pods_calls [OF assms(1,2), of selectors sts e w "[]" "()" tr] assms(3) by (auto simp: update_round_def)
  with assms(3) have "ps' = ps" "ps \<noteq> [] \<Longrightarrow> nodes' = nodes"
    by (auto simp: update_round_def sees_def round_calls_def split: if_splits)
  then consider "ps = []" "deletions tr = []"
    | qs where "chosen_pods selectors sts (edsReplicas e0) ps nodes = Ok qs" "deletions tr = map deletion_of (take 1 qs)"
    using calls by (auto simp: round_calls_def split: if_splits)
  then show ?thesis
  proof cases
    case 1
    then show ?thesis by (simp add: due_pods_def)
  next
    case 2
    from chosen_due [OF 2(1)] have "set qs = due_pods selectors nodes (st_update_revision sts) ps"
      by (simp add: due_pods_def)
    with 2(2) show ?thesis by (cases qs) auto
  qed
qed

lemma round_progress:
  assumes "good_env env" "documented_backoff bo" "update_round bo selectors env e w sts ps nodes tr"
    and "replaced selectors nodes (st_update_revision sts) ps tr ps'"
  shows "card (due_pods selectors nodes (st_update_revision sts) ps') + length (deletions tr) \<le>
    card (due_pods selectors nodes (st_update_revision sts) ps)"
proof -
  let ?due = "due_pods selectors nodes (st_update_revision sts)"
  have fin: "finite (?due ps)" by (simp add: due_pods_def)
  have sub: "?due ps' \<subseteq> {p \<in> ?due ps. deletion_of p \<notin> set (deletions tr)}"
    using assms(4) by (auto simp: replaced_def due_pods_def)
  from round_deletes [OF assms(1-3)] show ?thesis
  proof (elim disjE bexE conjE)
    fix p assume p: "p \<in> ?due ps" "deletions tr = [deletion_of p]"
    with sub have "?due ps' \<subseteq> ?due ps - {p}" by auto
    then have "card (?due ps') \<le> card (?due ps - {p})" by (rule card_mono [rotated]) (simp add: fin)
    moreover have "card (?due ps) = Suc (card (?due ps - {p}))" by (rule card.remove [OF fin p(1)])
    ultimately show ?thesis by (simp add: p(2))
  next
    assume "?due ps = {}" "deletions tr = []"
    with sub show ?thesis by simp
  qed
qed

text \<open>
  C9. A rolling update ends: as long as the rounds succeed and Kubernetes replaces the deleted pods by pods
  that need no update, the number of due pods falls by one in every round until there is none; each
  round deletes at most one pod and only a due one, and all rounds together delete no more pods than
  were due at the beginning.
\<close>

theorem rolling_update_finishes:
  assumes "good_env env" "documented_backoff bo"
    and "\<forall>i < n. update_round bo selectors env e (w i) (sts i) (ps i) nodes (tr i)"
    and "\<forall>i < n. st_update_revision (sts i) = revision"
    and "\<forall>i < n. replaced selectors nodes revision (ps i) (tr i) (ps (Suc i))"
  shows "card (due_pods selectors nodes revision (ps n)) \<le> card (due_pods selectors nodes revision (ps 0)) - n \<and>
    (card (due_pods selectors nodes revision (ps 0)) \<le> n \<longrightarrow> due_pods selectors nodes revision (ps n) = {}) \<and>
    (\<forall>i < n. length (deletions (tr i)) \<le> 1 \<and> set (deletions (tr i)) \<subseteq> deletion_of ` due_pods selectors nodes revision (ps i)) \<and>
    (\<Sum>i < n. length (deletions (tr i))) \<le> card (due_pods selectors nodes revision (ps 0))"
proof -
  let ?due = "\<lambda>i. due_pods selectors nodes revision (ps i)"
  have progress: "card (?due (Suc i)) + length (deletions (tr i)) \<le> card (?due i)"
    and one: "(?due i = {} \<and> deletions (tr i) = []) \<or> (\<exists>p \<in> ?due i. deletions (tr i) = [deletion_of p])" if "i < n" for i
    using round_progress [OF assms(1,2)] round_deletes [OF assms(1,2)] assms(3-5) that by metis+
  have total: "card (?due k) + (\<Sum>i < k. length (deletions (tr i))) \<le> card (?due 0)" if "k \<le> n" for k
    using that
  proof (induction k)
    case (Suc k)
    then show ?case using progress [of k] by simp
  qed simp
  have fall: "card (?due k) \<le> card (?due 0) - k" if "k \<le> n" for k
    using that
  proof (induction k)
    case (Suc k)
    then show ?case using progress [of k] one [of k] by auto
  qed simp
  have "finite (?due n)" by (simp add: due_pods_def)
  then show ?thesis using total [of n] fall [of n] one by (intro conjI allI impI) (fastforce+)
qed

text \<open>
  Without a node that carries the preferred labels there is no such end: every scheduled pod is due, also
  the one just created, and every successful round deletes one.
\<close>

theorem no_preferred_node:
  assumes "good_env env" "documented_backoff bo" "update_round bo selectors env e w sts ps nodes tr"
    and "fst (getNodes selectors nodes) = []" "p \<in> set ps" "scheduled p"
  shows "\<exists>q \<in> set ps. scheduled q \<and> deletions tr = [deletion_of q]"
proof -
  have "p \<in> due_pods selectors nodes (st_update_revision sts) ps"
    using assms(4-6) by (simp add: due_pods_def due_def)
  with round_deletes [OF assms(1-3)] show ?thesis by (auto simp: due_pods_def due_def)
qed

end
