(* ===== verification/SettingsRound.thy ===== *)
theory SettingsRound
  imports SettingsServer RollingUpdate
begin

text \<open>
  The operator, its Elasticsearch client and the server together: at the moment a pod is deleted
  its node is excluded in the settings Elasticsearch holds, and the end of a successful round has
  brought the settings back to normal.
\<close>

section \<open>The contract again, with the run of the drain as the evidence\<close>

definition drain_ran :: "eds_env \<Rightarrow> eds \<Rightarrow> pod \<Rightarrow> trace \<Rightarrow> bool" where
  "drain_ran env e p tr \<longleftrightarrow> (\<exists>w tr0. DrainPod env e p w tr0 = (Ok (), tr))"

interpretation ran: stateful_resources "eds_resource env" "\<lambda>_. good_env env" fetched_set "drain_ran env"
  for env
proof (unfold_locales)
  fix e p w tr and u :: unit and tr'
  assume "sr_drain (eds_resource env e) p w tr = (Ok u, tr')"
  then show "drain_ran env e p tr'" by (auto simp: drain_ran_def eds_resource_def)
qed (simp_all add: sets.ensure_emits sets.status_emits sets.pre_emits sets.stable_hook_emits sets.drain_emits
    fetched_set_mono)

lemma get_resource_ran: "good_env env \<Longrightarrow> ran.yields env (GetResource env e)"
  using get_resource_yields unfolding sets.yields_def ran.yields_def .

lemma drain_prefix:
  assumes "good_env env" "DrainPod env e p w tr0 = (Ok u, tr)"
  shows "\<exists>es. tr = tr0 @ es"
  using emits_run [OF drain_emits [OF assms(1)] assms(2)] by blast


section \<open>The end of a round\<close>

lemma stable_hook_run:
  assumes "sr_on_stable (eds_resource env e1) w t = (Ok u, tr)"
  shows "\<exists>t'. Cleanup w t' = (Ok (), tr)"
  using assms by (auto simp: eds_resource_def OnStableReplicasHook_def bind_ok)

lemma update_pod_ends:
  assumes "update_pod bo sts (eds_resource env e1) p w t = (Ok u, tr)"
  shows "\<exists>t'. Cleanup w t' = (Ok (), tr)"
  using assms stable_hook_run by (auto simp: update_pod_def bind_ok)

lemma after_choice_ends:
  assumes "after_choice bo sts get (eds_resource env e1) next w t = (Ok u, tr)"
  shows "\<exists>t'. Cleanup w t' = (Ok (), tr)"
  using assms stable_hook_run update_pod_ends
  by (auto simp: after_choice_def Let_def bind_ok split: option.splits if_splits)

lemma operate_pods_ends:
  assumes "operatePods bo selectors sts (GetResource env e) w tr0 = (Ok u, tr)"
  shows "\<exists>t'. Cleanup w t' = (Ok (), tr)"
proof -
  obtain e1 t1 where get: "GetResource env e w tr0 = (Ok (eds_resource env e1), t1)"
    using assms by (auto simp: operate_pods_parts GetResource_def io_ok)
  from assms [unfolded operate_pods_parts bind_ok wrap_ok get] show ?thesis
    using stable_hook_run after_choice_ends by (auto simp: bind_ok split: if_splits)
qed

text \<open>
  C18. A round that succeeds has brought the settings back to normal, whatever earlier rounds, failed or
  not, have left behind: rebalancing is on, and no node is excluded that is not in the cluster.
\<close>

theorem round_restores_settings:
  assumes "operate bo selectors (GetResource env e) w [] = (Ok u, tr)" "server_run (=) s tr t"
  shows "\<exists>N. nodes_listed N tr \<and> pl_excluded (placement_of t) \<subseteq> N \<and> pl_rebalance (placement_of t) = ''all''"
proof -
  obtain sts t1 where "operatePods bo selectors sts (GetResource env e) w t1 = (Ok u, tr)"
    using assms(1) by (auto simp: operate_def bind_ok)
  then obtain t' where run: "Cleanup w t' = (Ok (), tr)" using operate_pods_ends by blast
  obtain es where es: "tr = t' @ es" using emits_run [OF cleanup_emits run] by blast
  obtain s' where "server_run (=) s' es t"
    using server_run_split [OF interference_none assms(2) [unfolded es]] by blast
  from cleanup_on_server [OF run [unfolded es] this] obtain N where
    "nodes_listed N es" "placement_of t = clean_up N (placement_of s')" by auto
  then show ?thesis by (intro exI [of _ N]) (auto simp: es nodes_listed_def clean_up_def)
qed

end
