(* ===== verification/SettingsLock.thy ===== *)
theory SettingsLock
  imports SettingsServer
begin

text \<open>
  The mutex of an ESClient (operator/es_client.go): \<open>excludePodIP\<close> holds it from the read of the settings
  to the answer of its write. Any number of goroutines that use one client, as steps that interleave
  freely; what they read and write are the definitions of EsSettings and EsClient.
\<close>

section \<open>Goroutines and the lock\<close>

datatype section_phase = Outside | Entered | HasRead es_settings | Left bool

record lock_state =
  lk_mux :: bool
  lk_stored :: es_settings
  lk_phase :: "nat \<Rightarrow> section_phase"

definition unlocked_state :: "es_settings \<Rightarrow> lock_state" where
  "unlocked_state s = \<lparr>lk_mux = False, lk_stored = s, lk_phase = (\<lambda>_. Outside)\<rparr>"

definition enter_section :: "nat \<Rightarrow> lock_state \<Rightarrow> lock_state" where
  "enter_section i l = l\<lparr>lk_mux := True, lk_phase := (lk_phase l)(i := Entered)\<rparr>"

definition leave_section :: "nat \<Rightarrow> bool \<Rightarrow> lock_state \<Rightarrow> lock_state" where
  "leave_section i ok l = l\<lparr>lk_mux := False, lk_phase := (lk_phase l)(i := Left ok)\<rparr>"

text \<open>What \<open>setExcludeIPs\<close> sends when the pod is added to the settings x.\<close>

definition settings_adding :: "pod \<Rightarrow> es_settings \<Rightarrow> es_settings" where
  "settings_adding pd x =
     updateExcludeIps (join_with CHR '','' (sort_slice (<) (exclude_list x @ [pod_ip pd]))) x"

text \<open>
  The goroutine i excludes the pod \<open>pods i\<close>. A request may fail; a write that fails may have been
  done all the same.
\<close>

inductive lock_step :: "(nat \<Rightarrow> pod) \<Rightarrow> lock_state \<Rightarrow> lock_state \<Rightarrow> bool" for pods where
  acquire: "lk_phase l i = Outside \<Longrightarrow> \<not> lk_mux l \<Longrightarrow> lock_step pods l (enter_section i l)"
| reads: "lk_phase l i = Entered \<Longrightarrow>
    lock_step pods l (l\<lparr>lk_phase := (lk_phase l)(i := HasRead (MergeNonEmptyTransientSettings (lk_stored l)))\<rparr>)"
| read_fails: "lk_phase l i = Entered \<Longrightarrow> lock_step pods l (leave_section i False l)"
| finds: "lk_phase l i = HasRead x \<Longrightarrow> pod_ip (pods i) \<in> set (exclude_list x) \<Longrightarrow>
    lock_step pods l (leave_section i True l)"
| adds_ip: "lk_phase l i = HasRead x \<Longrightarrow> pod_ip (pods i) \<notin> set (exclude_list x) \<Longrightarrow>
    lock_step pods l (leave_section i True (l\<lparr>lk_stored := settings_adding (pods i) x\<rparr>))"
| answer_lost: "lk_phase l i = HasRead x \<Longrightarrow> pod_ip (pods i) \<notin> set (exclude_list x) \<Longrightarrow>
    s = lk_stored l \<or> s = settings_adding (pods i) x \<Longrightarrow>
    lock_step pods l (leave_section i False (l\<lparr>lk_stored := s\<rparr>))"

inductive lock_runs :: "(nat \<Rightarrow> pod) \<Rightarrow> es_settings \<Rightarrow> lock_state \<Rightarrow> bool" for pods s where
  unlocked: "lock_runs pods s (unlocked_state s)"
| progress: "lock_runs pods s l \<Longrightarrow> lock_step pods l l' \<Longrightarrow> lock_runs pods s l'"

lemma section_simps [simp]:
  "lk_mux (enter_section i l) = True" "lk_stored (enter_section i l) = lk_stored l"
  "lk_phase (enter_section i l) = (lk_phase l)(i := Entered)"
  "lk_mux (leave_section i ok l) = False" "lk_stored (leave_section i ok l) = lk_stored l"
  "lk_phase (leave_section i ok l) = (lk_phase l)(i := Left ok)"
  "lk_mux (unlocked_state s) = False" "lk_stored (unlocked_state s) = s" "lk_phase (unlocked_state s) = (\<lambda>_. Outside)"
  by (simp_all add: enter_section_def leave_section_def unlocked_state_def)

section \<open>The invariant\<close>

definition inside :: "section_phase \<Rightarrow> bool" where
  "inside ph \<longleftrightarrow> ph = Entered \<or> (\<exists>x. ph = HasRead x)"

lemma inside_simps [simp]: "\<not> inside Outside" "inside Entered" "inside (HasRead x)" "\<not> inside (Left ok)"
  by (simp_all add: inside_def)

text \<open>
  At most one goroutine is inside, exactly when the mutex is locked; what it has read is what is stored;
  every pod excluded successfully is excluded, and so is what was excluded at the start and nothing else.
\<close>

definition lock_invariant :: "(nat \<Rightarrow> pod) \<Rightarrow> es_settings \<Rightarrow> lock_state \<Rightarrow> bool" where
  "lock_invariant pods s l \<longleftrightarrow>
     (\<forall>i j. inside (lk_phase l i) \<longrightarrow> inside (lk_phase l j) \<longrightarrow> i = j) \<and>
     (lk_mux l \<longleftrightarrow> (\<exists>i. inside (lk_phase l i))) \<and>
     (\<forall>i x. lk_phase l i = HasRead x \<longrightarrow> x = MergeNonEmptyTransientSettings (lk_stored l)) \<and>
     (\<forall>i. lk_phase l i = Left True \<longrightarrow> pod_ip (pods i) \<in> pl_excluded (placement_of (lk_stored l))) \<and>
     pl_excluded (placement_of s) \<subseteq> pl_excluded (placement_of (lk_stored l)) \<and>
     pl_excluded (placement_of (lk_stored l)) \<subseteq> pl_excluded (placement_of s) \<union> (pod_ip \<circ> pods) ` {i. lk_phase l i \<noteq> Outside} \<and>
     pl_rebalance (placement_of (lk_stored l)) = pl_rebalance (placement_of s)"

lemma adding_placement:
  "pod_named_ip pd \<Longrightarrow> placement_of (settings_adding pd (MergeNonEmptyTransientSettings s)) = exclude_node (pod_ip pd) (placement_of s)"
  unfolding settings_adding_def by (rule placement_exclude)

lemma lock_initially: "lock_invariant pods s (unlocked_state s)"
  by (simp add: lock_invariant_def)

text \<open>The goroutine inside leaves; what is stored is as before or has the IP of its pod added.\<close>

lemma leaving_keeps:
  assumes "lock_invariant pods s l" "inside (lk_phase l i)"
    and "placement_of t = placement_of (lk_stored l) \<or> placement_of t = exclude_node (pod_ip (pods i)) (placement_of (lk_stored l))"
    and "ok \<Longrightarrow> pod_ip (pods i) \<in> pl_excluded (placement_of t)"
  shows "lock_invariant pods s (leave_section i ok (l\<lparr>lk_stored := t\<rparr>))"
proof -
  let ?l = "leave_section i ok (l\<lparr>lk_stored := t\<rparr>)"
  have alone: "j = i" if "inside (lk_phase l j)" for j
    using assms(1,2) that unfolding lock_invariant_def by blast
  have phases: "lk_phase ?l = (lk_phase l)(i := Left ok)" "lk_stored ?l = t" "\<not> lk_mux ?l" by simp_all
  have none: "\<not> inside (lk_phase ?l j)" for j using alone by (auto simp: phases)
  moreover from none have "lk_phase ?l j \<noteq> HasRead x" for j x by (metis inside_simps(3))
  moreover have grows: "pl_excluded (placement_of (lk_stored l)) \<subseteq> pl_excluded (placement_of t)"
    "pl_excluded (placement_of t) \<subseteq> insert (pod_ip (pods i)) (pl_excluded (placement_of (lk_stored l)))"
    "pl_rebalance (placement_of t) = pl_rebalance (placement_of (lk_stored l))"
    using assms(3) by (auto simp: exclude_node_def)
  moreover have "{j. lk_phase ?l j \<noteq> Outside} = {j. lk_phase l j \<noteq> Outside} \<union> {i}" by (auto simp: phases)
  moreover have "pod_ip (pods j) \<in> pl_excluded (placement_of t)" if "lk_phase ?l j = Left True" for j
    using that assms(1,4) grows(1) unfolding lock_invariant_def phases by (cases "j = i") auto
  ultimately show ?thesis
    using assms(1) unfolding lock_invariant_def phases(2,3) by auto
qed

lemma lock_step_keeps:
  assumes "lock_invariant pods s l" "lock_step pods l l'" "\<And>i. pod_named_ip (pods i)"
  shows "lock_invariant pods s l'"
proof -
  have merged: "x = MergeNonEmptyTransientSettings (lk_stored l)" if "lk_phase l i = HasRead x" for i x
    using assms(1) that unfolding lock_invariant_def by blast
  have same: "l = l\<lparr>lk_stored := lk_stored l\<rparr>" by simp
  from assms(2) show ?thesis
  proof (cases rule: lock_step.cases)
    case (acquire i)
    then show ?thesis using assms(1) unfolding lock_invariant_def by (auto split: if_splits)
  next
    case (reads i)
    then have i: "inside (lk_phase l i)" by simp
    have alone: "inside (lk_phase l j) \<longleftrightarrow> j = i" for j
      using assms(1) i unfolding lock_invariant_def by blast
    then have "lk_mux l" "\<And>x. lk_phase l j = HasRead x \<Longrightarrow> j = i" for j
      using assms(1) i unfolding lock_invariant_def by (blast, metis inside_simps(3))
    moreover have "inside (((lk_phase l)(i := HasRead x)) j) \<longleftrightarrow> j = i" for j x using alone by simp
    moreover have "{j. ((lk_phase l)(i := HasRead x)) j \<noteq> Outside} = {j. lk_phase l j \<noteq> Outside}" for x
      using reads(2) by auto
    ultimately show ?thesis
      using assms(1) unfolding lock_invariant_def reads(1) by (auto split: if_splits)
  next
    case (read_fails i)
    show ?thesis unfolding read_fails(1) by (subst same) (rule leaving_keeps [OF assms(1)], simp_all add: read_fails(2))
  next
    case (finds i x)
    then have "pod_ip (pods i) \<in> pl_excluded (placement_of (lk_stored l))"
      using merged [OF finds(2)] assms(3) exclude_list_mem [of "pod_ip (pods i)" x] by (simp add: pod_named_ip_def)
    then show ?thesis
      unfolding finds(1) by (subst same) (rule leaving_keeps [OF assms(1)], simp_all add: finds(2))
  next
    case (adds_ip i x)
    then show ?thesis
      unfolding adds_ip(1) using merged [OF adds_ip(2)] adding_placement [OF assms(3)]
      by (intro leaving_keeps [OF assms(1)]) (simp_all add: exclude_node_def)
  next
    case (answer_lost i x t)
    then show ?thesis
      unfolding answer_lost(1) using merged [OF answer_lost(2)] adding_placement [OF assms(3)]
      by (intro leaving_keeps [OF assms(1)]) auto
  qed
qed

section \<open>What the lock guarantees\<close>


text \<open>The steps are those of \<open>excludePodIP\<close>: a call that nobody interrupts is a run of its section.\<close>

lemma section_states:
  "(enter_section i l)\<lparr>lk_stored := lk_stored l\<rparr> = enter_section i l"
  "leave_section i ok ((enter_section i l)\<lparr>lk_phase := (lk_phase l)(i := ph)\<rparr>) = leave_section i ok (enter_section i l)"
  "leave_section i ok ((enter_section i l)\<lparr>lk_phase := (lk_phase l)(i := ph), lk_stored := t\<rparr>) =
    leave_section i ok ((enter_section i l)\<lparr>lk_stored := t\<rparr>)"
  by (simp_all add: enter_section_def leave_section_def)

lemma exclude_outcomes:
  assumes "excludePodIP pd w tr = (result, tr @ es)" "server_run (=) s es t"
  shows "(result \<noteq> Ok () \<and> t = s) \<or>
    (let x = MergeNonEmptyTransientSettings s in
     if pod_ip pd \<in> set (exclude_list x) then result = Ok () \<and> t = s
     else if result = Ok () then t = settings_adding pd x else t = s \<or> t = settings_adding pd x)"
proof (cases "\<exists>x. w_get_settings w tr = Response 200 (Some x)")
  case False
  then have "result \<noteq> Ok ()" "es = [GetSettings (w_get_settings w tr)]"
    using assms(1)
    by (auto simp: excludePodIP_def getClusterSettings_def io_bind_def io_call_def decode_def io_fail_def Let_def
        split: http.splits option.splits if_splits)
  then show ?thesis using assms(2) server_run_snoc [of "(=)" s "[]"] by (auto simp: server_run_Nil serves_read)
next
  case True
  then obtain x where x: "w_get_settings w tr = Response 200 (Some x)" by blast
  let ?m = "MergeNonEmptyTransientSettings x" and ?tr = "tr @ [GetSettings (Response 200 (Some x))]"
  have run: "(if pod_ip pd \<in> set (exclude_list ?m) then io_return () else io_bind (put_settings (settings_adding pd ?m)) (\<lambda>_. io_return ())) w ?tr
      = (result, tr @ es)"
    using assms(1)
    unfolding excludePodIP_def bind_run [where m = getClusterSettings, OF settings_run [OF x]] setExcludeIPs_def
      settings_adding_def Let_def .
  show ?thesis
  proof (cases "pod_ip pd \<in> set (exclude_list ?m)")
    case True
    with run have "result = Ok ()" "es = [GetSettings (Response 200 (Some x))]" by (auto simp: io_return_def)
    moreover from this(2) assms(2) have "x = s" "t = s"
      using server_run_snoc [of "(=)" s "[]"] by (auto simp: server_run_Nil serves_read)
    ultimately show ?thesis using True by simp
  next
    case False
    let ?r = "w_put_settings w ?tr (settings_adding pd ?m)"
    have "es = [GetSettings (Response 200 (Some x)), PutSettings (settings_adding pd ?m) ?r] \<and>
        (result = Ok () \<longleftrightarrow> (\<exists>b. ?r = Response 200 b))"
      using run False
      by (auto simp: put_settings_def io_bind_def io_call_def expect_ok_def io_fail_def io_return_def Let_def
          split: http.splits if_splits)
    moreover from this assms(2) have "x = s" "t = settings_adding pd ?m \<or> t = s \<and> (\<forall>b. ?r \<noteq> Response 200 b)"
      using server_run_snoc [of "(=)" s "[GetSettings (Response 200 (Some x))]"] server_run_snoc [of "(=)" s "[]"]
      by (auto simp: server_run_Nil serves_read serves_write)
    ultimately show ?thesis using False by (auto simp: Let_def)
  qed
qed

lemma exclude_runs_section:
  assumes "excludePodIP (pods i) w tr = (result, tr @ es)" "server_run (=) (lk_stored l) es t"
    and "lk_phase l i = Outside" "\<not> lk_mux l"
  shows "(lock_step pods)\<^sup>*\<^sup>* l (leave_section i (result = Ok ()) ((enter_section i l)\<lparr>lk_stored := t\<rparr>))"
proof -
  let ?l1 = "enter_section i l" and ?x = "MergeNonEmptyTransientSettings (lk_stored l)"
  let ?l2 = "?l1\<lparr>lk_phase := (lk_phase ?l1)(i := HasRead ?x)\<rparr>"
  let ?fin = "leave_section i (result = Ok ()) (?l1\<lparr>lk_stored := t\<rparr>)"
  have l1: "lock_step pods l ?l1" by (rule acquire [OF assms(3,4)])
  have l2: "lock_step pods ?l1 ?l2" using reads [of ?l1 i pods] by simp
  from exclude_outcomes [OF assms(1,2)] consider
      "result \<noteq> Ok ()" "t = lk_stored l"
    | "pod_ip (pods i) \<in> set (exclude_list ?x)" "result = Ok ()" "t = lk_stored l"
    | "pod_ip (pods i) \<notin> set (exclude_list ?x)" "result = Ok ()" "t = settings_adding (pods i) ?x"
    | "pod_ip (pods i) \<notin> set (exclude_list ?x)" "result \<noteq> Ok ()" "t = lk_stored l \<or> t = settings_adding (pods i) ?x"
    by (auto simp: Let_def split: if_splits)
  then have "lock_step pods ?l1 ?fin \<or> lock_step pods ?l2 ?fin"
  proof cases
    case 1
    then show ?thesis using read_fails [of ?l1 i pods] by (simp add: section_states)
  next
    case 2
    then show ?thesis using finds [of ?l2 i ?x pods] by (simp add: section_states)
  next
    case 3
    then show ?thesis using adds_ip [of ?l2 i ?x pods] by (simp add: section_states)
  next
    case 4
    then show ?thesis using answer_lost [of ?l2 i ?x pods t] by (auto simp: section_states)
  qed
  with l1 l2 show ?thesis by (meson converse_rtranclp_into_rtranclp r_into_rtranclp)
qed

text \<open>A section in which the pod is added.\<close>

definition after_adding :: "(nat \<Rightarrow> pod) \<Rightarrow> nat \<Rightarrow> lock_state \<Rightarrow> lock_state" where
  "after_adding pods i l = leave_section i True
     ((enter_section i l)\<lparr>lk_stored := settings_adding (pods i) (MergeNonEmptyTransientSettings (lk_stored l))\<rparr>)"

lemma section_adds:
  assumes "lock_runs pods s l" "lk_phase l i = Outside" "\<not> lk_mux l" "pod_named_ip (pods i)"
    and "pod_ip (pods i) \<notin> pl_excluded (placement_of (lk_stored l))"
  shows "lock_runs pods s (after_adding pods i l)"
proof -
  let ?l1 = "enter_section i l" and ?x = "MergeNonEmptyTransientSettings (lk_stored l)"
  let ?l2 = "?l1\<lparr>lk_phase := (lk_phase ?l1)(i := HasRead ?x)\<rparr>"
  have "pod_ip (pods i) \<notin> set (exclude_list ?x)"
    using assms(4,5) exclude_list_mem [of "pod_ip (pods i)" ?x] by (simp add: pod_named_ip_def)
  then have "lock_step pods ?l2 (after_adding pods i l)"
    using adds_ip [of ?l2 i ?x pods] by (simp add: after_adding_def section_states)
  moreover have "lock_step pods ?l1 ?l2" using reads [of ?l1 i pods] by simp
  ultimately show ?thesis
    using lock_runs.progress [OF assms(1) acquire [OF assms(2,3)]] by (blast intro: lock_runs.progress)
qed

end
