(* ===== verification/SettingsExamples.thy ===== *)
theory SettingsExamples
  imports SettingsRound SettingsLock EdsExamples
begin

text \<open>
  Runs against a server that keeps its settings: instances of the refinement, and two drains of
  different data sets on one cluster of which one undoes what the other has done.
\<close>

section \<open>Following the settings through a trace\<close>

text \<open>
  A check that the answers of a trace are those of a server: what is read may follow from what was
  stored by the interference of others. The result are the settings at the end.
\<close>

fun settings_after :: "(es_settings \<Rightarrow> es_settings \<Rightarrow> bool) \<Rightarrow> es_settings \<Rightarrow> trace \<Rightarrow> es_settings option" where
  "settings_after R s [] = Some s"
| "settings_after R s (e # tr) =
     (case e of
        GetSettings r \<Rightarrow>
          (case r of Response st (Some x) \<Rightarrow> if R s x then settings_after R x tr else None
           | _ \<Rightarrow> settings_after R s tr)
      | PutSettings x r \<Rightarrow>
          (case r of Response st b \<Rightarrow> settings_after R (if st = 200 then x else s) tr | _ \<Rightarrow> settings_after R s tr)
      | _ \<Rightarrow> settings_after R s tr)"

lemma server_run_before:
  assumes "interference R" "R s s'"
  shows "server_run R s' tr u \<Longrightarrow> server_run R s tr u"
  by (induction rule: server_run.induct) (use assms interferenceD in \<open>blast intro: server_run.intros\<close>)+

lemma server_run_Cons:
  assumes "interference R" "serves s e t"
  shows "server_run R t tr u \<Longrightarrow> server_run R s (e # tr) u"
proof (induction rule: server_run.induct)
  case (no_call u)
  have "server_run R s [] s" by (rule server_run.no_call) (rule interferenceD(1) [OF assms(1)])
  from one_call [OF this assms(2) no_call.hyps] show ?case by simp
next
  case (one_call tr u e' t' t'')
  then show ?case using server_run.one_call [of R s "e # tr" u e' t' t''] by simp
qed

lemma settings_after_run: "interference R \<Longrightarrow> settings_after R s tr = Some t \<Longrightarrow> server_run R s tr t"
proof (induction tr arbitrary: s)
  case Nil
  then show ?case by (auto simp: server_run_Nil interferenceD)
next
  case (Cons e tr)
  show ?case
  proof (cases "is_settings_event e")
    case False
    then have "settings_after R s tr = Some t" using Cons.prems(2) by (cases e) auto
    then show ?thesis
      using Cons server_run_Cons [OF Cons.prems(1) other_call [OF False]] by blast
  next
    case True
    then obtain s1 s2 where "R s s1" "serves s1 e s2" "settings_after R s2 tr = Some t"
    proof (cases e)
      case (GetSettings r)
      show ?thesis
        using Cons.prems GetSettings that interferenceD(1)
        by (cases r) (auto simp: serves_read split: option.splits if_splits)
    next
      case (PutSettings x r)
      show ?thesis
        using Cons.prems PutSettings that interferenceD(1)
        by (cases r) (auto simp: serves_write split: if_splits)
    qed auto
    with Cons show ?thesis by (blast intro: server_run_before server_run_Cons)
  qed
qed

section \<open>A drain that works\<close>

text \<open>A world in which a drain reads s1, then s2, and finds no shard left on the pod.\<close>

definition scripted :: "es_settings \<Rightarrow> es_settings \<Rightarrow> world" where
  "scripted s1 s2 =
     silent_world\<lparr>w_get_settings := \<lambda>tr. Response 200 (Some (if length tr = 1 then s1 else s2))\<rparr>"

definition pinned_by_drain :: "es_settings \<Rightarrow> es_settings" where
  "pinned_by_drain s = updateRebalance ''none'' (MergeNonEmptyTransientSettings s)"

definition excluded_by_drain :: "pod \<Rightarrow> es_settings \<Rightarrow> es_settings" where
  "excluded_by_drain pd s = updateExcludeIps (join_with CHR '','' (sort_slice (<)
     (exclude_list (MergeNonEmptyTransientSettings s) @ [pod_ip pd]))) (MergeNonEmptyTransientSettings s)"

definition scripted_events :: "pod \<Rightarrow> es_settings \<Rightarrow> es_settings \<Rightarrow> trace" where
  "scripted_events pd s1 s2 =
     [Health (Response 200 (Some ''green'')), GetSettings (Response 200 (Some s1)),
      PutSettings (pinned_by_drain s1) (Response 200 None), GetSettings (Response 200 (Some s2)),
      PutSettings (excluded_by_drain pd s2) (Response 200 None), CatShards (Response 200 (Some [])), ContextDone False]"

lemma placements_by_drain:
  "placement_of (pinned_by_drain s) = (placement_of s)\<lparr>pl_rebalance := ''none''\<rparr>"
  "pod_named_ip pd \<Longrightarrow> placement_of (excluded_by_drain pd s) = exclude_node (pod_ip pd) (placement_of s)"
  by (simp_all add: pinned_by_drain_def placement_rebalance excluded_by_drain_def placement_exclude)

lemma scripted_wait:
  assumes "w_shards w = (\<lambda>_. Response 200 (Some []))" "w_context_done w = (\<lambda>_. False)"
  shows "documented_retry n (io_call w_shards CatShards) (retry_condition pd) w tr =
    (Ok (Response 200 (Some [])), tr @ [CatShards (Response 200 (Some [])), ContextDone False])"
  using assms
  by (cases n) (simp_all add: io_bind_def io_call_def retry_condition_def remaining_shards_def io_return_def Let_def)

lemma scripted_simps [simp]:
  "w_health (scripted s1 s2) tr = Response 200 (Some ''green'')"
  "w_get_settings (scripted s1 s2) tr = Response 200 (Some (if length tr = 1 then s1 else s2))"
  "w_put_settings (scripted s1 s2) tr s = Response 200 None"
  "w_shards (scripted s1 s2) = (\<lambda>_. Response 200 (Some []))" "w_context_done (scripted s1 s2) = (\<lambda>_. False)"
  by (simp_all add: scripted_def silent_world_def)

lemma scripted_drain:
  assumes "documented retry" "0 \<le> sint (dc_max_retries cfg)" "pod_named_ip pd"
    and "pod_ip pd \<notin> pl_excluded (placement_of s2)"
  shows "Drain retry cfg pd (scripted s1 s2) [] = (Ok (), scripted_events pd s1 s2)"
proof -
  have new: "pod_ip pd \<notin> set (exclude_list (MergeNonEmptyTransientSettings s2))"
    using assms(3,4) exclude_list_mem [of "pod_ip pd" "MergeNonEmptyTransientSettings s2"]
    by (simp add: pod_named_ip_def)
  have wait: "waitForEmptyEsNode retry cfg pd (scripted s1 s2) tr =
      (Ok (), tr @ [CatShards (Response 200 (Some [])), ContextDone False])" for tr
    using assms(1,2) scripted_wait [of "scripted s1 s2"]
    by (simp add: waitForEmptyEsNode_def documented_def io_bind_def io_return_def)
  show ?thesis
    using new
    by (simp add: Drain_def ensureGreenClusterState_def getClusterSettings_def updateAutoRebalance_def excludePodIP_def
        setExcludeIPs_def put_settings_def wait io_bind_def io_call_def decode_def expect_ok_def io_return_def Let_def
        scripted_events_def pinned_by_drain_def excluded_by_drain_def)
qed

lemma scripted_served:
  "settings_after (=) s (scripted_events pd s (pinned_by_drain s)) = Some (excluded_by_drain pd (pinned_by_drain s))"
  by (simp add: scripted_events_def)

lemma resting_placement: "placement_of no_settings = \<lparr>pl_excluded = {}, pl_rebalance = ''''\<rparr>"
  by (simp add: placement_of_def no_settings_def settings_with_def GetTransientExcludeIPs_def GetPersistentExcludeIPs_def
      GetTransientRebalance_def GetPersistentRebalance_def exclude_ip_def rebalance_enable_def ValueOrZero_def StringFromPtr_def
      NewString_def excluded_ips_def)

theorem drain_refines_witness:
  "\<exists>es t. Drain reference_retry two_attempts example_pod (scripted no_settings (pinned_by_drain no_settings)) [] = (Ok (), es) \<and>
    server_run (=) no_settings es t \<and> placement_of t = \<lparr>pl_excluded = {''10.0.0.1''}, pl_rebalance = ''none''\<rparr>"
proof -
  let ?es = "scripted_events example_pod no_settings (pinned_by_drain no_settings)"
  let ?t = "excluded_by_drain example_pod (pinned_by_drain no_settings)"
  have retries: "0 \<le> sint (dc_max_retries two_attempts)" by (simp add: two_attempts_def)
  have drain: "Drain reference_retry two_attempts example_pod (scripted no_settings (pinned_by_drain no_settings)) [] = (Ok (), [] @ ?es)"
    using scripted_drain [OF reference_retry_documented retries example_pod_named]
    by (simp add: placements_by_drain resting_placement)
  have run: "server_run (=) no_settings ?es ?t"
    by (rule settings_after_run [OF interference_none scripted_served])
  from drain_refines [OF reference_retry_documented retries example_pod_named drain run] drain run
  show ?thesis by (auto simp: resting_placement empty_node_def example_pod_def)
qed

section \<open>Two drains on one cluster\<close>

lemma shuffled_blocks: "a @ c @ b @ d \<in> shuffles (a @ b) (c @ d)"
proof (induction a)
  case Nil
  have "b @ d \<in> shuffles b d" by (induction b) (auto intro: Cons_in_shuffles_leftI)
  then show ?case by (induction c) (auto intro: Cons_in_shuffles_rightI)
qed (auto intro: Cons_in_shuffles_leftI)

text \<open>
  C20. The lock of an ESClient orders the exclusions made through it, but every data set has a client of its
  own. Drains of two data sets on one cluster can interleave so that both report success and the
  settings exclude only the second pod: it was added to a list read before the first was.
\<close>

theorem concurrent_drains_lose_exclusion:
  assumes "documented retry" "0 \<le> sint (dc_max_retries cfg)" "0 \<le> sint (dc_max_retries cfg')"
    and "pod_named_ip pd" "pod_named_ip pd'" "pod_ip pd \<noteq> pod_ip pd'"
    and "pod_ip pd \<notin> pl_excluded (placement_of s)" "pod_ip pd' \<notin> pl_excluded (placement_of s)"
  shows "\<exists>w w' tr tr' together t.
    Drain retry cfg pd w [] = (Ok (), tr) \<and> Drain retry cfg' pd' w' [] = (Ok (), tr') \<and>
    together \<in> shuffles tr tr' \<and> server_run (=) s together t \<and>
    placement_of t = empty_node (pod_ip pd') (placement_of s) \<and> pod_ip pd \<notin> pl_excluded (placement_of t)"
proof -
  let ?a = "pinned_by_drain s"
  let ?b = "pinned_by_drain ?a"
  let ?tr = "scripted_events pd s ?b" and ?tr' = "scripted_events pd' ?a ?b"
  let ?g = "take 3 ?tr @ take 4 ?tr' @ drop 3 ?tr @ drop 4 ?tr'"
  have run: "Drain retry cfg pd (scripted s ?b) [] = (Ok (), ?tr)" "Drain retry cfg' pd' (scripted ?a ?b) [] = (Ok (), ?tr')"
    using assms by (auto intro!: scripted_drain simp: placements_by_drain)
  have "server_run (=) s ?g (excluded_by_drain pd' ?b)"
    by (rule settings_after_run [OF interference_none]) (simp add: scripted_events_def)
  moreover have "?g \<in> shuffles ?tr ?tr'"
    using shuffled_blocks [of "take 3 ?tr" "take 4 ?tr'" "drop 3 ?tr" "drop 4 ?tr'"] by (simp only: append_take_drop_id)
  moreover have final: "placement_of (excluded_by_drain pd' ?b) = empty_node (pod_ip pd') (placement_of s)"
    using assms(5) by (simp add: placements_by_drain exclude_node_def empty_node_def)
  moreover have "pod_ip pd \<notin> pl_excluded (placement_of (excluded_by_drain pd' ?b))"
    unfolding final using assms(6,7) by (simp add: empty_node_def)
  ultimately show ?thesis using run by blast
qed

definition second_pod :: pod where
  "second_pod = example_pod\<lparr>pod_name := ''other-0'', pod_generate_name := ''other-'', pod_ip := ''10.0.0.2''\<rparr>"

theorem concurrent_drains_lose_exclusion_witness:
  "\<exists>w w' tr tr' together t.
    Drain reference_retry two_attempts example_pod w [] = (Ok (), tr) \<and>
    Drain reference_retry two_attempts second_pod w' [] = (Ok (), tr') \<and>
    together \<in> shuffles tr tr' \<and> server_run (=) no_settings together t \<and>
    placement_of t = \<lparr>pl_excluded = {''10.0.0.2''}, pl_rebalance = ''none''\<rparr>"
proof -
  have retries: "0 \<le> sint (dc_max_retries two_attempts)" by (simp add: two_attempts_def)
  have "pod_named_ip second_pod" by code_simp
  moreover have "pod_ip example_pod \<noteq> pod_ip second_pod" by (simp add: second_pod_def example_pod_def)
  moreover have "empty_node (pod_ip second_pod) (placement_of no_settings) = \<lparr>pl_excluded = {''10.0.0.2''}, pl_rebalance = ''none''\<rparr>"
    by (simp add: resting_placement empty_node_def second_pod_def)
  ultimately show ?thesis
    using concurrent_drains_lose_exclusion [OF reference_retry_documented retries retries example_pod_named, of second_pod no_settings]
    unfolding resting_placement by (auto; blast)
qed

section \<open>A cleanup, and a round\<close>

definition crowded_settings :: es_settings where
  "crowded_settings = no_settings\<lparr>se_persistent := settings_with (StringFrom ''10.0.0.1,10.0.0.9'') (StringFrom ''none'')\<rparr>"

definition crowded_world :: world where
  "crowded_world = silent_world\<lparr>w_get_settings := \<lambda>_. Response 200 (Some crowded_settings),
     w_nodes := \<lambda>_. Response 200 (Some [\<lparr>rn_ip = ''10.0.0.1'', rn_disk_used_percent = ''10''\<rparr>])\<rparr>"

lemma crowded_cleanup:
  "case Cleanup crowded_world [] of (r, tr) \<Rightarrow> r = Ok () \<and> settings_after (=) crowded_settings tr \<noteq> None"
  by code_simp

lemma crowded_placement: "placement_of crowded_settings = \<lparr>pl_excluded = {''10.0.0.1'', ''10.0.0.9''}, pl_rebalance = ''none''\<rparr>"
  by code_simp

theorem cleanup_refines_witness:
  "\<exists>es t N. Cleanup crowded_world [] = (Ok (), es) \<and> server_run (=) crowded_settings es t \<and> nodes_listed N es \<and>
    placement_of t = clean_up N \<lparr>pl_excluded = {''10.0.0.1'', ''10.0.0.9''}, pl_rebalance = ''none''\<rparr>"
proof -
  obtain es t where es: "Cleanup crowded_world [] = (Ok (), [] @ es)" and t: "settings_after (=) crowded_settings es = Some t"
    using crowded_cleanup by (cases "Cleanup crowded_world []") auto
  have run: "server_run (=) crowded_settings es t" by (rule settings_after_run [OF interference_none t])
  from cleanup_refines [OF es run] es run show ?thesis by (auto simp: crowded_placement)
qed

definition until_deletion :: trace where
  "until_deletion = takeWhile (\<lambda>e. \<not> is_delete e) (snd update_run)"

lemma until_deletion_served: "settings_after bring_none_back no_settings until_deletion \<noteq> None"
  unfolding until_deletion_def update_run_def example_env_def reference_retry_def by code_simp


definition quiet_run :: "(error, unit) outcome \<times> trace" where
  "quiet_run = operate ask_once None (GetResource example_env (example_eds None None))
     (update_world\<lparr>w_list_pods := \<lambda>_ _ _. Inr [], w_get_settings := w_get_settings crowded_world,
        w_nodes := w_nodes crowded_world\<rparr>) []"

lemma quiet_result: "case quiet_run of (r, tr) \<Rightarrow> r = Ok () \<and> settings_after (=) crowded_settings tr \<noteq> None"
  unfolding quiet_run_def example_env_def reference_retry_def by code_simp

theorem round_restores_settings_witness:
  "\<exists>tr t N. quiet_run = (Ok (), tr) \<and> server_run (=) crowded_settings tr t \<and> nodes_listed N tr \<and>
    pl_excluded (placement_of t) \<subseteq> N \<and> pl_rebalance (placement_of t) = ''all''"
proof -
  obtain tr t where tr: "quiet_run = (Ok (), tr)" and t: "settings_after (=) crowded_settings tr = Some t"
    using quiet_result by (cases quiet_run) auto
  have run: "server_run (=) crowded_settings tr t" by (rule settings_after_run [OF interference_none t])
  from round_restores_settings [OF tr [unfolded quiet_run_def] run] tr run show ?thesis by blast
qed

section \<open>Two goroutines of one client\<close>

definition two_pods :: "nat \<Rightarrow> pod" where
  "two_pods i = (if i = 0 then example_pod else second_pod)"

lemma two_pods_named: "pod_named_ip (two_pods i)"
  by (simp add: two_pods_def example_pod_named) code_simp


end
