(* ===== verification/RollingExamples.thy ===== *)
theory RollingExamples
  imports RollingUpdate EdsExamples
begin

text \<open>One pod of an old revision is updated: an instance of the end of a rolling update.\<close>

definition ready_node :: node where
  "ready_node = \<lparr>nd_name = ''n0'', nd_labels = Some [(''a'', ''b'')], nd_unschedulable = False\<rparr>"

definition rolling_run :: "(error, unit) outcome \<times> trace" where
  "rolling_run = operatePods ask_once None (example_sts 1) (GetResource example_env (example_eds None None))
     (update_world\<lparr>w_list_nodes := \<lambda>_. Inr [ready_node]\<rparr>) []"

fun lists_at_start :: "pod list \<Rightarrow> node list \<Rightarrow> trace \<Rightarrow> bool" where
  "lists_at_start ps nodes (g # ListPods ns sel (Inr ps') # ListNodes (Inr nodes') # es) = (ps' = ps \<and> nodes' = nodes)"
| "lists_at_start ps nodes tr = False"

fun asks_at_most :: "int32 \<Rightarrow> event \<Rightarrow> bool" where
  "asks_at_most m (GetEds ns n (Inr e)) = (case edsReplicas e of None \<Rightarrow> True | Some d \<Rightarrow> sint d \<le> sint m)"
| "asks_at_most m _ = True"

lemma lists_sees: "lists_at_start ps nodes tr \<Longrightarrow> sees tr ps nodes"
  by (cases "(ps, nodes, tr)" rule: lists_at_start.cases) (auto simp: sees_def)

lemma rolling_result:
  "case rolling_run of (r, tr) \<Rightarrow> r = Ok () \<and> lists_at_start [old_pod] [ready_node] tr \<and> list_all (asks_at_most 1) tr"
  unfolding rolling_run_def example_env_def reference_retry_def by code_simp

definition updated_pod :: pod where
  "updated_pod = old_pod\<lparr>pod_uid := ''new'', pod_labels := Some [(''controller-revision-hash'', ''r2'')]\<rparr>"

lemma due_example:
  "due_pods None [ready_node] ''r2'' [old_pod] = {old_pod}" "due_pods None [ready_node] ''r2'' [updated_pod] = {}"
proof -
  have "due None [ready_node] ''r2'' old_pod" "\<not> due None [ready_node] ''r2'' updated_pod" by code_simp+
  then show "due_pods None [ready_node] ''r2'' [old_pod] = {old_pod}" "due_pods None [ready_node] ''r2'' [updated_pod] = {}"
    by (auto simp: due_pods_def)
qed

theorem rolling_update_finishes_witness:
  "\<exists>tr. rolling_run = (Ok (), tr) \<and> length (deletions tr) \<le> 1 \<and> set (deletions tr) \<subseteq> {deletion_of old_pod} \<and>
    due_pods None [ready_node] ''r2'' [old_pod] = {old_pod} \<and> due_pods None [ready_node] ''r2'' [updated_pod] = {}"
proof -
  obtain tr where tr: "rolling_run = (Ok (), tr)" "lists_at_start [old_pod] [ready_node] tr" "list_all (asks_at_most 1) tr"
    using rolling_result by (cases rolling_run) auto
  have "sint d \<le> sint (1 :: int32)" if "GetEds ns n (Inr e0) \<in> set tr" "edsReplicas e0 = Some d" for ns n e0 d
    using tr(3) that by (fastforce simp: list_all_iff)
  then have round: "update_round ask_once None example_env (example_eds None None)
      (update_world\<lparr>w_list_nodes := \<lambda>_. Inr [ready_node]\<rparr>) (example_sts 1) [old_pod] [ready_node] tr"
    using tr lists_sees by (auto simp: update_round_def rolling_run_def sts_replicas_def example_sts_def)
  have "st_update_revision (example_sts 1) = ''r2''" by (simp add: example_sts_def plain_sts_def)
  moreover have "replaced None [ready_node] ''r2'' [old_pod] tr [updated_pod]"
    by (simp add: replaced_def due_example)
  ultimately show ?thesis
    using rolling_update_finishes [OF example_env_good ask_once_documented, of 1 None "example_eds None None"
        "\<lambda>_. update_world\<lparr>w_list_nodes := \<lambda>_. Inr [ready_node]\<rparr>" "\<lambda>_. example_sts 1"
        "\<lambda>i. if i = 0 then [old_pod] else [updated_pod]" "[ready_node]" "\<lambda>_. tr" "''r2''"] round tr(1)
    by (auto simp: due_example)
qed

end
