(* ===== verification/Spec2Isabelle.thy ===== *)
theory Spec2Isabelle
  imports PodExamples ControllerExamples MetricsExamples WatchExamples ConvergenceExamples LabelSelector CrdTrimProps
    ProcessExamples Startup CopyExamples InformerFactory SettingsExamples RollingExamples
begin

text \<open>
  es-operator is a Kubernetes operator, written in Go, that runs Elasticsearch clusters: for every
  ElasticsearchDataSet it keeps a StatefulSet, updates and removes its pods only after their data
  has been moved away, and scales the number of nodes and of index replicas with the load. This
  development models the code under src/operator, the resource types under src/pkg/apis and the
  label flag of src/label_selector.go, the start of the program in src/main.go with the clients of
  src/pkg it makes, and the build tool src/hack/crd/trim.go, and proves what makes them correct.

  \<^bold>\<open>The program and how its parts interact.\<close> The informer of data sets calls \<open>operateEDS\<close>
  (elasticsearch.go), which keeps one goroutine per data set in the table \<open>operating\<close>. Each goroutine
  runs \<open>Operator.Run\<close> (operator.go): at an interval it fetches the data set, ensures a disruption budget
  and a service, reconciles the StatefulSet, updates the status and operates on the pods, that is,
  rescales the StatefulSet or drains and deletes one outdated pod. Draining, clean-up and index
  settings are requests to Elasticsearch (es_client.go). Two more goroutines work on all data sets: the
  metrics collector (metrics_collector.go) stores samples of the CPU usage in a metric set, and the
  autoscaler (autoscaler.go and \<open>scaleEDS\<close> of elasticsearch.go) reads them, calculates a scaling
  operation and stores it in an annotation of the data set, where the goroutine of the data set finds
  and applies it.

  \<^bold>\<open>How effects are modelled.\<close> Io holds a handler as a function of a world and the trace of the calls
  made so far; it returns an outcome (a value, an error or a panic) and the longer trace. The world
  answers every call as it likes, depending on the trace, so a theorem about all worlds covers every
  behaviour of Kubernetes, of Elasticsearch and of other clients. An event of the trace is a call with
  its arguments and its answer. The trace logic at the end of Io (\<open>valid\<close>, \<open>emits\<close>, \<open>returns\<close>) is what
  the safety proofs use. Log lines and recorded Kubernetes events are left out.

  \<^bold>\<open>Theories, from the bottom up.\<close>
  \<^item> Prelude, GoStrings, GoSort, GoFloat, GoParseFloat: what the code uses of Go and its standard
    library. Machine integers are words, with comparisons on signed values; float64 is computed
    exactly with rounding to 53 bits, and conversions of floats that do not fit are a parameter.
    \<open>sort.Slice\<close> has a contract (locale \<open>slice_sort\<close>) that the insertion sort of the model is
    proved to keep; it is extended for linear orders.
  \<^item> NodeMath, EsTypes, Autoscaler: autoscaler.go. ScalingLemmas, ScalingBranches, ScalingProps,
    OrderProps, NodeProps and HintProps show that a calculated operation keeps all bounds, does not
    depend on the order of map iteration except in one described case, what the node counts are in
    exact arithmetic, and what the scaling hint means.
  \<^item> EdsTypes: types.go and the Kubernetes objects, as records. A Go pointer is an option and a Go
    map an optional association list, with the nil map None, on which an assignment panics.
  \<^item> NullString: null/string.go with its round trips.
  \<^item> EsSettings, EsClient: es_client.go. EsClientProps and EsClientMore show what a successful drain,
    clean-up, index listing and index update have sent and seen.
  \<^item> Pods, Operator: operator.go. The data set is seen through the record \<open>stateful_resource\<close>, the Go
    interface StatefulResource. Its contract is the locale \<open>stateful_resources\<close> of OperatorProps, in
    which the guarantees of the operator are proved (OperatorProps, ReconcileProps, Convergence).
    PodProps shows which pods are drained and updated first.
  \<^item> OperationJson, EdsResource: the methods of EDSResource in elasticsearch.go and the annotation with
    the scaling operation. EdsResourceProps interprets \<open>stateful_resources\<close> for them and draws the
    conclusions: pods are deleted only after a drain, the StatefulSet changes in allowed steps.
  \<^item> SettingsServer: the cluster settings that Elasticsearch keeps, as an abstract state on which drain and
    clean-up act. A run of the client against a server of these settings refines the abstract
    operation, with any changes that other clients make in between (\<open>interference\<close>).
    SettingsLock: the mutex of an ESClient as a step relation of any number of drains, with the
    invariant that under it no exclusion is lost. SettingsRound: \<open>stateful_resources\<close> interpreted a second
    time, with the settings as the evidence; a deleted pod is excluded, and a complete round gives
    the rebalancing and the exclusions back. RollingUpdate: the choices of pods over the rounds of an
    update, which end because each replacement makes one due pod fewer.
  \<^item> Convergence: repeated rescalings reach the desired replicas, a second reconciliation only reads.
  \<^item> Controller: ownership, \<open>collectResources\<close>, \<open>validateScalingSettings\<close>, \<open>scaleEDS\<close> and one round of
    the autoscaler. ControllerProps and CollectProps show what validation guarantees, that the stored
    operation is the applied one, and that the collected resources are a join.
  \<^item> Metrics, MetricsProps: metrics_collector.go.
  \<^item> Watch, WatchProps: \<open>operateEDS\<close> and \<open>Operator.Run\<close> as a state machine of one event handler and any
    number of goroutines; invariants by induction over the steps.
  \<^item> Shift, RoundProps: a run that follows other calls is a run of its own in a shifted world; so what is
    proved of one data set holds for every data set of a round of the autoscaler or the collector. The
    loop that both share is the locale \<open>guarded_loop\<close>, interpreted for both.
  \<^item> Ticker, Process: the whole process as a step relation: start-up (\<open>setupInformers\<close>, \<open>Run\<close>,
    \<open>runWatch\<close>), the timers of the endless loops, the goroutines of Watch, SIGTERM. A round starts in one
    step and ends in another. ProcessProps shows that rounds keep their distance, that rounds of a data
    set never overlap, that all calls are for owned data sets, and that the process deletes only
    drained pods.
  \<^item> Clients, Startup: how the clients are made from a configuration, and main.go, from the flags to
    the operator.
  \<^item> Store, DeepCopy: the custom resources with pointers, slices and maps as addresses of a heap, and the
    generated copies (zz_generated.deepcopy.go). CopyProps states what a deep copy promises as the locale
    \<open>deep_copier\<close> and shows that pointers, pairs, slices and structs keep it; CopyTypes does so for every
    type. CopyUse shows that the template of a data set can be labelled in place, so that the values of
    the other theories say what happens in memory.
  \<^item> InformerFactory: the factory of shared informers in pkg/client, with an invariant by rule induction.
  \<^item> LabelSelector: label_selector.go. CrdTrim: hack/crd/trim.go, the build tool that shortens the resource
    definition; CrdTrimProps shows that the result fits and what has been removed.
  \<^item> The theories ending in Examples instantiate the theorems on concrete worlds; ScaleDownFindings and
    parts of the others are runs in which the code does not do what it means to. SettingsExamples has
    one: two drains by different clients, interleaved, lose an exclusion.

  \<^bold>\<open>Parameters.\<close> What is not under src/ is an argument of the definitions that use it: the retry loop of
  the HTTP library (\<open>retrier\<close>, documented by \<open>documented\<close>: repeat while the condition asks for it, at
  most the given number of times), the backoff library (\<open>backoff\<close>, documented by \<open>documented_backoff\<close>:
  the result is that of the last check), the JSON texts (\<open>json_texts\<close>), the wording of descriptions,
  the order of map iterations and the conversion of floats out of range. Structs of the Kubernetes
  libraries on the heap are a type parameter, and their copies assumed to be deep (\<open>library_copies\<close>). Theorems that need their
  documented behaviour assume it by name, and have a witness with a concrete function.

  \<^bold>\<open>Bounds.\<close> No function of the model needs fuel: waiting is bounded by the retry and backoff
  parameters, and the endless loops of the program are steps of a relation (Process), each round of
  them a function (\<open>operate\<close>, \<open>autoscaler_round\<close>, \<open>metrics_round\<close>). Time is a number of nanoseconds;
  durations are 64 bits wide.

  \<^bold>\<open>Not modelled.\<close> The event recorder (recorder.go), the metrics endpoint and the goroutine that closes
  idle connections, which have no effect on the operator; the parsing of flags, which is library code;
  the typed clients, listers and fakes under src/pkg/client, which are instances of library types; the
  registration of types; and the tests. Pod and claim specifications are opaque strings, because the
  operator only copies them. A context is modelled where the code looks at it: in the retry condition
  of a drain and in the selects of the loops.
\<close>

section \<open>From the autoscaler to the StatefulSet\<close>


text \<open>The operation stored in the example asks for four replicas; a StatefulSet of three is scaled up.\<close>

definition stored_example :: eds where
  "stored_example = set_annotations (Some [(es_scaling_operation_key, ''op'')]) (rs_eds (lean_resource (Some [])))"

definition scale_up_world :: world where
  "scale_up_world = scale_down_world\<lparr>w_get_eds := \<lambda>_ _ _. Inr stored_example,
     w_get_sts := \<lambda>_ _ _. Inr (example_sts 4)\<rparr>"

definition scale_up_run :: "(error, unit) outcome \<times> trace" where
  "scale_up_run = rescaleStatefulSet ask_once (example_sts 3) (GetResource example_env (example_eds None None)) scale_up_world []"

lemma scale_up_result: "case scale_up_run of (r, tr) \<Rightarrow> r = Ok () \<and> list_all (asks_for 4) tr"
  unfolding scale_up_run_def example_env_def reference_retry_def by code_simp

lemma scale_up_example:
  "rescale_round ask_once example_env (example_eds None None) 4 scale_up_world (example_sts 3)
     (written_statefulset (example_sts 3) (sts_writes (snd scale_up_run)))"
proof -
  obtain tr where tr: "scale_up_run = (Ok (), tr)" "list_all (asks_for 4) tr"
    using scale_up_result by (cases scale_up_run) auto
  then have "edsReplicas e0 = Some 4" if "GetEds ns n (Inr e0) \<in> set tr" for ns n e0
    using that by (auto simp: list_all_iff)
  with tr show ?thesis by (auto simp: rescale_round_def scale_up_run_def)
qed


end
